(* ===== verification/Gateway_Prelude.thy ===== *)
theory Gateway_Prelude
  imports Main "HOL-Library.Sublist" "HOL-Library.List_Lexorder" "HOL-Library.Char_ord"
begin

text \<open>
  The shared vocabulary of the development: the exceptions of the gateway as one datatype, the
  state-and-exception reading of an \<open>async def\<close> body with its \<open>try\<close>/\<open>finally\<close> combinators, Python
  dictionaries as association lists in insertion order, the string methods the sources call, and
  the lemma collections the component theories add to.

  A Python string is a \<^typ>\<open>string\<close>: one \<^typ>\<open>char\<close> per code point, so strings range over the code
  points below 256. Bytes are the same type, one \<^typ>\<open>char\<close> per byte.
\<close>

named_theorems prog_simps "running the statement combinators on a state"
named_theorems frame_intros "relations between the state before and after that a program keeps"

section \<open>Exceptions\<close>

text \<open>
  Every exception class that a handler of the gateway raises or tells apart. The class hierarchy
  shows in the predicates below: \<open>except ValueError\<close> also catches a \<open>JSONDecodeError\<close> and so on.
\<close>

datatype exn =
    ValueError string
  | JSONDecodeError
  | KeyError string
  | LookupError
  | TypeError
  | AttributeError
  | IndexError
  | RuntimeError string
  | RedisError string
  | ResponseError string
  | HTTPStatusError int
  | TimeoutException
  | RequestError
  | InvalidToken
  | PyJWKClientError
  | ExpiredSignatureError
  | InvalidAudienceError
  | InvalidIssuerError
  | PyJWTError
  | OAuthTokenNotFoundError string
  | OAuthRefreshError string
  | SlackTokenNotFoundError string
  | SlackAPIError string
  | ClientMetadataFetchError
  | ClientMetadataValidationError string
  | DcrRegistrationError
  | ValidationError string string
  | HTTPException int string
  | McpError int string
  | OSError
  | CancelledError

definition is_value_error :: "exn \<Rightarrow> bool" where
  "is_value_error e \<longleftrightarrow> (case e of ValueError _ \<Rightarrow> True | JSONDecodeError \<Rightarrow> True
     | ValidationError _ _ \<Rightarrow> True | _ \<Rightarrow> False)"

text \<open>\<open>httpx.RequestError\<close> is the base of the transport errors, a timeout among them.\<close>

definition is_request_error :: "exn \<Rightarrow> bool" where
  "is_request_error e \<longleftrightarrow> e = RequestError \<or> e = TimeoutException"

text \<open>\<open>httpx.HTTPError\<close> is the common base of the status errors and the transport errors.\<close>

definition is_http_error :: "exn \<Rightarrow> bool" where
  "is_http_error e \<longleftrightarrow> is_request_error e \<or> (\<exists>c. e = HTTPStatusError c)"

text \<open>
  \<open>jwt.PyJWTError\<close> is the base of every error of the token library; \<^const>\<open>PyJWTError\<close> stands for the
  classes the code does not name, the error for a string that is no token among them.
\<close>

definition is_pyjwt_error :: "exn \<Rightarrow> bool" where
  "is_pyjwt_error e \<longleftrightarrow> e \<in> {PyJWKClientError, ExpiredSignatureError, InvalidAudienceError, InvalidIssuerError, PyJWTError}"

text \<open>\<open>asyncio.CancelledError\<close> is a \<open>BaseException\<close>: \<open>except Exception\<close> lets it through.\<close>

definition is_exception :: "exn \<Rightarrow> bool" where
  "is_exception e \<longleftrightarrow> e \<noteq> CancelledError"

lemma is_http_error_code [code]:
  "is_http_error e = (case e of HTTPStatusError _ \<Rightarrow> True | _ \<Rightarrow> is_request_error e)"
  by (auto simp: is_http_error_def is_request_error_def split: exn.splits)

section \<open>Programs over a state that may raise\<close>

type_synonym 'a res = "exn + 'a"
type_synonym ('s, 'a) prog = "'s \<Rightarrow> 'a res \<times> 's"

definition ret :: "'a \<Rightarrow> ('s, 'a) prog" where
  "ret x s = (Inr x, s)"

definition raise :: "exn \<Rightarrow> ('s, 'a) prog" where
  "raise e s = (Inl e, s)"

definition lift_res :: "'a res \<Rightarrow> ('s, 'a) prog" where
  "lift_res r s = (r, s)"

definition asks :: "('s \<Rightarrow> 'a) \<Rightarrow> ('s, 'a) prog" where
  "asks f s = (Inr (f s), s)"

text \<open>Sequencing: an exception skips the rest of the body and keeps what was done so far.\<close>

definition bindM :: "('s, 'a) prog \<Rightarrow> ('a \<Rightarrow> ('s, 'b) prog) \<Rightarrow> ('s, 'b) prog" where
  "bindM m f s = (case m s of (Inl e, s') \<Rightarrow> (Inl e, s') | (Inr x, s') \<Rightarrow> f x s')"

text \<open>\<open>try: m except ... as e: h\<close>; a handler that does not match re-raises.\<close>

definition tryM :: "('s, 'a) prog \<Rightarrow> (exn \<Rightarrow> ('s, 'a) prog) \<Rightarrow> ('s, 'a) prog" where
  "tryM m h s = (case m s of (Inl e, s') \<Rightarrow> h e s' | (Inr x, s') \<Rightarrow> (Inr x, s'))"

text \<open>\<open>try: m finally: f\<close>: an exception of the cleanup replaces the outcome of the body.\<close>

definition finallyM :: "('s, 'a) prog \<Rightarrow> ('s, 'b) prog \<Rightarrow> ('s, 'a) prog" where
  "finallyM m f s = (case m s of (r, s') \<Rightarrow> (case f s' of (Inl e, s'') \<Rightarrow> (Inl e, s'') | (Inr _, s'') \<Rightarrow> (r, s'')))"

primrec mapM :: "('a \<Rightarrow> ('s, 'b) prog) \<Rightarrow> 'a list \<Rightarrow> ('s, 'b list) prog" where
  "mapM f [] = ret []"
| "mapM f (x # xs) = bindM (f x) (\<lambda>y. bindM (mapM f xs) (\<lambda>ys. ret (y # ys)))"

primrec map_res :: "('a \<Rightarrow> 'b res) \<Rightarrow> 'a list \<Rightarrow> 'b list res" where
  "map_res f [] = Inr []"
| "map_res f (x # xs) = (case f x of Inl e \<Rightarrow> Inl e | Inr y \<Rightarrow>
     (case map_res f xs of Inl e \<Rightarrow> Inl e | Inr ys \<Rightarrow> Inr (y # ys)))"

definition bind_res :: "'a res \<Rightarrow> ('a \<Rightarrow> 'b res) \<Rightarrow> 'b res" where
  "bind_res r f = (case r of Inl e \<Rightarrow> Inl e | Inr x \<Rightarrow> f x)"

lemma bind_res_simps [simp]:
  "bind_res (Inl e) f = Inl e" "bind_res (Inr x) f = f x"
  by (simp_all add: bind_res_def)

lemma ret_run [simp, prog_simps]: "ret x s = (Inr x, s)"
  by (simp add: ret_def)

lemma raise_run [simp, prog_simps]: "raise e s = (Inl e, s)"
  by (simp add: raise_def)

lemma lift_res_run [simp, prog_simps]: "lift_res r s = (r, s)"
  by (simp add: lift_res_def)

lemma asks_run [simp, prog_simps]: "asks f s = (Inr (f s), s)"
  by (simp add: asks_def)

lemma bindM_ret [simp]: "bindM (ret x) f = f x"
  by (rule ext) (simp add: bindM_def)

lemma bindM_raise [simp]: "bindM (raise e) f = raise e"
  by (rule ext) (simp add: bindM_def)

lemma bindM_assoc: "bindM (bindM m f) g = bindM m (\<lambda>x. bindM (f x) g)"
  by (rule ext) (auto simp: bindM_def split: prod.splits sum.splits)

lemma bindM_right [simp]: "bindM m ret = m"
  by (rule ext) (auto simp: bindM_def split: prod.splits sum.splits)

lemma bindM_Inr [prog_simps]: "m s = (Inr x, s') \<Longrightarrow> bindM m f s = f x s'"
  by (simp add: bindM_def)

lemma bindM_Inl [prog_simps]: "m s = (Inl e, s') \<Longrightarrow> bindM m f s = (Inl e, s')"
  by (simp add: bindM_def)

lemma tryM_Inr [prog_simps]: "m s = (Inr x, s') \<Longrightarrow> tryM m h s = (Inr x, s')"
  by (simp add: tryM_def)

lemma tryM_Inl [prog_simps]: "m s = (Inl e, s') \<Longrightarrow> tryM m h s = h e s'"
  by (simp add: tryM_def)

lemma bindM_InrE:
  assumes "bindM m f s = (Inr y, s')"
  obtains x s1 where "m s = (Inr x, s1)" and "f x s1 = (Inr y, s')"
  using assms by (auto simp: bindM_def split: prod.splits sum.splits)

lemma finallyM_run:
  "finallyM m f s = (let (r, s1) = m s; (q, s2) = f s1 in (case q of Inl e \<Rightarrow> Inl e | Inr _ \<Rightarrow> r, s2))"
  by (auto simp: finallyM_def split: prod.splits sum.splits)

section \<open>What a program keeps of its state\<close>

text \<open>
  \<open>guarantees R m\<close>: whatever the state and whatever the outcome, an exception included, the state
  after \<open>m\<close> is related by \<open>R\<close> to the state before. For a reflexive and transitive \<open>R\<close> (a frame, a
  log that only grows by good entries) the combinators keep it.
\<close>

definition guarantees :: "('s \<Rightarrow> 's \<Rightarrow> bool) \<Rightarrow> ('s, 'a) prog \<Rightarrow> bool" where
  "guarantees R m \<longleftrightarrow> (\<forall>s. R s (snd (m s)))"

lemma guaranteesI: "(\<And>s. R s (snd (m s))) \<Longrightarrow> guarantees R m"
  by (simp add: guarantees_def)

lemma guaranteesD: "guarantees R m \<Longrightarrow> m s = (r, s') \<Longrightarrow> R s s'"
  by (metis guarantees_def snd_conv)

lemma guarantees_mono: "guarantees R m \<Longrightarrow> (\<And>s s'. R s s' \<Longrightarrow> S s s') \<Longrightarrow> guarantees S m"
  by (simp add: guarantees_def)

locale frame_rel =
  fixes R :: "'s \<Rightarrow> 's \<Rightarrow> bool"
  assumes frame_refl: "R s s"
    and frame_trans: "R s t \<Longrightarrow> R t u \<Longrightarrow> R s u"
begin

lemma frame_ret: "guarantees R (ret x)"
  by (simp add: guarantees_def frame_refl)

lemma frame_raise: "guarantees R (raise e)"
  by (simp add: guarantees_def frame_refl)

lemma frame_lift_res: "guarantees R (lift_res r)"
  by (simp add: guarantees_def frame_refl)

lemma frame_asks: "guarantees R (asks f)"
  by (simp add: guarantees_def frame_refl)

lemma frame_bindM: "guarantees R m \<Longrightarrow> (\<And>x. guarantees R (f x)) \<Longrightarrow> guarantees R (bindM m f)"
  unfolding guarantees_def bindM_def
  by (auto split: prod.splits sum.splits) (metis frame_trans snd_conv)+

lemma frame_tryM: "guarantees R m \<Longrightarrow> (\<And>e. guarantees R (h e)) \<Longrightarrow> guarantees R (tryM m h)"
  unfolding guarantees_def tryM_def
  by (auto split: prod.splits sum.splits) (metis frame_trans snd_conv)+

lemma frame_finallyM: "guarantees R m \<Longrightarrow> guarantees R f \<Longrightarrow> guarantees R (finallyM m f)"
  unfolding guarantees_def finallyM_def
  by (auto split: prod.splits sum.splits) (metis frame_trans snd_conv)+

lemma frame_mapM: "(\<And>x. guarantees R (f x)) \<Longrightarrow> guarantees R (mapM f xs)"
  by (induction xs) (auto intro!: frame_bindM frame_ret)

lemmas frame_rules = frame_ret frame_raise frame_lift_res frame_asks frame_bindM frame_tryM
  frame_finallyM frame_mapM

end

end
