(* ===== verification/Py_Strings.thy ===== *)
theory Py_Strings
  imports Gateway_Prelude "HOL-Library.AList"
begin

text \<open>
  The methods of \<open>str\<close> and \<open>dict\<close> that the gateway calls. A \<open>dict\<close> is an association list in
  insertion order with distinct keys; assignment to a key that is present keeps its position, which
  is what \<^const>\<open>AList.update\<close> does.
\<close>

section \<open>Dictionaries\<close>

type_synonym ('k, 'v) dict = "('k \<times> 'v) list"

abbreviation dict_get :: "('k, 'v) dict \<Rightarrow> 'k \<Rightarrow> 'v option" where
  "dict_get d k \<equiv> map_of d k"

abbreviation dict_set :: "'k \<Rightarrow> 'v \<Rightarrow> ('k, 'v) dict \<Rightarrow> ('k, 'v) dict" where
  "dict_set k v d \<equiv> AList.update k v d"

definition dict_get_default :: "('k, 'v) dict \<Rightarrow> 'k \<Rightarrow> 'v \<Rightarrow> 'v" where
  "dict_get_default d k x = (case map_of d k of None \<Rightarrow> x | Some v \<Rightarrow> v)"

text \<open>\<open>d[k]\<close> on a dictionary with string keys.\<close>

definition dict_item :: "(string, 'v) dict \<Rightarrow> string \<Rightarrow> 'v res" where
  "dict_item d k = (case map_of d k of None \<Rightarrow> Inl (KeyError k) | Some v \<Rightarrow> Inr v)"

lemma dict_set_get [simp]: "dict_get (dict_set k v d) k' = (if k' = k then Some v else dict_get d k')"
  by (simp add: update_conv')

lemma dict_set_keys: "distinct (map fst d) \<Longrightarrow> distinct (map fst (dict_set k v d))"
  by (rule distinct_update)

text \<open>A dictionary built by inserting the items of a list one after the other, as \<open>dict(...)\<close>.\<close>

definition dict_of :: "('k \<times> 'v) list \<Rightarrow> ('k, 'v) dict" where
  "dict_of kvs = foldl (\<lambda>d (k, v). dict_set k v d) [] kvs"

lemma dict_set_new: "k \<notin> fst ` set d \<Longrightarrow> dict_set k v d = d @ [(k, v)]"
  by (induction d) auto

lemma dict_of_distinct_append:
  "distinct (map fst (d @ kvs)) \<Longrightarrow> foldl (\<lambda>d (k, v). dict_set k v d) d kvs = d @ kvs"
proof (induction kvs arbitrary: d)
  case (Cons kv kvs)
  obtain k v where kv: "kv = (k, v)" by (cases kv)
  from Cons.prems have "k \<notin> fst ` set d" by (auto simp: kv)
  then have step: "dict_set k v d = d @ [(k, v)]" by (rule dict_set_new)
  from Cons.prems have "distinct (map fst ((d @ [(k, v)]) @ kvs))" by (simp add: kv)
  from Cons.IH [OF this] show ?case by (simp add: kv step)
qed simp

lemma dict_of_distinct [simp]: "distinct (map fst kvs) \<Longrightarrow> dict_of kvs = kvs"
  using dict_of_distinct_append [of "[]" kvs] by (simp add: dict_of_def)

section \<open>String methods\<close>

abbreviation startswith :: "string \<Rightarrow> string \<Rightarrow> bool" where
  "startswith s p \<equiv> prefix p s"

text \<open>\<open>needle in hay\<close> on strings.\<close>

abbreviation str_in :: "string \<Rightarrow> string \<Rightarrow> bool" where
  "str_in needle hay \<equiv> sublist needle hay"

definition code_point :: "char \<Rightarrow> nat" where
  "code_point c = of_char c"

definition is_digit :: "char \<Rightarrow> bool" where
  "is_digit c \<longleftrightarrow> 48 \<le> code_point c \<and> code_point c \<le> 57"

text \<open>The white space of \<open>str.split()\<close> and \<open>str.strip()\<close> among the code points below 256.\<close>

definition is_space :: "char \<Rightarrow> bool" where
  "is_space c \<longleftrightarrow> (let n = code_point c in (9 \<le> n \<and> n \<le> 13) \<or> (28 \<le> n \<and> n \<le> 32) \<or> n = 133 \<or> n = 160)"

definition lower_char :: "char \<Rightarrow> char" where
  "lower_char c = (let n = code_point c in
     if (65 \<le> n \<and> n \<le> 90) \<or> (192 \<le> n \<and> n \<le> 222 \<and> n \<noteq> 215) then char_of (n + 32) else c)"

definition str_lower :: "string \<Rightarrow> string" where
  "str_lower s = map lower_char s"

text \<open>
  Upper case of a code point below 256: the sharp s becomes two letters; the micro sign and the
  y with diaeresis have upper-case forms above 255, which are not letters of any ASCII literal the
  code compares with, and stay as they are.
\<close>

definition upper_char :: "char \<Rightarrow> string" where
  "upper_char c = (let n = code_point c in
     if (97 \<le> n \<and> n \<le> 122) \<or> (224 \<le> n \<and> n \<le> 254 \<and> n \<noteq> 247) then [char_of (n - 32)]
     else if n = 223 then ''SS'' else [c])"

definition str_upper :: "string \<Rightarrow> string" where
  "str_upper s = concat (map upper_char s)"

text \<open>\<open>s.replace(c, r)\<close> for a pattern of one character.\<close>

definition str_replace1 :: "char \<Rightarrow> string \<Rightarrow> string \<Rightarrow> string" where
  "str_replace1 c r s = concat (map (\<lambda>x. if x = c then r else [x]) s)"

fun str_join :: "string \<Rightarrow> string list \<Rightarrow> string" where
  "str_join sep [] = []"
| "str_join sep [x] = x"
| "str_join sep (x # y # ys) = x @ sep @ str_join sep (y # ys)"

definition str_rstrip :: "char \<Rightarrow> string \<Rightarrow> string" where
  "str_rstrip c s = rev (dropWhile (\<lambda>x. x = c) (rev s))"

definition str_strip :: "string \<Rightarrow> string" where
  "str_strip s = rev (dropWhile is_space (rev (dropWhile is_space s)))"

text \<open>\<open>s.rsplit(c, 1)[0]\<close>: everything before the last \<open>c\<close>, the whole string if there is none.\<close>

definition str_rsplit1 :: "char \<Rightarrow> string \<Rightarrow> string" where
  "str_rsplit1 c s = (case dropWhile (\<lambda>x. x \<noteq> c) (rev s) of [] \<Rightarrow> s | _ # t \<Rightarrow> rev t)"

text \<open>\<open>os.path.join\<close> of a directory and a name.\<close>

definition path_join :: "string \<Rightarrow> string \<Rightarrow> string" where
  "path_join a b = (if prefix ''/'' b then b else if a = [] \<or> last a = CHR ''/'' then a @ b else a @ ''/'' @ b)"

text \<open>\<open>s.split()\<close>: the maximal runs of characters that are no white space.\<close>

fun split_ws_from :: "string \<Rightarrow> string \<Rightarrow> string list" where
  "split_ws_from w [] = (if w = [] then [] else [rev w])"
| "split_ws_from w (c # s) =
     (if is_space c then (if w = [] then split_ws_from [] s else rev w # split_ws_from [] s)
      else split_ws_from (c # w) s)"

definition str_split_ws :: "string \<Rightarrow> string list" where
  "str_split_ws s = split_ws_from [] s"

text \<open>\<open>s.partition(c)\<close> without the separator, \<open>None\<close> if \<open>c\<close> does not occur.\<close>

fun str_cut :: "char \<Rightarrow> string \<Rightarrow> (string \<times> string) option" where
  "str_cut c [] = None"
| "str_cut c (x # s) = (if x = c then Some ([], s)
     else (case str_cut c s of None \<Rightarrow> None | Some (a, b) \<Rightarrow> Some (x # a, b)))"

lemma str_cut_Some: "str_cut c s = Some (a, b) \<longleftrightarrow> s = a @ c # b \<and> c \<notin> set a"
proof (induction s arbitrary: a)
  case (Cons x s)
  show ?case
  proof (cases a)
    case Nil
    then show ?thesis by (auto split: option.splits)
  next
    case (Cons y a')
    have "str_cut c (x # s) = Some (y # a', b) \<longleftrightarrow> x \<noteq> c \<and> y = x \<and> str_cut c s = Some (a', b)"
      by (cases "str_cut c s") auto
    then show ?thesis by (simp add: Cons Cons.IH) blast
  qed
qed simp

lemma str_cut_None: "str_cut c s = None \<longleftrightarrow> c \<notin> set s"
  by (induction s) (auto split: option.splits)

definition solid :: "string \<Rightarrow> bool" where
  "solid w \<longleftrightarrow> list_all (\<lambda>c. \<not> is_space c) w"

lemma solid_simps [simp]:
  "solid []" "solid (c # w) \<longleftrightarrow> \<not> is_space c \<and> solid w" "solid (v @ w) \<longleftrightarrow> solid v \<and> solid w"
  "solid (rev w) \<longleftrightarrow> solid w"
  by (auto simp: solid_def list_all_iff)

lemma split_ws_from_words:
  "solid w \<Longrightarrow> list_all (\<lambda>v. v \<noteq> [] \<and> solid v) (split_ws_from w s)"
proof (induction w s rule: split_ws_from.induct)
  case (1 w)
  then show ?case by simp
next
  case (2 w c s)
  then show ?case by (cases "is_space c"; cases "w = []") simp_all
qed

lemma str_split_ws_words: "list_all (\<lambda>v. v \<noteq> [] \<and> solid v) (str_split_ws s)"
  unfolding str_split_ws_def by (rule split_ws_from_words) simp

lemma split_ws_from_word: "solid v \<Longrightarrow> split_ws_from w (v @ s) = split_ws_from (rev v @ w) s"
  by (induction v arbitrary: w) simp_all

lemma is_space_blank [simp]: "is_space (CHR '' '')"
  by (simp add: is_space_def code_point_def)

text \<open>Splitting undoes joining with a blank: a scope claim lists exactly the scopes put into it.\<close>

lemma str_split_ws_join:
  "list_all (\<lambda>v. v \<noteq> [] \<and> solid v) ws \<Longrightarrow> str_split_ws (str_join '' '' ws) = ws"
proof (induction ws rule: induct_list012)
  case 1
  then show ?case by (simp add: str_split_ws_def)
next
  case (2 x)
  then show ?case using split_ws_from_word [of x "[]" "[]"] by (simp add: str_split_ws_def)
next
  case (3 x y ys)
  then show ?case
    using split_ws_from_word [of x "[]" "CHR '' '' # str_join '' '' (y # ys)"]
    by (simp add: str_split_ws_def)
qed

lemma str_replace1_append: "str_replace1 c r (a @ b) = str_replace1 c r a @ str_replace1 c r b"
  by (simp add: str_replace1_def)

lemma str_replace1_Nil [simp]: "str_replace1 c r [] = []"
  by (simp add: str_replace1_def)

lemma str_replace1_Cons [simp]:
  "str_replace1 c r (x # s) = (if x = c then r else [x]) @ str_replace1 c r s"
  by (simp add: str_replace1_def)

lemma str_replace1_absent: "c \<notin> set s \<Longrightarrow> str_replace1 c r s = s"
  by (induction s) auto

lemma length_str_lower [simp]: "length (str_lower s) = length s"
  by (simp add: str_lower_def)

end
