(* ===== verification/Py_Numbers.thy ===== *)
theory Py_Numbers
  imports Complex_Main Py_Strings
begin

text \<open>
  Numbers and their text: \<open>str(int)\<close>, \<open>int(str)\<close>, \<open>str(float)\<close> and \<open>float(str)\<close>. An \<open>int\<close> is an
  \<^typ>\<open>int\<close>. A finite \<open>float\<close> is an exact decimal \<open>Dec m n\<close>, the number \<open>m / 10^n\<close>: binary
  rounding is left out, sums and comparisons are exact, and the text of a float is its positional
  form, which is what \<open>repr\<close> prints between 1e-4 and 1e16 (clock readings and their sums).
\<close>

section \<open>Decimal digits\<close>

definition digit_char :: "nat \<Rightarrow> char" where
  "digit_char d = char_of (48 + d)"

definition digit_value :: "char \<Rightarrow> nat" where
  "digit_value c = code_point c - 48"

fun nat_str :: "nat \<Rightarrow> string" where
  "nat_str n = (if n < 10 then [digit_char n] else nat_str (n div 10) @ [digit_char (n mod 10)])"

declare nat_str.simps [simp del]

text \<open>The last \<open>k\<close> digits of a number, with leading zeros.\<close>

primrec fixed_digits :: "nat \<Rightarrow> nat \<Rightarrow> string" where
  "fixed_digits 0 x = []"
| "fixed_digits (Suc k) x = fixed_digits k (x div 10) @ [digit_char (x mod 10)]"

definition digits_value :: "string \<Rightarrow> nat" where
  "digits_value s = foldl (\<lambda>a c. 10 * a + digit_value c) 0 s"

lemma code_point_digit_char: "d < 10 \<Longrightarrow> code_point (digit_char d) = 48 + d"
  by (simp add: code_point_def digit_char_def)

lemma is_digit_digit_char [simp]: "d < 10 \<Longrightarrow> is_digit (digit_char d)"
  by (simp add: is_digit_def code_point_digit_char)

lemma digit_value_digit_char [simp]: "d < 10 \<Longrightarrow> digit_value (digit_char d) = d"
  by (simp add: digit_value_def code_point_digit_char)

lemma digits_value_snoc [simp]: "digits_value (s @ [c]) = 10 * digits_value s + digit_value c"
  by (simp add: digits_value_def)

lemma digits_value_Nil [simp]: "digits_value [] = 0"
  by (simp add: digits_value_def)

lemma digits_value_nat_str [simp]: "digits_value (nat_str n) = n"
proof (induction n rule: nat_str.induct)
  case (1 n)
  show ?case
  proof (cases "n < 10")
    case True
    then show ?thesis using digits_value_snoc [of "[]"] by (simp add: nat_str.simps [of n])
  next
    case False
    with 1 show ?thesis by (simp add: nat_str.simps [of n])
  qed
qed

lemma nat_str_digits [simp]: "list_all is_digit (nat_str n)"
proof (induction n rule: nat_str.induct)
  case (1 n)
  then show ?case by (cases "n < 10") (simp_all add: nat_str.simps [of n])
qed

lemma nat_str_nonempty [simp]: "nat_str n \<noteq> []"
  by (simp add: nat_str.simps [of n])

lemma fixed_digits_digits [simp]: "list_all is_digit (fixed_digits k x)"
  by (induction k arbitrary: x) simp_all

lemma length_fixed_digits [simp]: "length (fixed_digits k x) = k"
  by (induction k arbitrary: x) simp_all

lemma digits_value_append_fixed [simp]:
  "digits_value (s @ fixed_digits k x) = digits_value s * 10 ^ k + x mod 10 ^ k"
proof (induction k arbitrary: x)
  case (Suc k)
  have "x mod 10 ^ Suc k = 10 * (x div 10 mod 10 ^ k) + x mod 10"
    using mod_mult2_eq [of x 10 "10 ^ k"] by simp
  then show ?case
    using digits_value_snoc [of "s @ fixed_digits k (x div 10)" "digit_char (x mod 10)"]
    by (simp add: Suc algebra_simps)
qed simp

section \<open>Integers\<close>

definition int_str :: "int \<Rightarrow> string" where
  "int_str i = (if i < 0 then CHR ''-'' # nat_str (nat (- i)) else nat_str (nat i))"

text \<open>A digit part of a number literal: digits with single underscores between them.\<close>

fun digit_part :: "string \<Rightarrow> bool" where
  "digit_part [] = False"
| "digit_part [c] = is_digit c"
| "digit_part (c # d # s) = (is_digit c \<and> (if d = CHR ''_'' then digit_part s else digit_part (d # s)))"

definition digit_part_value :: "string \<Rightarrow> nat" where
  "digit_part_value s = digits_value (filter (\<lambda>c. c \<noteq> CHR ''_'') s)"

definition split_sign :: "string \<Rightarrow> bool \<times> string" where
  "split_sign s = (case s of [] \<Rightarrow> (False, [])
     | c # t \<Rightarrow> if c = CHR ''-'' then (True, t) else if c = CHR ''+'' then (False, t) else (False, s))"

text \<open>\<open>int(s)\<close>: \<open>None\<close> is the \<open>ValueError\<close>.\<close>

definition py_int :: "string \<Rightarrow> int option" where
  "py_int s = (case split_sign (str_strip s) of (neg, t) \<Rightarrow>
     if digit_part t then Some (if neg then - int (digit_part_value t) else int (digit_part_value t))
     else None)"

section \<open>Floats\<close>

datatype dec = Dec int nat

fun dec_val :: "dec \<Rightarrow> rat" where
  "dec_val (Dec m n) = of_int m / 10 ^ n"

definition dec_of_int :: "int \<Rightarrow> dec" where
  "dec_of_int i = Dec i 0"

fun dec_add :: "dec \<Rightarrow> dec \<Rightarrow> dec" where
  "dec_add (Dec m n) (Dec m' n') =
     (let k = max n n' in Dec (m * 10 ^ (k - n) + m' * 10 ^ (k - n')) k)"

fun dec_neg :: "dec \<Rightarrow> dec" where
  "dec_neg (Dec m n) = Dec (- m) n"

definition dec_sub :: "dec \<Rightarrow> dec \<Rightarrow> dec" where
  "dec_sub x y = dec_add x (dec_neg y)"

definition dec_abs :: "dec \<Rightarrow> dec" where
  "dec_abs x = (case x of Dec m n \<Rightarrow> Dec \<bar>m\<bar> n)"

fun dec_le :: "dec \<Rightarrow> dec \<Rightarrow> bool" where
  "dec_le (Dec m n) (Dec m' n') \<longleftrightarrow> m * 10 ^ n' \<le> m' * 10 ^ n"

definition dec_less :: "dec \<Rightarrow> dec \<Rightarrow> bool" where
  "dec_less x y \<longleftrightarrow> \<not> dec_le y x"

lemma dec_val_of_int [simp]: "dec_val (dec_of_int i) = of_int i"
  by (simp add: dec_of_int_def)

lemma dec_val_add [simp]: "dec_val (dec_add x y) = dec_val x + dec_val y"
proof (cases x; cases y)
  fix m n m' n' assume xy: "x = Dec m n" "y = Dec m' n'"
  define k where "k = max n n'"
  have "(10::rat) ^ k = 10 ^ (k - n) * 10 ^ n" "(10::rat) ^ k = 10 ^ (k - n') * 10 ^ n'"
    by (simp_all add: k_def flip: power_add)
  then have "of_int m / 10 ^ n = of_int m * 10 ^ (k - n) / (10::rat) ^ k"
    "of_int m' / 10 ^ n' = of_int m' * 10 ^ (k - n') / (10::rat) ^ k"
    by (simp_all add: field_simps)
  then show ?thesis by (simp add: xy k_def Let_def add_divide_distrib)
qed

lemma dec_val_neg [simp]: "dec_val (dec_neg x) = - dec_val x"
  by (cases x) simp

lemma dec_val_sub [simp]: "dec_val (dec_sub x y) = dec_val x - dec_val y"
  by (simp add: dec_sub_def)

lemma dec_val_abs [simp]: "dec_val (dec_abs x) = \<bar>dec_val x\<bar>"
  by (cases x) (simp add: dec_abs_def abs_divide)

lemma dec_le_val: "dec_le x y \<longleftrightarrow> dec_val x \<le> dec_val y"
proof (cases x; cases y)
  fix m n m' n' assume xy: "x = Dec m n" "y = Dec m' n'"
  have "dec_val x \<le> dec_val y \<longleftrightarrow> (of_int (m * 10 ^ n') :: rat) \<le> of_int (m' * 10 ^ n)"
    by (simp add: xy field_simps)
  also have "\<dots> \<longleftrightarrow> m * 10 ^ n' \<le> m' * 10 ^ n" by (simp only: of_int_le_iff)
  finally show ?thesis by (simp add: xy)
qed

lemma dec_less_val: "dec_less x y \<longleftrightarrow> dec_val x < dec_val y"
  by (simp add: dec_less_def dec_le_val not_le)

datatype pyfloat = Fin dec | PosInf | NegInf | NaN

text \<open>\<open>str(x)\<close> of a finite float: at least one digit on each side of the point.\<close>

fun dec_str :: "dec \<Rightarrow> string" where
  "dec_str (Dec m n) =
     (if n = 0 then int_str m @ ''.0''
      else (if m < 0 then ''-'' else []) @ nat_str (nat \<bar>m\<bar> div 10 ^ n) @ ''.'' @ fixed_digits n (nat \<bar>m\<bar>))"

text \<open>The exponent part of a float literal, \<open>None\<close> if it is malformed.\<close>

definition exponent_value :: "string \<Rightarrow> int option" where
  "exponent_value s = (case split_sign s of (neg, t) \<Rightarrow>
     if digit_part t then Some (if neg then - int (digit_part_value t) else int (digit_part_value t)) else None)"

definition scale_dec :: "int \<Rightarrow> nat \<Rightarrow> int \<Rightarrow> dec" where
  "scale_dec m n e = (if e \<ge> int n then Dec (m * 10 ^ nat (e - int n)) 0 else Dec m (nat (int n - e)))"

text \<open>An unsigned literal: integer part, optional point and fraction, optional exponent.\<close>

definition mantissa_value :: "string \<Rightarrow> (nat \<times> nat) option" where
  "mantissa_value s = (case str_cut (CHR ''.'') s of
     None \<Rightarrow> if digit_part s then Some (digit_part_value s, 0) else None
   | Some (ip, fp) \<Rightarrow>
       if (ip = [] \<or> digit_part ip) \<and> (fp = [] \<or> digit_part fp) \<and> (ip \<noteq> [] \<or> fp \<noteq> [])
       then Some (digit_part_value (ip @ fp), length (filter (\<lambda>c. c \<noteq> CHR ''_'') fp)) else None)"

definition cut_exponent :: "string \<Rightarrow> (string \<times> string) option" where
  "cut_exponent s = str_cut (CHR ''e'') (map (\<lambda>c. if c = CHR ''E'' then CHR ''e'' else c) s)"

definition float_value :: "bool \<Rightarrow> string \<Rightarrow> pyfloat option" where
  "float_value neg s = (case (case cut_exponent s of None \<Rightarrow> (s, Some 0) | Some (a, b) \<Rightarrow> (a, exponent_value b)) of
     (a, None) \<Rightarrow> None
   | (a, Some e) \<Rightarrow> (case mantissa_value a of None \<Rightarrow> None
       | Some (m, n) \<Rightarrow> Some (Fin (scale_dec (if neg then - int m else int m) n e))))"

text \<open>\<open>float(s)\<close>: \<open>None\<close> is the \<open>ValueError\<close>; the spellings of infinity and nan are accepted.\<close>

definition py_float :: "string \<Rightarrow> pyfloat option" where
  "py_float s = (case split_sign (str_strip s) of (neg, t) \<Rightarrow>
     if str_lower t \<in> {''inf'', ''infinity''} then Some (if neg then NegInf else PosInf)
     else if str_lower t = ''nan'' then Some NaN
     else float_value neg t)"

section \<open>Round trips\<close>

lemma is_digit_not_special:
  assumes "is_digit c"
  shows "\<not> is_space c" "c \<noteq> CHR ''-''" "c \<noteq> CHR ''+''" "c \<noteq> CHR ''_''" "c \<noteq> CHR ''.''"
    "c \<noteq> CHR ''e''" "c \<noteq> CHR ''E''" "lower_char c = c"
  using assms by (auto simp: is_digit_def code_point_def is_space_def lower_char_def Let_def)

lemma all_digits_solid: "list_all is_digit s \<Longrightarrow> solid s"
  by (induction s) (auto simp: is_digit_not_special)

lemma all_digits_not_special:
  "list_all is_digit s \<Longrightarrow> x \<in> set s \<Longrightarrow> x \<noteq> CHR ''_'' \<and> x \<noteq> CHR ''.'' \<and> x \<noteq> CHR ''e'' \<and> x \<noteq> CHR ''E'' \<and> x \<noteq> CHR ''-''"
  by (auto simp: list_all_iff is_digit_not_special)

lemma solid_dropWhile: "solid s \<Longrightarrow> dropWhile is_space s = s"
  by (cases s) auto

lemma str_strip_solid: "solid s \<Longrightarrow> str_strip s = s"
  by (simp add: str_strip_def solid_dropWhile)

lemma digit_part_digits: "list_all is_digit s \<Longrightarrow> s \<noteq> [] \<Longrightarrow> digit_part s"
  by (induction s rule: digit_part.induct) (auto simp: is_digit_not_special)

lemma digit_part_value_digits: "list_all is_digit s \<Longrightarrow> digit_part_value s = digits_value s"
proof -
  assume "list_all is_digit s"
  then have "filter (\<lambda>c. c \<noteq> CHR ''_'') s = s"
    using all_digits_not_special [of s] by simp
  then show ?thesis by (simp add: digit_part_value_def)
qed

lemma split_sign_digits: "list_all is_digit s \<Longrightarrow> split_sign s = (False, s)"
  by (cases s) (auto simp: split_sign_def is_digit_not_special)

lemma split_sign_minus [simp]: "split_sign (CHR ''-'' # s) = (True, s)"
  by (simp add: split_sign_def)

lemma py_int_str [simp]: "py_int (int_str i) = Some i"
proof -
  have sol: "solid (int_str i)"
    by (simp add: int_str_def all_digits_solid) (simp add: is_space_def code_point_def)
  show ?thesis
    by (simp add: py_int_def str_strip_solid [OF sol])
      (simp add: int_str_def split_sign_digits digit_part_digits digit_part_value_digits)
qed

lemma str_cut_absent: "c \<notin> set s \<Longrightarrow> str_cut c s = None"
  by (simp add: str_cut_None)

lemma cut_exponent_absent:
  assumes "CHR ''e'' \<notin> set s" and "CHR ''E'' \<notin> set s"
  shows "cut_exponent s = None"
  unfolding cut_exponent_def by (rule str_cut_absent) (use assms in auto)

lemma mantissa_value_point:
  assumes "list_all is_digit ip" "list_all is_digit fp" "ip \<noteq> []" "fp \<noteq> []"
  shows "mantissa_value (ip @ CHR ''.'' # fp) = Some (digits_value (ip @ fp), length fp)"
proof -
  have cut: "str_cut (CHR ''.'') (ip @ CHR ''.'' # fp) = Some (ip, fp)"
    using all_digits_not_special [OF assms(1)] by (auto simp: str_cut_Some)
  have "filter (\<lambda>c. c \<noteq> CHR ''_'') fp = fp"
    using all_digits_not_special [OF assms(2)] by simp
  with cut assms show ?thesis
    by (simp add: mantissa_value_def digit_part_digits digit_part_value_digits)
qed

text \<open>The unsigned text of a decimal reads back as its digits with the same scale.\<close>

lemma float_value_point:
  assumes "list_all is_digit ip" "list_all is_digit fp" "ip \<noteq> []" "fp \<noteq> []"
  shows "float_value neg (ip @ CHR ''.'' # fp) =
    Some (Fin (Dec (if neg then - int (digits_value (ip @ fp)) else int (digits_value (ip @ fp))) (length fp)))"
proof -
  have "cut_exponent (ip @ CHR ''.'' # fp) = None"
    using all_digits_not_special [OF assms(1)] all_digits_not_special [OF assms(2)]
    by (intro cut_exponent_absent) auto
  with assms show ?thesis
    by (simp add: float_value_def mantissa_value_point scale_dec_def)
qed

lemma py_float_point:
  assumes "list_all is_digit ip" "list_all is_digit fp" "ip \<noteq> []" "fp \<noteq> []"
  shows "py_float (ip @ CHR ''.'' # fp) = float_value False (ip @ CHR ''.'' # fp)"
    and "py_float (CHR ''-'' # ip @ CHR ''.'' # fp) = float_value True (ip @ CHR ''.'' # fp)"
proof -
  obtain c ip' where ip: "ip = c # ip'" using assms(3) by (cases ip) auto
  have c: "is_digit c" using assms(1) by (simp add: ip)
  have low: "str_lower (ip @ CHR ''.'' # fp) = c # str_lower (ip' @ CHR ''.'' # fp)"
    by (simp add: ip str_lower_def is_digit_not_special(8) [OF c])
  have "c \<noteq> CHR ''i''" "c \<noteq> CHR ''n''" using c by (auto simp: is_digit_def code_point_def)
  with low have nospecial: "str_lower (ip @ CHR ''.'' # fp) \<notin> {''inf'', ''infinity''}"
    "str_lower (ip @ CHR ''.'' # fp) \<noteq> ''nan''" by auto
  have "solid (ip @ CHR ''.'' # fp)" "solid (CHR ''-'' # ip @ CHR ''.'' # fp)"
    using assms by (simp_all add: all_digits_solid) (simp_all add: is_space_def code_point_def)
  note strip = this [THEN str_strip_solid]
  have "split_sign (ip @ CHR ''.'' # fp) = (False, ip @ CHR ''.'' # fp)"
    using c by (simp add: ip split_sign_def is_digit_not_special)
  with strip nospecial show "py_float (ip @ CHR ''.'' # fp) = float_value False (ip @ CHR ''.'' # fp)"
    by (simp add: py_float_def)
  from strip nospecial show "py_float (CHR ''-'' # ip @ CHR ''.'' # fp) = float_value True (ip @ CHR ''.'' # fp)"
    by (simp add: py_float_def)
qed

lemma digits_value_split: "digits_value (nat_str (k div 10 ^ n) @ fixed_digits n k) = k"
  by (simp add: div_mult_mod_eq)

text \<open>Printing a decimal with a fraction and reading the text back gives the same decimal.\<close>

lemma py_float_dec_str:
  assumes "0 < n"
  shows "py_float (dec_str (Dec m n)) = Some (Fin (Dec m n))"
proof -
  let ?ip = "nat_str (nat \<bar>m\<bar> div 10 ^ n)" and ?fp = "fixed_digits n (nat \<bar>m\<bar>)"
  have fp: "?fp \<noteq> []" using assms length_fixed_digits [of n "nat \<bar>m\<bar>"] by (metis length_0_conv less_irrefl)
  note facts = nat_str_digits [of "nat \<bar>m\<bar> div 10 ^ n"] fixed_digits_digits nat_str_nonempty fp
  have val: "float_value neg (?ip @ CHR ''.'' # ?fp) = Some (Fin (Dec (if neg then - \<bar>m\<bar> else \<bar>m\<bar>) n))" for neg
    by (simp only: float_value_point [OF facts] digits_value_split length_fixed_digits nat_0_le abs_ge_zero)
  show ?thesis
  proof (cases "m < 0")
    case True
    then have "dec_str (Dec m n) = CHR ''-'' # ?ip @ CHR ''.'' # ?fp" using assms by simp
    then show ?thesis by (simp only: py_float_point(2) [OF facts] val) (use True in simp)
  next
    case False
    then have "dec_str (Dec m n) = ?ip @ CHR ''.'' # ?fp" using assms by simp
    then show ?thesis by (simp only: py_float_point(1) [OF facts] val) (use False in simp)
  qed
qed

lemma digit_char_0 [simp]: "digit_char 0 = CHR ''0''"
  by code_simp

lemma digit_char_simps [simp]:
  "digit_char 1 = CHR ''1''" "digit_char (Suc 0) = CHR ''1''" "digit_char 2 = CHR ''2''" "digit_char 3 = CHR ''3''"
  "digit_char 4 = CHR ''4''" "digit_char 5 = CHR ''5''" "digit_char 6 = CHR ''6''" "digit_char 7 = CHR ''7''"
  "digit_char 8 = CHR ''8''" "digit_char 9 = CHR ''9''"
  by code_simp+

lemma fixed_digits_zero: "fixed_digits 1 (10 * k) = ''0''"
  by simp

text \<open>Whatever the scale, the number read back is the number printed.\<close>

lemma py_float_dec_str_val:
  "\<exists>d. py_float (dec_str x) = Some (Fin d) \<and> dec_val d = dec_val x"
proof (cases x)
  case (Dec m n)
  show ?thesis
  proof (cases "n = 0")
    case True
    have "dec_str (Dec m 0) = dec_str (Dec (10 * m) 1)"
      using fixed_digits_zero [of "nat \<bar>m\<bar>"] by (auto simp: int_str_def abs_mult nat_mult_distrib)
    then show ?thesis using py_float_dec_str [of 1 "10 * m"] True Dec by auto
  next
    case False
    then show ?thesis using py_float_dec_str [of n m] Dec by auto
  qed
qed

end
