(* ===== verification/Py_Json.thy ===== *)
theory Py_Json
  imports Py_Numbers
begin

text \<open>
  JSON as the standard library's \<open>json\<close> module prints and reads it: \<open>json.dumps\<close> with its default
  separators and \<open>ensure_ascii\<close>, \<open>json.loads\<close> with the extensions it accepts (\<open>NaN\<close>, \<open>Infinity\<close>,
  duplicate keys where the last value wins). A document is a value of the datatype below; an object
  is a dictionary in insertion order. An escape for a code point above 255 is outside the string
  type and counts as a decoding error.
\<close>

datatype json =
    JNull
  | JBool bool
  | JInt int
  | JFloat pyfloat
  | JStr string
  | JArr "json list"
  | JObj "(string \<times> json) list"

section \<open>Printing\<close>

definition hex_digit :: "nat \<Rightarrow> char" where
  "hex_digit d = (if d < 10 then char_of (48 + d) else char_of (87 + d))"

definition esc_char :: "char \<Rightarrow> string" where
  "esc_char c = (let n = code_point c in
     if n = 34 then [CHR 0x5C, CHR 0x22]
     else if n = 92 then [CHR 0x5C, CHR 0x5C]
     else if n = 10 then [CHR 0x5C, CHR ''n'']
     else if n = 13 then [CHR 0x5C, CHR ''r'']
     else if n = 9 then [CHR 0x5C, CHR ''t'']
     else if n = 8 then [CHR 0x5C, CHR ''b'']
     else if n = 12 then [CHR 0x5C, CHR ''f'']
     else if 32 \<le> n \<and> n \<le> 126 then [c]
     else [CHR 0x5C, CHR ''u'', CHR ''0'', CHR ''0'', hex_digit (n div 16), hex_digit (n mod 16)])"

definition dumps_str :: "string \<Rightarrow> string" where
  "dumps_str s = [CHR 0x22] @ concat (map esc_char s) @ [CHR 0x22]"

fun dumps_float :: "pyfloat \<Rightarrow> string" where
  "dumps_float (Fin d) = dec_str d"
| "dumps_float PosInf = ''Infinity''"
| "dumps_float NegInf = ''-Infinity''"
| "dumps_float NaN = ''NaN''"

fun dumps :: "json \<Rightarrow> string" where
  "dumps JNull = ''null''"
| "dumps (JBool b) = (if b then ''true'' else ''false'')"
| "dumps (JInt i) = int_str i"
| "dumps (JFloat x) = dumps_float x"
| "dumps (JStr s) = dumps_str s"
| "dumps (JArr xs) = ''['' @ str_join '', '' (map dumps xs) @ '']''"
| "dumps (JObj kvs) = ''{'' @ str_join '', '' (map (\<lambda>kv. dumps_str (fst kv) @ '': '' @ dumps (snd kv)) kvs) @ ''}''"

section \<open>Reading\<close>

definition json_ws :: "char \<Rightarrow> bool" where
  "json_ws c \<longleftrightarrow> code_point c \<in> {32, 9, 10, 13}"

abbreviation skip_ws :: "string \<Rightarrow> string" where
  "skip_ws s \<equiv> dropWhile json_ws s"

definition hex_value :: "char \<Rightarrow> nat option" where
  "hex_value c = (let n = code_point c in
     if 48 \<le> n \<and> n \<le> 57 then Some (n - 48)
     else if 97 \<le> n \<and> n \<le> 102 then Some (n - 87)
     else if 65 \<le> n \<and> n \<le> 70 then Some (n - 55) else None)"

definition hex4 :: "char \<Rightarrow> char \<Rightarrow> char \<Rightarrow> char \<Rightarrow> nat option" where
  "hex4 a b c d = (case (hex_value a, hex_value b, hex_value c, hex_value d) of
     (Some w, Some x, Some y, Some z) \<Rightarrow> Some (((w * 16 + x) * 16 + y) * 16 + z) | _ \<Rightarrow> None)"

definition unesc :: "char \<Rightarrow> char option" where
  "unesc c = (let n = code_point c in
     if n = 34 \<or> n = 92 \<or> n = 47 then Some c
     else if n = 98 then Some (CHR 0x08) else if n = 102 then Some (CHR 0x0C)
     else if n = 110 then Some (CHR 0x0A) else if n = 114 then Some (CHR 0x0D)
     else if n = 116 then Some (CHR 0x09) else None)"

definition cons_fst :: "'a \<Rightarrow> ('a list \<times> 'b) option \<Rightarrow> ('a list \<times> 'b) option" where
  "cons_fst x r = (case r of None \<Rightarrow> None | Some (xs, t) \<Rightarrow> Some (x # xs, t))"

text \<open>The characters of a string literal after its opening quote.\<close>

fun scan_string :: "string \<Rightarrow> (string \<times> string) option" where
  "scan_string [] = None"
| "scan_string (c # s) =
     (if code_point c = 34 then Some ([], s)
      else if code_point c = 92 then
        (case s of [] \<Rightarrow> None
         | e # t \<Rightarrow>
             if e = CHR ''u'' then
               (case t of h1 # h2 # h3 # h4 # t' \<Rightarrow>
                  (case hex4 h1 h2 h3 h4 of None \<Rightarrow> None
                   | Some n \<Rightarrow> if n < 256 then cons_fst (char_of n) (scan_string t') else None)
                | _ \<Rightarrow> None)
             else (case unesc e of None \<Rightarrow> None | Some x \<Rightarrow> cons_fst x (scan_string t)))
      else if code_point c < 32 then None
      else cons_fst c (scan_string s))"

definition scan_frac :: "string \<Rightarrow> string \<times> string" where
  "scan_frac s = (case s of c # t \<Rightarrow>
     if c = CHR ''.'' \<and> takeWhile is_digit t \<noteq> [] then (takeWhile is_digit t, dropWhile is_digit t) else ([], s)
   | [] \<Rightarrow> ([], s))"

definition scan_exp :: "string \<Rightarrow> int option \<times> string" where
  "scan_exp s = (case s of c # t \<Rightarrow>
     (if c = CHR ''e'' \<or> c = CHR ''E'' then
        (case split_sign t of (neg, u) \<Rightarrow>
           if takeWhile is_digit u = [] then (None, s)
           else (Some (if neg then - int (digits_value (takeWhile is_digit u)) else int (digits_value (takeWhile is_digit u))),
                 dropWhile is_digit u))
      else (None, s))
   | [] \<Rightarrow> (None, s))"

text \<open>The integer part is a single zero or digits that do not start with zero.\<close>

definition scan_int_part :: "string \<Rightarrow> (string \<times> string) option" where
  "scan_int_part s = (case s of [] \<Rightarrow> None
     | c # t \<Rightarrow> if c = CHR ''0'' then Some (''0'', t)
        else if is_digit c then Some (takeWhile is_digit s, dropWhile is_digit s) else None)"

text \<open>A float is kept with at least one decimal, so that equal spellings give equal values.\<close>

fun float_form :: "dec \<Rightarrow> dec" where
  "float_form (Dec m n) = (if n = 0 then Dec (m * 10) 1 else Dec m n)"

definition scan_unsigned :: "bool \<Rightarrow> string \<Rightarrow> (json \<times> string) option" where
  "scan_unsigned neg s = (case scan_int_part s of None \<Rightarrow> None
     | Some (ip, t) \<Rightarrow> (case scan_frac t of (fp, u) \<Rightarrow> (case scan_exp u of (ex, r) \<Rightarrow>
         if fp = [] \<and> ex = None then
           Some (JInt (if neg then - int (digits_value ip) else int (digits_value ip)), r)
         else Some (JFloat (Fin (float_form (scale_dec
                (if neg then - int (digits_value (ip @ fp)) else int (digits_value (ip @ fp)))
                (length fp) (case ex of None \<Rightarrow> 0 | Some e \<Rightarrow> e)))), r))))"

definition scan_number :: "string \<Rightarrow> (json \<times> string) option" where
  "scan_number s = (case s of [] \<Rightarrow> None
     | c # t \<Rightarrow> if c = CHR ''-'' then scan_unsigned True t else scan_unsigned False s)"

text \<open>The values with a fixed spelling.\<close>

definition literals :: "(string \<times> json) list" where
  "literals = [(''null'', JNull), (''true'', JBool True), (''false'', JBool False), (''NaN'', JFloat NaN),
     (''Infinity'', JFloat PosInf), (''-Infinity'', JFloat NegInf)]"

fun scan_literal :: "(string \<times> json) list \<Rightarrow> string \<Rightarrow> (json \<times> string) option" where
  "scan_literal [] s = None"
| "scan_literal ((w, v) # ws) s = (if startswith s w then Some (v, drop (length w) s) else scan_literal ws s)"

text \<open>The key of an object member up to the value after its colon.\<close>

definition scan_key :: "string \<Rightarrow> (string \<times> string) option" where
  "scan_key s = (case s of [] \<Rightarrow> None
     | q # u \<Rightarrow> if q \<noteq> CHR 0x22 then None
        else (case scan_string u of None \<Rightarrow> None
         | Some (k, r) \<Rightarrow> (case skip_ws r of [] \<Rightarrow> None
            | c # t \<Rightarrow> if c = CHR '':'' then Some (k, skip_ws t) else None)))"

text \<open>What follows an item: the closing character, or a comma and \<open>more\<close> items.\<close>

definition after_item :: "char \<Rightarrow> 'a \<Rightarrow> (string \<Rightarrow> ('a list \<times> string) option) \<Rightarrow> string \<Rightarrow> ('a list \<times> string) option" where
  "after_item close x more r = (case skip_ws r of [] \<Rightarrow> None
     | c # t \<Rightarrow> if c = close then Some ([x], t)
         else if c = CHR '','' then cons_fst x (more (skip_ws t)) else None)"

text \<open>
  One value, the elements of an array up to its bracket, the members of an object up to its brace.
  Every call spends fuel; two units for each character and one more are enough.
\<close>

fun scan_value :: "nat \<Rightarrow> string \<Rightarrow> (json \<times> string) option"
and scan_elems :: "nat \<Rightarrow> string \<Rightarrow> (json list \<times> string) option"
and scan_members :: "nat \<Rightarrow> string \<Rightarrow> ((string \<times> json) list \<times> string) option" where
  "scan_value 0 s = None"
| "scan_value (Suc f) s = (case s of [] \<Rightarrow> None
     | c # t \<Rightarrow>
        if c = CHR 0x22 then (case scan_string t of None \<Rightarrow> None | Some (x, r) \<Rightarrow> Some (JStr x, r))
        else if c = CHR ''{'' then
          (if startswith (skip_ws t) ''}'' then Some (JObj [], tl (skip_ws t))
           else (case scan_members f (skip_ws t) of None \<Rightarrow> None | Some (kvs, r) \<Rightarrow> Some (JObj (dict_of kvs), r)))
        else if c = CHR ''['' then
          (if startswith (skip_ws t) '']'' then Some (JArr [], tl (skip_ws t))
           else (case scan_elems f (skip_ws t) of None \<Rightarrow> None | Some (vs, r) \<Rightarrow> Some (JArr vs, r)))
        else (case scan_literal literals s of Some vr \<Rightarrow> Some vr | None \<Rightarrow> scan_number s))"
| "scan_elems 0 s = None"
| "scan_elems (Suc f) s = (case scan_value f s of None \<Rightarrow> None
     | Some (v, r) \<Rightarrow> after_item (CHR '']'') v (scan_elems f) r)"
| "scan_members 0 s = None"
| "scan_members (Suc f) s = (case scan_key s of None \<Rightarrow> None
     | Some (k, t) \<Rightarrow> (case scan_value f t of None \<Rightarrow> None
         | Some (v, r) \<Rightarrow> after_item (CHR ''}'') (k, v) (scan_members f) r))"

definition loads :: "string \<Rightarrow> json res" where
  "loads s = (case scan_value (2 * length s + 1) (skip_ws s) of None \<Rightarrow> Inl JSONDecodeError
     | Some (v, r) \<Rightarrow> if skip_ws r = [] then Inr v else Inl JSONDecodeError)"



section \<open>Reading back what was printed\<close>

lemma scan_string_simps [simp]:
  "scan_string (CHR 0x22 # s) = Some ([], s)"
  by (simp add: code_point_def)

lemma char_of_code_point [simp]: "char_of (code_point c) = c"
  by (simp add: code_point_def)

lemma code_point_less: "code_point c < 256"
  using of_char_mod_256 [of c] by (metis code_point_def mod_less_divisor zero_less_numeral)

lemma hex_value_digit: "d < 16 \<Longrightarrow> hex_value (hex_digit d) = Some d"
  by (auto simp: hex_value_def hex_digit_def code_point_def Let_def)

lemma scan_string_esc: "scan_string (esc_char c @ t) = cons_fst c (scan_string t)"
proof -
  define n where "n = code_point c"
  have c: "c = char_of n" by (simp add: n_def)
  have n: "n < 256" by (simp add: n_def code_point_less)
  consider (special) "n \<in> {34, 92, 10, 13, 9, 8, 12}" | (plain) "n \<notin> {34, 92, 10, 13, 9, 8, 12}" "32 \<le> n \<and> n \<le> 126"
    | (hex) "n \<notin> {34, 92, 10, 13, 9, 8, 12}" "\<not> (32 \<le> n \<and> n \<le> 126)" by blast
  then show ?thesis
  proof cases
    case special
    have chars: "char_of (34::nat) = CHR 0x22" "char_of (92::nat) = CHR 0x5C" "char_of (10::nat) = CHR 0x0A"
      "char_of (13::nat) = CHR 0x0D" "char_of (9::nat) = CHR 0x09" "char_of (8::nat) = CHR 0x08" "char_of (12::nat) = CHR 0x0C"
      by code_simp+
    from special show ?thesis
      by (auto simp: esc_char_def n_def [symmetric] c chars unesc_def code_point_def)
  next
    case plain
    then show ?thesis by (simp add: esc_char_def n_def [symmetric])
  next
    case hex
    have "n div 16 < 16" using n by simp
    then have h: "hex4 (CHR ''0'') (CHR ''0'') (hex_digit (n div 16)) (hex_digit (n mod 16)) = Some n"
      using hex_value_digit [of "n div 16"] hex_value_digit [of "n mod 16"]
      by (simp add: hex4_def hex_value_def code_point_def)
    from hex have "esc_char c = [CHR 0x5C, CHR ''u'', CHR ''0'', CHR ''0'', hex_digit (n div 16), hex_digit (n mod 16)]"
      unfolding esc_char_def n_def [symmetric] Let_def by simp
    then show ?thesis using h n by (simp add: code_point_def c)
  qed
qed

lemma scan_string_dumps: "scan_string (concat (map esc_char s) @ CHR 0x22 # r) = Some (s, r)"
  by (induction s) (simp_all add: scan_string_esc cons_fst_def del: scan_string.simps)

lemma dumps_str_scan: "dumps_str s @ r = CHR 0x22 # (concat (map esc_char s) @ CHR 0x22 # r)"
  by (simp add: dumps_str_def)

text \<open>A rest that cannot continue a number.\<close>

definition num_stop :: "string \<Rightarrow> bool" where
  "num_stop r \<longleftrightarrow> (case r of [] \<Rightarrow> True | c # _ \<Rightarrow> \<not> is_digit c \<and> c \<noteq> CHR ''.'' \<and> c \<noteq> CHR ''e'' \<and> c \<noteq> CHR ''E'')"

lemma take_digits:
  assumes "list_all is_digit ds" "r = [] \<or> \<not> is_digit (hd r)"
  shows "takeWhile is_digit (ds @ r) = ds" "dropWhile is_digit (ds @ r) = r"
  using assms by (induction ds) (auto simp: neq_Nil_conv takeWhile_eq_Nil_iff dropWhile_eq_self_iff)

lemma nat_str_head: "0 < n \<Longrightarrow> hd (nat_str n) \<noteq> CHR ''0''"
proof (induction n rule: nat_str.induct)
  case (1 n)
  show ?case
  proof (cases "n < 10")
    case True
    have "code_point (hd (nat_str n)) = 48 + n" using True by (simp add: nat_str.simps [of n] code_point_digit_char)
    with 1 show ?thesis by (auto simp: code_point_def)
  next
    case False
    with 1 show ?thesis by (simp add: nat_str.simps [of n] hd_append)
  qed
qed

lemma nat_str_0: "nat_str 0 = ''0''"
  by (simp add: nat_str.simps [of 0])

lemma scan_int_part_nat_str:
  assumes "r = [] \<or> \<not> is_digit (hd r)"
  shows "scan_int_part (nat_str n @ r) = Some (nat_str n, r)"
proof (cases "n = 0")
  case True
  then show ?thesis by (simp add: nat_str_0 scan_int_part_def)
next
  case False
  obtain c ds where cs: "nat_str n = c # ds" using nat_str_nonempty [of n] by (cases "nat_str n") auto
  have "c \<noteq> CHR ''0''" using nat_str_head [of n] False by (simp add: cs)
  moreover have "is_digit c" using nat_str_digits [of n] by (simp add: cs)
  ultimately show ?thesis
    using take_digits [OF nat_str_digits assms, of n] by (simp add: scan_int_part_def cs)
qed

lemma num_stop_hd: "num_stop r \<Longrightarrow> r = [] \<or> \<not> is_digit (hd r)"
  by (cases r) (auto simp: num_stop_def)

lemma scan_frac_stop: "num_stop r \<Longrightarrow> scan_frac r = ([], r)"
  by (cases r) (auto simp: num_stop_def scan_frac_def)

lemma scan_exp_stop: "num_stop r \<Longrightarrow> scan_exp r = (None, r)"
  by (cases r) (auto simp: num_stop_def scan_exp_def)

lemma scan_unsigned_int:
  "num_stop r \<Longrightarrow> scan_unsigned neg (nat_str n @ r) = Some (JInt (if neg then - int n else int n), r)"
  by (simp add: scan_unsigned_def scan_int_part_nat_str num_stop_hd scan_frac_stop scan_exp_stop)

lemma scan_unsigned_dec:
  assumes "num_stop r" "0 < n"
  shows "scan_unsigned neg (nat_str (k div 10 ^ n) @ CHR ''.'' # fixed_digits n k @ r) =
    Some (JFloat (Fin (Dec (if neg then - int k else int k) n)), r)"
proof -
  have ne: "fixed_digits n k \<noteq> []" using assms(2) length_fixed_digits [of n k] by (metis length_0_conv less_irrefl)
  have ip: "scan_int_part (nat_str (k div 10 ^ n) @ CHR ''.'' # fixed_digits n k @ r)
      = Some (nat_str (k div 10 ^ n), CHR ''.'' # fixed_digits n k @ r)"
    by (rule scan_int_part_nat_str) (simp add: is_digit_def code_point_def)
  have fr: "scan_frac (CHR ''.'' # fixed_digits n k @ r) = (fixed_digits n k, r)"
    using take_digits [OF fixed_digits_digits num_stop_hd [OF assms(1)], of n k] ne
    by (simp add: scan_frac_def)
  have dv: "digits_value (nat_str (k div 10 ^ n) @ fixed_digits n k) = k" by (rule digits_value_split)
  show ?thesis
    unfolding scan_unsigned_def ip option.case prod.case fr scan_exp_stop [OF assms(1)] dv length_fixed_digits
    using ne assms(2) by (simp add: scale_dec_def)
qed

lemma nat_str_hd: "\<exists>c ds. nat_str n = c # ds \<and> is_digit c"
  using nat_str_digits [of n] nat_str_nonempty [of n] by (cases "nat_str n") auto

lemma digit_head_number:
  assumes "is_digit c"
  shows "scan_number (c # s) = scan_unsigned False (c # s)" "scan_number (CHR ''-'' # c # s) = scan_unsigned True (c # s)"
    "scan_literal literals (c # s) = None" "scan_literal literals (CHR ''-'' # c # s) = None"
proof -
  have ne: "c \<noteq> CHR ''n''" "c \<noteq> CHR ''t''" "c \<noteq> CHR ''f''" "c \<noteq> CHR ''N''" "c \<noteq> CHR ''I''" "c \<noteq> CHR ''-''"
    using assms by (auto simp: is_digit_def code_point_def)
  show "scan_number (c # s) = scan_unsigned False (c # s)" "scan_number (CHR ''-'' # c # s) = scan_unsigned True (c # s)"
    using ne by (simp_all add: scan_number_def)
  show "scan_literal literals (c # s) = None" "scan_literal literals (CHR ''-'' # c # s) = None"
    using ne [symmetric] by (simp_all add: literals_def)
qed

lemma scan_value_digit:
  assumes "is_digit c"
  shows "scan_value (Suc f) (c # s) = scan_unsigned False (c # s)"
    "scan_value (Suc f) (CHR ''-'' # c # s) = scan_unsigned True (c # s)"
proof -
  have ne: "c \<noteq> CHR 0x22" "c \<noteq> CHR ''{''" "c \<noteq> CHR ''[''"
    using assms by (auto simp: is_digit_def code_point_def)
  show "scan_value (Suc f) (c # s) = scan_unsigned False (c # s)"
    using ne digit_head_number [OF assms] by simp
  show "scan_value (Suc f) (CHR ''-'' # c # s) = scan_unsigned True (c # s)"
    using digit_head_number [OF assms] by simp
qed

lemma scan_value_nat_str:
  "scan_value (Suc f) (nat_str n @ r) = scan_unsigned False (nat_str n @ r)"
  "scan_value (Suc f) (CHR ''-'' # nat_str n @ r) = scan_unsigned True (nat_str n @ r)"
proof -
  obtain c ds where "nat_str n = c # ds" "is_digit c" using nat_str_hd by blast
  then show "scan_value (Suc f) (nat_str n @ r) = scan_unsigned False (nat_str n @ r)"
    "scan_value (Suc f) (CHR ''-'' # nat_str n @ r) = scan_unsigned True (nat_str n @ r)"
    by (simp_all add: scan_value_digit del: scan_value.simps)
qed

lemma scan_value_int: "num_stop r \<Longrightarrow> scan_value (Suc f) (int_str i @ r) = Some (JInt i, r)"
  by (simp add: int_str_def scan_value_nat_str scan_unsigned_int del: scan_value.simps)

lemma scan_value_dec:
  assumes "num_stop r" "0 < n"
  shows "scan_value (Suc f) (dec_str (Dec m n) @ r) = Some (JFloat (Fin (Dec m n)), r)"
  using assms by (simp add: scan_value_nat_str scan_unsigned_dec del: scan_value.simps)

text \<open>
  The documents \<open>dumps\<close> is given: objects with distinct keys, floats with a fractional digit (a float
  without one prints as \<open>.0\<close> and reads back with one).
\<close>

fun wf_json :: "json \<Rightarrow> bool" where
  "wf_json (JFloat x) = (case x of Fin (Dec m n) \<Rightarrow> 0 < n | _ \<Rightarrow> True)"
| "wf_json (JArr xs) = list_all wf_json xs"
| "wf_json (JObj kvs) = (distinct (map fst kvs) \<and> list_all (\<lambda>kv. wf_json (snd kv)) kvs)"
| "wf_json _ = True"

definition value_start :: "string \<Rightarrow> bool" where
  "value_start s \<longleftrightarrow> (case s of [] \<Rightarrow> False | c # _ \<Rightarrow> \<not> json_ws c \<and> c \<noteq> CHR '']'' \<and> c \<noteq> CHR ''}'')"

lemma value_start_append: "value_start s \<Longrightarrow> value_start (s @ r)"
  by (cases s) (auto simp: value_start_def)

lemma value_start_skip: "value_start s \<Longrightarrow> skip_ws s = s"
  by (cases s) (auto simp: value_start_def)

lemma value_start_close: "value_start s \<Longrightarrow> \<not> startswith s '']''" "value_start s \<Longrightarrow> \<not> startswith s ''}''"
  by (cases s; auto simp: value_start_def)+

lemma value_start_digit: "is_digit c \<Longrightarrow> value_start (c # s)"
  by (auto simp: value_start_def is_digit_def json_ws_def code_point_def)

lemma value_start_nat_str: "value_start (nat_str n @ r)"
  using nat_str_hd [of n] by (auto intro: value_start_digit)

lemma value_start_dumps: "value_start (dumps j)"
proof (cases j)
  case (JInt i)
  then show ?thesis
    using value_start_nat_str [of _ "[]"]
    by (simp add: int_str_def) (simp add: value_start_def json_ws_def code_point_def)
next
  case (JFloat x)
  then show ?thesis
  proof (cases x)
    case (Fin d)
    obtain m n where d: "d = Dec m n" by (cases d)
    show ?thesis
      using value_start_nat_str
      by (simp add: JFloat Fin d int_str_def) (simp add: value_start_def json_ws_def code_point_def)
  qed (simp_all add: value_start_def json_ws_def code_point_def)
qed (simp_all add: value_start_def json_ws_def code_point_def dumps_str_def)

lemma scan_value_float: "num_stop r \<Longrightarrow> wf_json (JFloat x) \<Longrightarrow> scan_value (Suc f) (dumps_float x @ r) = Some (JFloat x, r)"
proof (cases x)
  case (Fin d)
  assume "num_stop r" "wf_json (JFloat x)"
  then show ?thesis using scan_value_dec by (cases d) (simp add: Fin del: dec_str.simps scan_value.simps)
qed (simp_all add: literals_def)

lemma num_stop_close [simp]:
  "num_stop (CHR '']'' # r)" "num_stop (CHR ''}'' # r)" "num_stop (CHR '','' # r)" "num_stop []"
  by (simp_all add: num_stop_def is_digit_def code_point_def)

lemma json_ws_simps [simp]:
  "json_ws (CHR '' '')" "\<not> json_ws (CHR '']'')" "\<not> json_ws (CHR ''}'')" "\<not> json_ws (CHR '','')" "\<not> json_ws (CHR '':'')"
  "\<not> json_ws (CHR 0x22)"
  by (simp_all add: json_ws_def code_point_def)

definition reads_back :: "json \<Rightarrow> bool" where
  "reads_back j \<longleftrightarrow> (\<forall>f r. num_stop r \<longrightarrow> 2 * length (dumps j) + 1 \<le> f \<longrightarrow> scan_value f (dumps j @ r) = Some (j, r))"

lemma reads_backD: "reads_back j \<Longrightarrow> num_stop r \<Longrightarrow> 2 * length (dumps j) + 1 \<le> f \<Longrightarrow> scan_value f (dumps j @ r) = Some (j, r)"
  by (simp add: reads_back_def)

lemma scan_elems_dumps:
  "xs \<noteq> [] \<Longrightarrow> list_all reads_back xs \<Longrightarrow> 2 * length (str_join '', '' (map dumps xs)) + 2 \<le> f \<Longrightarrow>
    scan_elems f (str_join '', '' (map dumps xs) @ CHR '']'' # r) = Some (xs, r)"
proof (induction xs arbitrary: f rule: induct_list012)
  case (2 x)
  then obtain g where f: "f = Suc g" "2 * length (dumps x) + 1 \<le> g" by (cases f) auto
  with 2 show ?case using reads_backD [of x "CHR '']'' # r" g] by (simp add: after_item_def)
next
  case (3 x y ys)
  let ?rest = "str_join '', '' (map dumps (y # ys)) @ CHR '']'' # r"
  from 3(5) obtain g where f: "f = Suc g" "2 * length (dumps x) + 1 \<le> g"
    "2 * length (str_join '', '' (map dumps (y # ys))) + 2 \<le> g" by (cases f) auto
  have "value_start ?rest"
    by (cases ys) (auto intro!: value_start_append value_start_dumps)
  then have skip: "skip_ws ?rest = ?rest" by (rule value_start_skip)
  have "scan_elems g ?rest = Some (y # ys, r)" using 3 f by simp
  moreover have "scan_value g (dumps x @ '', '' @ ?rest) = Some (x, '', '' @ ?rest)"
    using 3 f reads_backD [of x "'', '' @ ?rest" g] by simp
  ultimately show ?case using skip by (simp add: f cons_fst_def after_item_def)
qed simp

abbreviation dumps_member :: "string \<times> json \<Rightarrow> string" where
  "dumps_member kv \<equiv> dumps_str (fst kv) @ '': '' @ dumps (snd kv)"

lemma scan_key_dumps: "value_start t \<Longrightarrow> scan_key (dumps_str k @ '': '' @ t) = Some (k, t)"
  by (simp add: scan_key_def dumps_str_def scan_string_dumps value_start_skip del: scan_string.simps)

lemma scan_members_step:
  assumes "reads_back v" "num_stop r" "2 * length (dumps v) + 1 \<le> g"
  shows "scan_members (Suc g) (dumps_member (k, v) @ r) = after_item (CHR ''}'') (k, v) (scan_members g) r"
proof -
  have "scan_key (dumps_member (k, v) @ r) = Some (k, dumps v @ r)"
    using scan_key_dumps [of "dumps v @ r" k] value_start_append [OF value_start_dumps] by simp
  then show ?thesis using reads_backD [OF assms] by simp
qed

lemma scan_members_dumps:
  "kvs \<noteq> [] \<Longrightarrow> list_all (\<lambda>kv. reads_back (snd kv)) kvs \<Longrightarrow> 2 * length (str_join '', '' (map dumps_member kvs)) + 2 \<le> f \<Longrightarrow>
    scan_members f (str_join '', '' (map dumps_member kvs) @ CHR ''}'' # r) = Some (kvs, r)"
proof (induction kvs arbitrary: f rule: induct_list012)
  case (2 x)
  obtain k v where x: "x = (k, v)" by (cases x)
  from 2 obtain g where f: "f = Suc g" "2 * length (dumps v) + 1 \<le> g" by (cases f) (auto simp: x)
  with 2 show ?case using scan_members_step [of v "CHR ''}'' # r" g k] by (simp add: x after_item_def del: scan_members.simps)
next
  case (3 x y ys)
  obtain k v where x: "x = (k, v)" by (cases x)
  let ?rest = "str_join '', '' (map dumps_member (y # ys)) @ CHR ''}'' # r"
  from 3(5) obtain g where f: "f = Suc g" "2 * length (dumps v) + 1 \<le> g"
    "2 * length (str_join '', '' (map dumps_member (y # ys))) + 2 \<le> g" by (cases f) (auto simp: x)
  have "value_start (dumps_str s @ u)" for s u by (simp add: dumps_str_def value_start_def)
  then have "value_start ?rest" by (cases ys) auto
  then have skip: "skip_ws ?rest = ?rest" by (rule value_start_skip)
  have "scan_members g ?rest = Some (y # ys, r)" using 3 f by simp
  then show ?case
    using scan_members_step [of v "'', '' @ ?rest" g k] skip f 3(4)
    by (simp add: x cons_fst_def after_item_def del: scan_members.simps)
qed simp

lemma reads_back_atom: "(\<And>f r. num_stop r \<Longrightarrow> scan_value (Suc f) (dumps j @ r) = Some (j, r)) \<Longrightarrow> reads_back j"
  unfolding reads_back_def by (metis Suc_eq_plus1 Suc_le_D)

lemma reads_back_arr:
  assumes "list_all reads_back xs"
  shows "reads_back (JArr xs)"
  unfolding reads_back_def
proof (intro allI impI)
  fix f r assume "num_stop r" and len: "2 * length (dumps (JArr xs)) + 1 \<le> f"
  then obtain g where f: "f = Suc g" "2 * length (str_join '', '' (map dumps xs)) + 2 \<le> g" by (cases f) auto
  let ?t = "str_join '', '' (map dumps xs) @ CHR '']'' # r"
  show "scan_value f (dumps (JArr xs) @ r) = Some (JArr xs, r)"
  proof (cases xs)
    case Nil
    then show ?thesis by (simp add: f)
  next
    case (Cons y ys)
    then have "value_start ?t" by (cases ys) (auto intro!: value_start_append value_start_dumps)
    then show ?thesis
      using scan_elems_dumps [of xs g r] assms f value_start_skip [of ?t] value_start_close [of ?t] Cons by simp
  qed
qed

lemma reads_back_obj:
  assumes "list_all (\<lambda>kv. reads_back (snd kv)) kvs" "distinct (map fst kvs)"
  shows "reads_back (JObj kvs)"
  unfolding reads_back_def
proof (intro allI impI)
  fix f r assume "num_stop r" and len: "2 * length (dumps (JObj kvs)) + 1 \<le> f"
  then obtain g where f: "f = Suc g" "2 * length (str_join '', '' (map dumps_member kvs)) + 2 \<le> g" by (cases f) auto
  let ?t = "str_join '', '' (map dumps_member kvs) @ CHR ''}'' # r"
  show "scan_value f (dumps (JObj kvs) @ r) = Some (JObj kvs, r)"
  proof (cases kvs)
    case Nil
    then show ?thesis by (simp add: f)
  next
    case (Cons y ys)
    have "value_start (dumps_str s @ u)" for s u by (simp add: dumps_str_def value_start_def)
    with Cons have "value_start ?t" by (cases ys) auto
    then show ?thesis
      using scan_members_dumps [of kvs g r] assms f value_start_skip [of ?t] value_start_close [of ?t] Cons by simp
  qed
qed

lemma reads_back_wf: "wf_json j \<Longrightarrow> reads_back j"
proof (induction j)
  case JNull
  show ?case by (rule reads_back_atom) (simp add: literals_def)
next
  case (JBool b)
  show ?case by (rule reads_back_atom) (simp add: literals_def)
next
  case (JInt i)
  show ?case by (rule reads_back_atom) (simp add: scan_value_int del: scan_value.simps)
next
  case (JFloat x)
  then show ?case by (intro reads_back_atom) (simp add: scan_value_float del: scan_value.simps wf_json.simps)
next
  case (JStr s)
  show ?case by (rule reads_back_atom) (simp add: dumps_str_def scan_string_dumps del: scan_string.simps)
next
  case (JArr xs)
  then show ?case by (intro reads_back_arr) (simp add: list_all_iff)
next
  case (JObj kvs)
  then show ?case by (intro reads_back_obj) (fastforce simp: list_all_iff, simp)
qed

text \<open>Reading undoes printing.\<close>

lemma loads_dumps: "wf_json j \<Longrightarrow> loads (dumps j) = Inr j"
proof -
  assume "wf_json j"
  then have "scan_value (2 * length (dumps j) + 1) (dumps j @ []) = Some (j, [])"
    by (intro reads_backD reads_back_wf) simp_all
  then show ?thesis
    by (simp add: loads_def value_start_skip [OF value_start_dumps] del: scan_value.simps)
qed


section \<open>The fuel is enough\<close>

lemma scan_string_shorter: "scan_string s = Some (x, r) \<Longrightarrow> length r < length s"
proof (induction s arbitrary: x r rule: scan_string.induct)
  case (2 c s)
  then show ?case
    by (fastforce simp: cons_fst_def split: if_splits list.splits option.splits prod.splits)
qed simp

lemma skip_ws_le: "length (skip_ws s) \<le> length s"
  by (simp add: length_dropWhile_le)

lemma scan_frac_le: "scan_frac s = (x, r) \<Longrightarrow> length r \<le> length s"
  by (auto simp: scan_frac_def length_dropWhile_le le_SucI split: list.splits if_splits)

lemma split_sign_le: "split_sign s = (b, r) \<Longrightarrow> length r \<le> length s"
  by (auto simp: split_sign_def split: list.splits if_splits)

lemma scan_exp_le: "scan_exp s = (x, r) \<Longrightarrow> length r \<le> length s"
proof -
  assume a: "scan_exp s = (x, r)"
  show ?thesis
  proof (cases s)
    case Nil
    with a show ?thesis by (simp add: scan_exp_def)
  next
    case (Cons c t)
    obtain neg u where u: "split_sign t = (neg, u)" by (cases "split_sign t")
    have "length (dropWhile is_digit u) \<le> length s"
      using split_sign_le [OF u] length_dropWhile_le [of is_digit u] by (simp add: Cons)
    with a u show ?thesis by (auto simp: scan_exp_def Cons split: if_splits)
  qed
qed

lemma scan_int_part_shorter: "scan_int_part s = Some (x, r) \<Longrightarrow> length r < length s"
  by (auto simp: scan_int_part_def le_imp_less_Suc length_dropWhile_le split: list.splits if_splits)

lemma scan_unsigned_shorter: "scan_unsigned neg s = Some (x, r) \<Longrightarrow> length r < length s"
  by (fastforce simp: scan_unsigned_def dest!: scan_int_part_shorter scan_frac_le scan_exp_le
      split: option.splits prod.splits if_splits)

lemma scan_number_shorter: "scan_number s = Some (x, r) \<Longrightarrow> length r < length s"
  by (auto simp: scan_number_def dest: scan_unsigned_shorter split: list.splits if_splits)

lemma scan_literal_shorter:
  "scan_literal ws s = Some (x, r) \<Longrightarrow> list_all (\<lambda>w. fst w \<noteq> []) ws \<Longrightarrow> length r < length s"
  by (induction ws s rule: scan_literal.induct) (auto simp: prefix_def split: if_splits)

lemma literals_nonempty: "list_all (\<lambda>w. fst w \<noteq> []) literals"
  by (simp add: literals_def)

definition shortens :: "(string \<Rightarrow> ('a \<times> string) option) \<Rightarrow> bool" where
  "shortens p \<longleftrightarrow> (\<forall>s x r. p s = Some (x, r) \<longrightarrow> length r < length s)"

lemma shortensD: "shortens p \<Longrightarrow> p s = Some (x, r) \<Longrightarrow> length r < length s"
  by (simp add: shortens_def)

lemma skip_ws_Cons_shorter: "skip_ws r = c # t \<Longrightarrow> length t < length r"
  using skip_ws_le [of r] by simp

lemma scan_value_shortens:
  assumes "shortens (scan_elems f)" "shortens (scan_members f)"
  shows "shortens (scan_value (Suc f))"
  unfolding shortens_def
proof (intro allI impI)
  fix s v r assume v: "scan_value (Suc f) s = Some (v, r)"
  then obtain c t where s: "s = c # t" by (cases s) auto
  note le = skip_ws_le [of t]
  consider (str) "c = CHR 0x22" | (obj) "c = CHR ''{''" | (arr) "c = CHR ''[''"
    | (atom) "c \<noteq> CHR 0x22" "c \<noteq> CHR ''{''" "c \<noteq> CHR ''[''" by blast
  then show "length r < length s"
  proof cases
    case str
    with v show ?thesis by (auto simp: s split: option.splits dest!: scan_string_shorter)
  next
    case obj
    with v le show ?thesis by (auto simp: s split: if_splits option.splits dest!: shortensD [OF assms(2)])
  next
    case arr
    with v le show ?thesis by (auto simp: s split: if_splits option.splits dest!: shortensD [OF assms(1)])
  next
    case atom
    with v have "(case scan_literal literals (c # t) of Some vr \<Rightarrow> Some vr | None \<Rightarrow> scan_number (c # t)) = Some (v, r)"
      by (simp add: s)
    then show ?thesis unfolding s
      by (auto split: option.splits dest: scan_number_shorter scan_literal_shorter [OF _ literals_nonempty])
  qed
qed

lemma scan_key_shorter: "scan_key s = Some (k, t) \<Longrightarrow> length t < length s"
proof -
  assume "scan_key s = Some (k, t)"
  then obtain q u r c v where "s = q # u" "scan_string u = Some (k, r)" "skip_ws r = c # v" "t = skip_ws v"
    by (auto simp: scan_key_def split: list.splits option.splits if_splits)
  then show ?thesis
    using scan_string_shorter [of u k r] skip_ws_Cons_shorter [of r c v] skip_ws_le [of v] by simp
qed

lemma after_item_shorter:
  assumes "shortens more" "after_item close x more r = Some (xs, u)"
  shows "length u < length r"
proof -
  from assms(2) obtain c t where t: "skip_ws r = c # t"
    and "t = u \<or> (\<exists>ys. more (skip_ws t) = Some (ys, u))"
    by (auto simp: after_item_def cons_fst_def split: list.splits if_splits option.splits prod.splits)
  then show ?thesis
    using skip_ws_Cons_shorter [OF t] skip_ws_le [of t] by (auto dest!: shortensD [OF assms(1)])
qed

lemma scan_elems_shortens:
  "shortens (scan_value f) \<Longrightarrow> shortens (scan_elems f) \<Longrightarrow> shortens (scan_elems (Suc f))"
  unfolding shortens_def [of "scan_elems (Suc f)"]
  by (auto split: option.splits dest!: shortensD after_item_shorter)

lemma scan_members_shortens:
  "shortens (scan_value f) \<Longrightarrow> shortens (scan_members f) \<Longrightarrow> shortens (scan_members (Suc f))"
  unfolding shortens_def [of "scan_members (Suc f)"]
  by (auto split: option.splits dest!: scan_key_shorter shortensD after_item_shorter)

lemma scan_shortens: "shortens (scan_value f) \<and> shortens (scan_elems f) \<and> shortens (scan_members f)"
proof (induction f)
  case 0
  show ?case by (simp add: shortens_def)
next
  case (Suc f)
  then show ?case
    by (simp add: scan_value_shortens scan_elems_shortens scan_members_shortens del: scan_value.simps scan_elems.simps scan_members.simps)
qed

lemmas scan_value_shorter = shortensD [OF scan_shortens [THEN conjunct1]]

text \<open>\<open>settled p d f\<close>: on strings with \<open>2 * length + d \<le> f\<close> one more unit of fuel changes nothing.\<close>

definition settled :: "(nat \<Rightarrow> string \<Rightarrow> 'a option) \<Rightarrow> nat \<Rightarrow> nat \<Rightarrow> bool" where
  "settled p d f \<longleftrightarrow> (\<forall>s. 2 * length s + d \<le> f \<longrightarrow> p (Suc f) s = p f s)"

lemma settledD: "settled p d f \<Longrightarrow> 2 * length s + d \<le> f \<Longrightarrow> p (Suc f) s = p f s"
  by (simp add: settled_def)

lemma scan_value_settled:
  assumes "settled scan_elems 2 f" "settled scan_members 2 f"
  shows "settled scan_value 1 (Suc f)"
  unfolding settled_def
proof (intro allI impI)
  fix s :: string assume len: "2 * length s + 1 \<le> Suc f"
  show "scan_value (Suc (Suc f)) s = scan_value (Suc f) s"
  proof (cases s)
    case (Cons c t)
    then have "2 * length (skip_ws t) + 2 \<le> f" using len skip_ws_le [of t] by simp
    then have "scan_elems (Suc f) (skip_ws t) = scan_elems f (skip_ws t)"
      "scan_members (Suc f) (skip_ws t) = scan_members f (skip_ws t)"
      using assms by (simp_all only: settled_def)
    then show ?thesis by (simp only: scan_value.simps Cons list.case)
  qed simp
qed

lemma after_item_cong:
  assumes "\<And>t. length t + 1 \<le> length r \<Longrightarrow> more t = more' t"
  shows "after_item close x more r = after_item close x more' r"
proof (cases "skip_ws r")
  case (Cons c t)
  have "length (skip_ws t) + 1 \<le> length r"
    using skip_ws_Cons_shorter [OF Cons] skip_ws_le [of t] by simp
  then show ?thesis by (simp add: after_item_def Cons assms)
next
  case Nil
  then show ?thesis by (simp only: after_item_def list.case)
qed

lemma scan_elems_settled:
  assumes "settled scan_value 1 f" "settled scan_elems 2 f"
  shows "settled scan_elems 2 (Suc f)"
  unfolding settled_def
proof (intro allI impI)
  fix s :: string assume len: "2 * length s + 2 \<le> Suc f"
  have v: "scan_value (Suc f) s = scan_value f s" using len by (intro settledD [OF assms(1)]) simp
  have "after_item (CHR '']'') x (scan_elems (Suc f)) r = after_item (CHR '']'') x (scan_elems f) r"
    if "scan_value f s = Some (x, r)" for x r
    using len scan_value_shorter [OF that] by (intro after_item_cong settledD [OF assms(2)]) simp
  then show "scan_elems (Suc (Suc f)) s = scan_elems (Suc f) s"
    by (simp only: scan_elems.simps v) (cases "scan_value f s"; auto simp only: option.case prod.case)
qed

lemma scan_members_settled:
  assumes "settled scan_value 1 f" "settled scan_members 2 f"
  shows "settled scan_members 2 (Suc f)"
  unfolding settled_def
proof (intro allI impI)
  fix s :: string assume len: "2 * length s + 2 \<le> Suc f"
  have v: "scan_value (Suc f) t = scan_value f t" if "scan_key s = Some (k, t)" for k t
    using len scan_key_shorter [OF that] by (intro settledD [OF assms(1)]) simp
  have "after_item (CHR ''}'') x (scan_members (Suc f)) r = after_item (CHR ''}'') x (scan_members f) r"
    if "scan_key s = Some (k, t)" "scan_value f t = Some (y, r)" for k t x y r
    using len scan_key_shorter [OF that(1)] scan_value_shorter [OF that(2)]
    by (intro after_item_cong settledD [OF assms(2)]) simp
  with v show "scan_members (Suc (Suc f)) s = scan_members (Suc f) s"
    by (simp only: scan_members.simps) (auto simp del: scan_members.simps scan_value.simps split: option.split)
qed

lemma scan_settled: "settled scan_value 1 f \<and> settled scan_elems 2 f \<and> settled scan_members 2 f"
proof (induction f)
  case 0
  show ?case by (simp add: settled_def)
next
  case (Suc f)
  then show ?case using scan_value_settled scan_elems_settled scan_members_settled by blast
qed

text \<open>Any fuel of at least twice the length and one gives the result that every larger fuel gives.\<close>

lemma scan_value_fuel: "2 * length s + 1 \<le> f \<Longrightarrow> scan_value (f + k) s = scan_value f s"
proof (induction k)
  case (Suc k)
  have "scan_value (Suc (f + k)) s = scan_value (f + k) s"
    using scan_settled [of "f + k"] Suc.prems by (intro settledD) auto
  with Suc show ?case by (simp del: scan_value.simps)
qed simp

declare scan_value.simps [simp del] scan_elems.simps [simp del] scan_members.simps [simp del]

section \<open>What is read is well formed\<close>

lemma float_form_wf [simp]: "wf_json (JFloat (Fin (float_form d)))"
  by (cases d) simp

lemma dec_val_float_form [simp]: "dec_val (float_form d) = dec_val d"
  by (cases d) simp

lemma dict_set_all: "list_all (\<lambda>kv. P (snd kv)) d \<Longrightarrow> P v \<Longrightarrow> list_all (\<lambda>kv. P (snd kv)) (dict_set k v d)"
  by (induction d) auto

lemma dict_of_wf:
  assumes "list_all (\<lambda>kv. P (snd kv)) kvs"
  shows "distinct (map fst (dict_of kvs)) \<and> list_all (\<lambda>kv. P (snd kv)) (dict_of kvs)"
proof -
  have "distinct (map fst (foldl (\<lambda>d (k, v). dict_set k v d) d kvs)) \<and> list_all (\<lambda>kv. P (snd kv)) (foldl (\<lambda>d (k, v). dict_set k v d) d kvs)"
    if "distinct (map fst d)" "list_all (\<lambda>kv. P (snd kv)) d" for d
    using assms that
  proof (induction kvs arbitrary: d)
    case (Cons kv kvs)
    then show ?case by (cases kv) (simp add: dict_set_keys dict_set_all)
  qed simp
  then show ?thesis by (simp add: dict_of_def)
qed

lemma scan_number_wf: "scan_number s = Some (v, r) \<Longrightarrow> wf_json v"
  by (auto simp: scan_number_def scan_unsigned_def simp del: wf_json.simps(1) float_form.simps split: list.splits if_splits option.splits prod.splits)

lemma scan_literal_wf: "scan_literal ws s = Some (v, r) \<Longrightarrow> list_all (\<lambda>w. wf_json (snd w)) ws \<Longrightarrow> wf_json v"
  by (induction ws s rule: scan_literal.induct) (auto split: if_splits)

lemma after_item_all:
  assumes "after_item close x more r = Some (xs, u)" "P x" "\<And>s ys t. more s = Some (ys, t) \<Longrightarrow> list_all P ys"
  shows "list_all P xs"
  using assms(1,2)
  by (auto simp: after_item_def cons_fst_def split: list.splits if_splits option.splits prod.splits dest: assms(3))

lemma scan_wf:
  "(\<forall>s v r. scan_value f s = Some (v, r) \<longrightarrow> wf_json v) \<and> (\<forall>s vs r. scan_elems f s = Some (vs, r) \<longrightarrow> list_all wf_json vs)
   \<and> (\<forall>s kvs r. scan_members f s = Some (kvs, r) \<longrightarrow> list_all (\<lambda>kv. wf_json (snd kv)) kvs)"
proof (induction f)
  case (Suc f)
  note IH = Suc.IH
  note elems = IH [THEN conjunct2, THEN conjunct1, rule_format]
    and members = IH [THEN conjunct2, THEN conjunct2, rule_format]
  have lit: "list_all (\<lambda>w. wf_json (snd w)) literals" by (simp add: literals_def)
  have "wf_json v" if v: "scan_value (Suc f) s = Some (v, r)" for s v r
  proof -
    from v obtain c t where s: "s = c # t" by (cases s) (auto simp: scan_value.simps)
    show ?thesis
    proof (cases "c \<in> {CHR 0x22, CHR ''{'', CHR ''[''}")
      case True
      with v show ?thesis
        by (auto simp: s scan_value.simps split: if_splits option.splits dest!: elems dict_of_wf [of wf_json, OF members])
    next
      case False
      with v have "(case scan_literal literals (c # t) of Some vr \<Rightarrow> Some vr | None \<Rightarrow> scan_number (c # t)) = Some (v, r)"
        by (simp add: s scan_value.simps)
      then show ?thesis by (auto split: option.splits dest: scan_number_wf scan_literal_wf [OF _ lit])
    qed
  qed
  moreover have "list_all wf_json vs" if "scan_elems (Suc f) s = Some (vs, r)" for s vs r
    using that by (auto simp: scan_elems.simps split: option.splits
        elim!: after_item_all [where P = wf_json] dest: elems IH [THEN conjunct1, rule_format])
  moreover have "list_all (\<lambda>kv. wf_json (snd kv)) kvs" if "scan_members (Suc f) s = Some (kvs, r)" for s kvs r
    using that by (auto simp: scan_members.simps split: option.splits
        elim!: after_item_all [where P = "\<lambda>kv. wf_json (snd kv)"])
      (erule members IH [THEN conjunct1, rule_format])+
  ultimately show ?case by blast
qed (simp add: scan_value.simps scan_elems.simps scan_members.simps)

lemma loads_wf: "loads s = Inr j \<Longrightarrow> wf_json j"
  unfolding loads_def
  using scan_wf [THEN conjunct1, rule_format, of "2 * length s + 1" "skip_ws s"]
  by (auto split: option.splits prod.splits if_splits)

end
