(* ===== verification/Redis_Api.thy ===== *)
theory Redis_Api
  imports Py_Json
begin

text \<open>
  Redis is a service outside the repository. The gateway's code receives it as a parameter: the
  record \<open>redis\<close> holds the commands the code issues, each a program over the state of the world that
  may raise. What the code relies on is the locale \<open>redis_server\<close>: through an abstraction function
  every command that gets an answer acts as the documented command does on an abstract keyspace. A
  command that fails with a connection error (\<^const>\<open>RedisError\<close>) promises nothing.

  The abstract keyspace is executable, so the documented commands are also a server of their own
  (\<open>spec_redis\<close>), and with a schedule of outages they are a server that fails (\<open>flaky_redis\<close>).
\<close>

section \<open>The abstract keyspace\<close>

datatype stream_id = SID (sid_ms: nat) (sid_seq: nat)

instantiation stream_id :: linorder
begin

definition less_eq_stream_id :: "stream_id \<Rightarrow> stream_id \<Rightarrow> bool" where
  "less_eq_stream_id a b \<longleftrightarrow> sid_ms a < sid_ms b \<or> (sid_ms a = sid_ms b \<and> sid_seq a \<le> sid_seq b)"

definition less_stream_id :: "stream_id \<Rightarrow> stream_id \<Rightarrow> bool" where
  "less_stream_id a b \<longleftrightarrow> sid_ms a < sid_ms b \<or> (sid_ms a = sid_ms b \<and> sid_seq a < sid_seq b)"

instance
  by standard (auto simp: less_eq_stream_id_def less_stream_id_def stream_id.expand)

end

type_synonym fields = "(string, string) dict"
type_synonym entry = "stream_id \<times> fields"

record group =
  g_delivered :: stream_id
  g_pending :: "(stream_id \<times> string \<times> int) list"

record stream =
  s_entries :: "entry list"
  s_last :: stream_id
  s_groups :: "(string, group) dict"

datatype rval = RStr string | RStream stream

text \<open>A key holds a value and, if it expires, the server time in milliseconds up to which it lives.\<close>

record rstate =
  rs_now :: int
  rs_db :: "(string, rval \<times> int option) dict"

definition alive :: "int \<Rightarrow> int option \<Rightarrow> bool" where
  "alive now d \<longleftrightarrow> (case d of None \<Rightarrow> True | Some t \<Rightarrow> now \<le> t)"

definition rs_find :: "rstate \<Rightarrow> string \<Rightarrow> (rval \<times> int option) option" where
  "rs_find st k = (case map_of (rs_db st) k of None \<Rightarrow> None
     | Some (v, d) \<Rightarrow> if alive (rs_now st) d then Some (v, d) else None)"

definition rs_put :: "string \<Rightarrow> rval \<Rightarrow> int option \<Rightarrow> rstate \<Rightarrow> rstate" where
  "rs_put k v d st = st\<lparr>rs_db := dict_set k (v, d) (rs_db st)\<rparr>"

definition rs_remove :: "string \<Rightarrow> rstate \<Rightarrow> rstate" where
  "rs_remove k st = st\<lparr>rs_db := AList.delete k (rs_db st)\<rparr>"

lemma rs_find_put [simp]:
  "rs_find (rs_put k v d st) k' = (if k' = k then (if alive (rs_now st) d then Some (v, d) else None) else rs_find st k')"
  by (simp add: rs_find_def rs_put_def split: option.split)

lemma rs_find_remove [simp]: "rs_find (rs_remove k st) k' = (if k' = k then None else rs_find st k')"
  by (simp add: rs_find_def rs_remove_def delete_conv' split: option.split)

lemma rs_now_simps [simp]: "rs_now (rs_put k v d st) = rs_now st" "rs_now (rs_remove k st) = rs_now st"
  by (simp_all add: rs_put_def rs_remove_def)

text \<open>Time passes on the server.\<close>

definition rs_tick :: "int \<Rightarrow> rstate \<Rightarrow> rstate" where
  "rs_tick d st = st\<lparr>rs_now := rs_now st + d\<rparr>"

lemma rs_now_tick [simp]: "rs_now (rs_tick d st) = rs_now st + d"
  by (simp add: rs_tick_def)

section \<open>The commands\<close>

definition wrongtype :: exn where
  "wrongtype = ResponseError ''WRONGTYPE Operation against a key holding the wrong kind of value''"

definition rs_get :: "string \<Rightarrow> (rstate, string option) prog" where
  "rs_get k st = (case rs_find st k of None \<Rightarrow> (Inr None, st)
     | Some (RStr v, _) \<Rightarrow> (Inr (Some v), st) | Some (RStream _, _) \<Rightarrow> (Inl wrongtype, st))"

text \<open>\<open>SET key value [EX seconds] [NX]\<close>: the answer says whether the key was written.\<close>

definition rs_set :: "string \<Rightarrow> string \<Rightarrow> int option \<Rightarrow> bool \<Rightarrow> (rstate, bool) prog" where
  "rs_set k v ex nx st = (case ex of
     Some secs \<Rightarrow> if secs \<le> 0 then (Inl (ResponseError ''ERR invalid expire time in 'set' command''), st)
        else if nx \<and> rs_find st k \<noteq> None then (Inr False, st)
        else (Inr True, rs_put k (RStr v) (Some (rs_now st + secs * 1000)) st)
   | None \<Rightarrow> if nx \<and> rs_find st k \<noteq> None then (Inr False, st) else (Inr True, rs_put k (RStr v) None st))"

definition rs_getdel :: "string \<Rightarrow> (rstate, string option) prog" where
  "rs_getdel k st = (case rs_find st k of None \<Rightarrow> (Inr None, st)
     | Some (RStr v, _) \<Rightarrow> (Inr (Some v), rs_remove k st) | Some (RStream _, _) \<Rightarrow> (Inl wrongtype, st))"

text \<open>
  \<open>SCAN\<close> run to its end with a pattern. A pattern that ends in a star and has no other special
  character matches the keys that start with the text before the star.
\<close>

definition rs_scan :: "string \<Rightarrow> (rstate, string list) prog" where
  "rs_scan pat st = (Inr (filter (\<lambda>k. prefix (butlast pat) k \<and> rs_find st k \<noteq> None) (remdups (map fst (rs_db st)))), st)"

definition rs_delete :: "string list \<Rightarrow> (rstate, unit) prog" where
  "rs_delete ks st = (Inr (), foldr rs_remove ks st)"

text \<open>A missing key counts as 0; the new value keeps the expiry of the old one.\<close>

definition rs_incr :: "string \<Rightarrow> (rstate, int) prog" where
  "rs_incr k st = (case rs_find st k of None \<Rightarrow> (Inr 1, rs_put k (RStr (int_str 1)) None st)
     | Some (RStream _, _) \<Rightarrow> (Inl wrongtype, st)
     | Some (RStr v, d) \<Rightarrow> (case py_int v of
         None \<Rightarrow> (Inl (ResponseError ''ERR value is not an integer or out of range''), st)
       | Some n \<Rightarrow> (Inr (n + 1), rs_put k (RStr (int_str (n + 1))) d st)))"

text \<open>An expiry that is not in the future deletes the key.\<close>

definition rs_pexpire :: "string \<Rightarrow> int \<Rightarrow> (rstate, bool) prog" where
  "rs_pexpire k ms st = (case rs_find st k of None \<Rightarrow> (Inr False, st)
     | Some (v, _) \<Rightarrow> (Inr True, if ms \<le> 0 then rs_remove k st else rs_put k v (Some (rs_now st + ms)) st))"

definition rs_expire :: "string \<Rightarrow> int \<Rightarrow> (rstate, bool) prog" where
  "rs_expire k secs = rs_pexpire k (secs * 1000)"

definition rs_pttl :: "string \<Rightarrow> (rstate, int) prog" where
  "rs_pttl k st = (case rs_find st k of None \<Rightarrow> (Inr (- 2), st)
     | Some (_, None) \<Rightarrow> (Inr (- 1), st) | Some (_, Some t) \<Rightarrow> (Inr (t - rs_now st), st))"

text \<open>A script runs on the server as one step.\<close>

definition rs_eval :: "(rstate, int \<times> int) prog \<Rightarrow> (rstate, int \<times> int) prog" where
  "rs_eval script = script"

section \<open>Streams and consumer groups\<close>

definition empty_stream :: stream where
  "empty_stream = \<lparr>s_entries = [], s_last = SID 0 0, s_groups = []\<rparr>"

definition rs_stream :: "rstate \<Rightarrow> string \<Rightarrow> stream" where
  "rs_stream st k = (case rs_find st k of Some (RStream x, _) \<Rightarrow> x | _ \<Rightarrow> empty_stream)"

text \<open>The next id: the server time, or the next sequence number if that time was used.\<close>

definition next_id :: "int \<Rightarrow> stream_id \<Rightarrow> stream_id" where
  "next_id now l = (if sid_ms l < nat now then SID (nat now) 0 else SID (sid_ms l) (Suc (sid_seq l)))"

definition deadline :: "rstate \<Rightarrow> string \<Rightarrow> int option" where
  "deadline st k = (case rs_find st k of None \<Rightarrow> None | Some (_, d) \<Rightarrow> d)"

definition is_string_key :: "rstate \<Rightarrow> string \<Rightarrow> bool" where
  "is_string_key st k \<longleftrightarrow> (case rs_find st k of Some (RStr _, _) \<Rightarrow> True | _ \<Rightarrow> False)"

definition rs_put_stream :: "string \<Rightarrow> stream \<Rightarrow> rstate \<Rightarrow> rstate" where
  "rs_put_stream k x st = rs_put k (RStream x) (deadline st k) st"

definition rs_xadd :: "string \<Rightarrow> fields \<Rightarrow> (rstate, stream_id) prog" where
  "rs_xadd k fs st = (if is_string_key st k then (Inl wrongtype, st)
     else let x = rs_stream st k; i = next_id (rs_now st) (s_last x)
          in (Inr i, rs_put_stream k (x\<lparr>s_entries := s_entries x @ [(i, fs)], s_last := i\<rparr>) st))"

definition rs_xrange :: "string \<Rightarrow> (rstate, entry list) prog" where
  "rs_xrange k st = (if is_string_key st k then (Inl wrongtype, st) else (Inr (s_entries (rs_stream st k)), st))"

text \<open>
  \<open>XREAD STREAMS key 0\<close>: everything in the stream. The blocking form waits for a first entry until the
  timeout; its answer is what the stream holds when it is given, which other clients may have written
  meanwhile, so its law below speaks of the state after the call only.
\<close>

definition rs_xread :: "string \<Rightarrow> int \<Rightarrow> (rstate, entry list) prog" where
  "rs_xread k block = rs_xrange k"

definition rs_xgroup_create :: "string \<Rightarrow> string \<Rightarrow> (rstate, unit) prog" where
  "rs_xgroup_create k g st = (if is_string_key st k then (Inl wrongtype, st)
     else let x = rs_stream st k in
       if map_of (s_groups x) g \<noteq> None then (Inl (ResponseError ''BUSYGROUP Consumer Group name already exists''), st)
       else (Inr (), rs_put_stream k (x\<lparr>s_groups := dict_set g \<lparr>g_delivered = s_last x, g_pending = []\<rparr> (s_groups x)\<rparr>) st))"

definition nogroup :: exn where
  "nogroup = ResponseError ''NOGROUP No such key or consumer group''"

text \<open>The entries after the last one handed out to the group.\<close>

definition undelivered :: "stream \<Rightarrow> group \<Rightarrow> entry list" where
  "undelivered x gr = filter (\<lambda>e. g_delivered gr < fst e) (s_entries x)"

definition rs_xreadgroup :: "string \<Rightarrow> string \<Rightarrow> string \<Rightarrow> nat \<Rightarrow> int \<Rightarrow> (rstate, entry list) prog" where
  "rs_xreadgroup k g consumer cnt block st = (let x = rs_stream st k in
     case map_of (s_groups x) g of None \<Rightarrow> (Inl nogroup, st)
     | Some gr \<Rightarrow> (let es = take cnt (undelivered x gr) in
         if es = [] then (Inr [], st)
         else (Inr es, rs_put_stream k (x\<lparr>s_groups := dict_set g
           (gr\<lparr>g_delivered := fst (last es),
               g_pending := g_pending gr @ map (\<lambda>e. (fst e, consumer, rs_now st)) es\<rparr>) (s_groups x)\<rparr>) st)))"

definition rs_xack :: "string \<Rightarrow> string \<Rightarrow> stream_id \<Rightarrow> (rstate, int) prog" where
  "rs_xack k g i st = (let x = rs_stream st k in
     case map_of (s_groups x) g of None \<Rightarrow> (Inr 0, st)
     | Some gr \<Rightarrow> (Inr (if i \<in> fst ` set (g_pending gr) then 1 else 0),
         rs_put_stream k (x\<lparr>s_groups := dict_set g
           (gr\<lparr>g_pending := filter (\<lambda>p. fst p \<noteq> i) (g_pending gr)\<rparr>) (s_groups x)\<rparr>) st))"

text \<open>Claim up to \<open>cnt\<close> pending entries that have been idle for \<open>min_idle\<close> milliseconds.\<close>

definition rs_xautoclaim :: "string \<Rightarrow> string \<Rightarrow> string \<Rightarrow> int \<Rightarrow> nat \<Rightarrow> (rstate, entry list) prog" where
  "rs_xautoclaim k g consumer min_idle cnt st = (let x = rs_stream st k in
     case map_of (s_groups x) g of None \<Rightarrow> (Inl nogroup, st)
     | Some gr \<Rightarrow> (let ids = map fst (take cnt (filter (\<lambda>(i, c, t). min_idle \<le> rs_now st - t) (g_pending gr))) in
         (Inr (filter (\<lambda>e. fst e \<in> set ids) (s_entries x)),
          rs_put_stream k (x\<lparr>s_groups := dict_set g
            (gr\<lparr>g_pending := map (\<lambda>(i, c, t). if i \<in> set ids then (i, consumer, rs_now st) else (i, c, t)) (g_pending gr)\<rparr>)
            (s_groups x)\<rparr>) st)))"

text \<open>What an append does.\<close>

lemma alive_deadline: "alive (rs_now st) (deadline st k)"
  by (auto simp: deadline_def rs_find_def alive_def split: option.splits if_splits)

lemma rs_find_put_stream [simp]:
  "rs_find (rs_put_stream k x st) k' = (if k' = k then Some (RStream x, deadline st k) else rs_find st k')"
  by (simp add: rs_put_stream_def alive_deadline)

lemma rs_stream_put_stream [simp]: "rs_stream (rs_put_stream k x st) k' = (if k' = k then x else rs_stream st k')"
  by (simp add: rs_stream_def)

lemma rs_now_put_stream [simp]: "rs_now (rs_put_stream k x st) = rs_now st"
  by (simp add: rs_put_stream_def)

lemma rs_xadd_effect:
  assumes "rs_xadd k fs st = (Inr i, st')"
  shows "s_entries (rs_stream st' k) = s_entries (rs_stream st k) @ [(i, fs)]"
    and "s_groups (rs_stream st' k) = s_groups (rs_stream st k)"
    and "k' \<noteq> k \<Longrightarrow> rs_find st' k' = rs_find st k'" and "rs_now st' = rs_now st"
  using assms by (auto simp: rs_xadd_def Let_def split: if_splits)

section \<open>The client the code is given\<close>

record 's redis =
  r_get :: "string \<Rightarrow> ('s, string option) prog"
  r_set :: "string \<Rightarrow> string \<Rightarrow> int option \<Rightarrow> bool \<Rightarrow> ('s, bool) prog"
  r_getdel :: "string \<Rightarrow> ('s, string option) prog"
  r_scan :: "string \<Rightarrow> ('s, string list) prog"
  r_delete :: "string list \<Rightarrow> ('s, unit) prog"
  r_incr :: "string \<Rightarrow> ('s, int) prog"
  r_pexpire :: "string \<Rightarrow> int \<Rightarrow> ('s, bool) prog"
  r_expire :: "string \<Rightarrow> int \<Rightarrow> ('s, bool) prog"
  r_pttl :: "string \<Rightarrow> ('s, int) prog"
  r_eval :: "('s, int \<times> int) prog \<Rightarrow> ('s, int \<times> int) prog"
  r_xadd :: "string \<Rightarrow> fields \<Rightarrow> ('s, stream_id) prog"
  r_xrange :: "string \<Rightarrow> ('s, entry list) prog"
  r_xread :: "string \<Rightarrow> int \<Rightarrow> ('s, entry list) prog"
  r_xgroup_create :: "string \<Rightarrow> string \<Rightarrow> ('s, unit) prog"
  r_xreadgroup :: "string \<Rightarrow> string \<Rightarrow> string \<Rightarrow> nat \<Rightarrow> int \<Rightarrow> ('s, entry list) prog"
  r_xack :: "string \<Rightarrow> string \<Rightarrow> stream_id \<Rightarrow> ('s, int) prog"
  r_xautoclaim :: "string \<Rightarrow> string \<Rightarrow> string \<Rightarrow> int \<Rightarrow> nat \<Rightarrow> ('s, entry list) prog"

definition spec_redis :: "rstate redis" where
  "spec_redis = \<lparr>r_get = rs_get, r_set = rs_set, r_getdel = rs_getdel, r_scan = rs_scan, r_delete = rs_delete,
     r_incr = rs_incr, r_pexpire = rs_pexpire, r_expire = rs_expire, r_pttl = rs_pttl, r_eval = rs_eval,
     r_xadd = rs_xadd, r_xrange = rs_xrange, r_xread = rs_xread, r_xgroup_create = rs_xgroup_create,
     r_xreadgroup = rs_xreadgroup, r_xack = rs_xack, r_xautoclaim = rs_xautoclaim\<rparr>"

lemma spec_redis_simps [simp]:
  "r_get spec_redis = rs_get" "r_set spec_redis = rs_set" "r_getdel spec_redis = rs_getdel"
  "r_scan spec_redis = rs_scan" "r_delete spec_redis = rs_delete" "r_incr spec_redis = rs_incr"
  "r_pexpire spec_redis = rs_pexpire" "r_expire spec_redis = rs_expire" "r_pttl spec_redis = rs_pttl"
  "r_eval spec_redis = rs_eval" "r_xadd spec_redis = rs_xadd" "r_xrange spec_redis = rs_xrange"
  "r_xread spec_redis = rs_xread" "r_xgroup_create spec_redis = rs_xgroup_create"
  "r_xreadgroup spec_redis = rs_xreadgroup" "r_xack spec_redis = rs_xack" "r_xautoclaim spec_redis = rs_xautoclaim"
  by (simp_all add: spec_redis_def)

section \<open>What the code relies on\<close>

definition connection_error :: "exn \<Rightarrow> bool" where
  "connection_error e \<longleftrightarrow> (\<exists>m. e = RedisError m)"

lemma connection_error_simps [simp]:
  "connection_error (RedisError m)" "\<not> connection_error (ResponseError m')" "\<not> connection_error wrongtype"
  by (simp_all add: connection_error_def wrongtype_def)

text \<open>
  \<open>simulates \<alpha> m m'\<close>: unless \<open>m\<close> ends in a connection error, \<open>m'\<close> run on the abstract state gives the
  same outcome and the abstraction of the same state.
\<close>

definition simulates :: "('s \<Rightarrow> 't) \<Rightarrow> ('s, 'a) prog \<Rightarrow> ('t, 'a) prog \<Rightarrow> bool" where
  "simulates \<alpha> m m' \<longleftrightarrow> (\<forall>s r s'. m s = (r, s') \<longrightarrow>
     (case r of Inl e \<Rightarrow> connection_error e | Inr _ \<Rightarrow> False) \<or> m' (\<alpha> s) = (r, \<alpha> s'))"

lemma simulatesD_Inr: "simulates \<alpha> m m' \<Longrightarrow> m s = (Inr x, s') \<Longrightarrow> m' (\<alpha> s) = (Inr x, \<alpha> s')"
  by (force simp: simulates_def)

lemma simulatesD_Inl:
  "simulates \<alpha> m m' \<Longrightarrow> m s = (Inl e, s') \<Longrightarrow> connection_error e \<or> m' (\<alpha> s) = (Inl e, \<alpha> s')"
  by (force simp: simulates_def)

lemma simulates_ret [intro]: "simulates \<alpha> (ret x) (ret x)"
  by (simp add: simulates_def)

lemma simulates_raise [intro]: "simulates \<alpha> (raise e) (raise e)"
  by (simp add: simulates_def)

lemma simulates_bindM [intro]:
  assumes m: "simulates \<alpha> m m'" and f: "\<And>x. simulates \<alpha> (f x) (f' x)"
  shows "simulates \<alpha> (bindM m f) (bindM m' f')"
  unfolding simulates_def
proof (intro allI impI)
  fix s r s' assume run: "bindM m f s = (r, s')"
  obtain q s1 where q: "m s = (q, s1)" by (cases "m s")
  show "(case r of Inl e \<Rightarrow> connection_error e | Inr _ \<Rightarrow> False) \<or> bindM m' f' (\<alpha> s) = (r, \<alpha> s')"
  proof (cases q)
    case (Inl e)
    with run q have "r = Inl e" "s' = s1" by (simp_all add: bindM_def)
    then show ?thesis using simulatesD_Inl [OF m, of s e s1] q Inl by (auto simp: bindM_def)
  next
    case (Inr x)
    with run q have "f x s1 = (r, s')" by (simp add: bindM_def)
    moreover have "m' (\<alpha> s) = (Inr x, \<alpha> s1)" using simulatesD_Inr [OF m] q Inr by simp
    ultimately show ?thesis using f [of x] by (fastforce simp: simulates_def bindM_def)
  qed
qed

locale redis_server =
  fixes R :: "'s redis" and \<alpha> :: "'s \<Rightarrow> rstate"
  assumes sim_get: "simulates \<alpha> (r_get R k) (rs_get k)"
    and sim_set: "simulates \<alpha> (r_set R k v ex nx) (rs_set k v ex nx)"
    and sim_getdel: "simulates \<alpha> (r_getdel R k) (rs_getdel k)"
    and sim_scan: "simulates \<alpha> (r_scan R pat) (rs_scan pat)"
    and sim_delete: "simulates \<alpha> (r_delete R ks) (rs_delete ks)"
    and sim_incr: "simulates \<alpha> (r_incr R k) (rs_incr k)"
    and sim_pexpire: "simulates \<alpha> (r_pexpire R k ms) (rs_pexpire k ms)"
    and sim_expire: "simulates \<alpha> (r_expire R k secs) (rs_expire k secs)"
    and sim_pttl: "simulates \<alpha> (r_pttl R k) (rs_pttl k)"
    and sim_eval: "simulates \<alpha> m m' \<Longrightarrow> simulates \<alpha> (r_eval R m) (rs_eval m')"
    and sim_xadd: "simulates \<alpha> (r_xadd R k fs) (rs_xadd k fs)"
    and sim_xrange: "simulates \<alpha> (r_xrange R k) (rs_xrange k)"
    and xread_answer: "r_xread R k block s = (Inr es, s') \<Longrightarrow> rs_xread k block (\<alpha> s') = (Inr es, \<alpha> s')"
    and sim_xgroup_create: "simulates \<alpha> (r_xgroup_create R k g) (rs_xgroup_create k g)"
    and sim_xreadgroup: "simulates \<alpha> (r_xreadgroup R k g c cnt block) (rs_xreadgroup k g c cnt block)"
    and sim_xack: "simulates \<alpha> (r_xack R k g i) (rs_xack k g i)"
    and sim_xautoclaim: "simulates \<alpha> (r_xautoclaim R k g c idle cnt) (rs_xautoclaim k g c idle cnt)"
begin

lemmas sim_rules = sim_get sim_set sim_getdel sim_scan sim_delete sim_incr sim_pexpire sim_expire sim_pttl
  sim_xadd sim_xrange sim_xgroup_create sim_xreadgroup sim_xack sim_xautoclaim

end

lemma simulates_id: "simulates id m m"
  by (auto simp: simulates_def)

lemma rs_xread_same: "rs_xread k block st = (r, st') \<Longrightarrow> rs_xread k block st' = (r, st')"
  by (auto simp: rs_xread_def rs_xrange_def split: if_splits)

interpretation spec: redis_server spec_redis id
proof unfold_locales
  show "r_xread spec_redis k block s = (Inr es, s') \<Longrightarrow> rs_xread k block (id s') = (Inr es, id s')" for k block s es s'
    by (simp add: rs_xread_same)
qed (simp_all only: spec_redis_simps simulates_id, simp add: rs_eval_def)

section \<open>A server with outages\<close>

text \<open>
  The state carries, beside the keyspace, a schedule with one flag per command to come: a command
  whose flag is set loses its connection before it reaches the server. When the schedule has run
  out, every command gets through.
\<close>

type_synonym fstate = "bool list \<times> rstate"

definition flaky :: "(rstate, 'a) prog \<Rightarrow> (fstate, 'a) prog" where
  "flaky m s = (case s of
     (True # fs, st) \<Rightarrow> (Inl (RedisError ''connection lost''), (fs, st))
   | (fs, st) \<Rightarrow> (case m st of (r, st') \<Rightarrow> (r, (drop 1 fs, st'))))"

definition flaky_eval :: "(fstate, int \<times> int) prog \<Rightarrow> (fstate, int \<times> int) prog" where
  "flaky_eval m s = (case s of
     (True # fs, st) \<Rightarrow> (Inl (RedisError ''connection lost''), (fs, st))
   | (fs, st) \<Rightarrow> (case m ([], st) of (r, (_, st')) \<Rightarrow> (r, (drop 1 fs, st'))))"

definition flaky_redis :: "fstate redis" where
  "flaky_redis = \<lparr>r_get = (\<lambda>k. flaky (rs_get k)), r_set = (\<lambda>k v ex nx. flaky (rs_set k v ex nx)),
     r_getdel = (\<lambda>k. flaky (rs_getdel k)), r_scan = (\<lambda>p. flaky (rs_scan p)), r_delete = (\<lambda>ks. flaky (rs_delete ks)),
     r_incr = (\<lambda>k. flaky (rs_incr k)), r_pexpire = (\<lambda>k ms. flaky (rs_pexpire k ms)),
     r_expire = (\<lambda>k t. flaky (rs_expire k t)), r_pttl = (\<lambda>k. flaky (rs_pttl k)), r_eval = flaky_eval,
     r_xadd = (\<lambda>k fs. flaky (rs_xadd k fs)), r_xrange = (\<lambda>k. flaky (rs_xrange k)),
     r_xread = (\<lambda>k b. flaky (rs_xread k b)), r_xgroup_create = (\<lambda>k g. flaky (rs_xgroup_create k g)),
     r_xreadgroup = (\<lambda>k g c n b. flaky (rs_xreadgroup k g c n b)), r_xack = (\<lambda>k g i. flaky (rs_xack k g i)),
     r_xautoclaim = (\<lambda>k g c t n. flaky (rs_xautoclaim k g c t n))\<rparr>"

lemma simulates_flaky: "simulates snd (flaky m) m"
  by (auto simp: simulates_def flaky_def split: prod.splits list.splits bool.splits)

lemma simulates_flaky_eval:
  assumes "simulates snd m m'"
  shows "simulates snd (flaky_eval m) (rs_eval m')"
  unfolding simulates_def
proof (intro allI impI)
  fix s r and s' :: fstate
  assume run: "flaky_eval m s = (r, s')"
  obtain fs st where s: "s = (fs, st)" by (cases s)
  obtain q fs' st' where q: "m ([], st) = (q, (fs', st'))" by (metis prod.exhaust)
  show "(case r of Inl e \<Rightarrow> connection_error e | Inr _ \<Rightarrow> False) \<or> rs_eval m' (snd s) = (r, snd s')"
  proof (cases "\<exists>fs1. fs = True # fs1")
    case True
    with run show ?thesis by (auto simp: flaky_eval_def s)
  next
    case False
    then have "r = q \<and> snd s' = st'"
      using run q by (auto simp: flaky_eval_def s split: list.splits bool.splits)
    then show ?thesis using assms q by (fastforce simp: simulates_def rs_eval_def s)
  qed
qed

interpretation flaky: redis_server flaky_redis snd
proof unfold_locales
  show "r_xread flaky_redis k block s = (Inr es, s') \<Longrightarrow> rs_xread k block (snd s') = (Inr es, snd s')" for k block s es s'
    by (auto simp: flaky_redis_def flaky_def split: prod.splits list.splits bool.splits dest: rs_xread_same)
qed (simp_all add: flaky_redis_def simulates_flaky simulates_flaky_eval)

end
