(* ===== verification/Stores.thy ===== *)
theory Stores
  imports Redis_Api
begin

text \<open>
  The key-value stores of \<open>app/shared/store.py\<close>. The protocol class \<open>Store\<close> is the record \<open>store\<close>;
  \<open>RedisStore\<close> and \<open>InMemoryStore\<close> are two values of it. The locale \<open>store_contract\<close> is what the rest
  of the gateway may rely on (the token stores, the client registry), with its consequences proved
  once; both classes are shown to satisfy it.
\<close>

section \<open>The protocol\<close>

record 's store =
  st_set :: "string \<Rightarrow> string \<Rightarrow> int option \<Rightarrow> ('s, unit) prog"
  st_get :: "string \<Rightarrow> ('s, string option) prog"
  st_pop :: "string \<Rightarrow> ('s, string option) prog"
  st_clear :: "('s, unit) prog"

text \<open>
  \<open>live s k\<close> is the value a reader would see under \<open>k\<close>. The laws speak of calls that return; \<open>other\<close>
  is the rest of the world, which no call may touch.
\<close>

locale store_contract =
  fixes S :: "'s store" and live :: "'s \<Rightarrow> string \<Rightarrow> string option" and other :: "'s \<Rightarrow> 'o"
  assumes set_live: "st_set S k v ttl s = (Inr u, s') \<Longrightarrow> ttl = None \<or> (\<exists>t. ttl = Some t \<and> 0 < t) \<Longrightarrow>
      live s' = (live s)(k := Some v)"
    and get_live: "st_get S k s = (Inr x, s') \<Longrightarrow> x = live s k \<and> live s' = live s"
    and pop_live: "st_pop S k s = (Inr x, s') \<Longrightarrow> x = live s k \<and> live s' = (live s)(k := None)"
    and clear_live: "st_clear S s = (Inr u, s') \<Longrightarrow> live s' = (\<lambda>_. None)"
    and set_other: "st_set S k v ttl s = (Inr u, s') \<Longrightarrow> other s' = other s"
    and get_other: "st_get S k s = (Inr x, s') \<Longrightarrow> other s' = other s"
    and pop_other: "st_pop S k s = (Inr x, s') \<Longrightarrow> other s' = other s"
    and clear_other: "st_clear S s = (Inr u, s') \<Longrightarrow> other s' = other s"
begin

lemma get_after_set:
  assumes "bindM (st_set S k v ttl) (\<lambda>_. st_get S k') s = (Inr r, s')"
    and "ttl = None \<or> (\<exists>t. ttl = Some t \<and> 0 < t)"
  shows "r = (if k' = k then Some v else live s k')"
  using assms by (elim bindM_InrE) (auto dest!: set_live get_live)

text \<open>A value that has been popped is gone: it can be used once.\<close>

lemma pop_twice:
  assumes "bindM (st_pop S k) (\<lambda>a. bindM (st_pop S k) (\<lambda>b. ret (a, b))) s = (Inr (x, y), s')"
  shows "x = live s k" "y = None"
  using assms by (auto elim!: bindM_InrE dest!: pop_live)

lemma get_after_clear:
  "bindM (st_clear S) (\<lambda>_. st_get S k) s = (Inr r, s') \<Longrightarrow> r = None"
  by (auto elim!: bindM_InrE dest!: clear_live get_live)

end

section \<open>RedisStore\<close>

definition RedisStore_set :: "'s redis \<Rightarrow> string \<Rightarrow> string \<Rightarrow> string \<Rightarrow> int option \<Rightarrow> ('s, unit) prog" where
  "RedisStore_set R pfx key value ttl = (case ttl of
     Some t \<Rightarrow> bindM (r_set R (pfx @ key) value (Some t) False) (\<lambda>_. ret ())
   | None \<Rightarrow> bindM (r_set R (pfx @ key) value None False) (\<lambda>_. ret ()))"

definition RedisStore_get :: "'s redis \<Rightarrow> string \<Rightarrow> string \<Rightarrow> ('s, string option) prog" where
  "RedisStore_get R pfx key = r_get R (pfx @ key)"

definition RedisStore_pop :: "'s redis \<Rightarrow> string \<Rightarrow> string \<Rightarrow> ('s, string option) prog" where
  "RedisStore_pop R pfx key = r_getdel R (pfx @ key)"

definition RedisStore_clear :: "'s redis \<Rightarrow> string \<Rightarrow> ('s, unit) prog" where
  "RedisStore_clear R pfx = bindM (r_scan R (pfx @ ''*''))
     (\<lambda>keys. if keys \<noteq> [] then r_delete R keys else ret ())"

definition RedisStore :: "'s redis \<Rightarrow> string \<Rightarrow> 's store" where
  "RedisStore R pfx = \<lparr>st_set = RedisStore_set R pfx, st_get = RedisStore_get R pfx,
     st_pop = RedisStore_pop R pfx, st_clear = RedisStore_clear R pfx\<rparr>"

text \<open>What a reader sees under a key: the live string value.\<close>

definition live_str :: "rstate \<Rightarrow> string \<Rightarrow> string option" where
  "live_str st k = (case rs_find st k of Some (RStr v, _) \<Rightarrow> Some v | _ \<Rightarrow> None)"

text \<open>The part of the keyspace outside a prefix.\<close>

definition outside :: "string \<Rightarrow> rstate \<Rightarrow> string \<Rightarrow> (rval \<times> int option) option" where
  "outside pfx st k = (if prefix pfx k then None else rs_find st k)"

text \<open>The keys of a store are strings: no stream lives under its prefix.\<close>

definition string_keys :: "string \<Rightarrow> rstate \<Rightarrow> bool" where
  "string_keys pfx st \<longleftrightarrow> (\<forall>k x d. prefix pfx k \<longrightarrow> rs_find st k \<noteq> Some (RStream x, d))"

lemma live_str_put [simp]:
  "live_str (rs_put k (RStr v) d st) k' = (if k' = k then (if alive (rs_now st) d then Some v else None) else live_str st k')"
  by (simp add: live_str_def)

lemma live_str_remove [simp]: "live_str (rs_remove k st) k' = (if k' = k then None else live_str st k')"
  by (simp add: live_str_def)

lemma rs_find_foldr_remove:
  "rs_find (foldr rs_remove ks st) k = (if k \<in> set ks then None else rs_find st k)"
  by (induction ks) auto

lemma alive_future [simp]: "alive now None" "0 < t \<Longrightarrow> alive now (Some (now + t * 1000))"
  by (simp_all add: alive_def)

lemma in_keys_if_found: "rs_find st k = Some x \<Longrightarrow> k \<in> fst ` set (rs_db st)"
  by (force simp: rs_find_def dest: map_of_SomeD split: option.splits)

lemma rs_set_put:
  "rs_set k v ttl False st = (Inr b, st') \<Longrightarrow> \<exists>d. st' = rs_put k (RStr v) d st \<and> alive (rs_now st) d"
  by (auto simp: rs_set_def split: option.splits if_splits intro: alive_future)

lemma rs_getdel_remove:
  "rs_getdel k st = (Inr v, st') \<Longrightarrow> v = live_str st k \<and> rs_find st' = (rs_find st)(k := None)"
  by (auto simp: rs_getdel_def live_str_def fun_eq_iff split: option.splits rval.splits prod.splits)

lemma outside_put [simp]: "outside pfx (rs_put (pfx @ k) x d st) = outside pfx st"
  by (auto simp: outside_def fun_eq_iff)

lemma rs_scan_keys:
  "rs_scan (pfx @ ''*'') st = (Inr ks, st') \<Longrightarrow> st' = st \<and> set ks = {k. prefix pfx k \<and> rs_find st k \<noteq> None}"
  by (auto simp: rs_scan_def dest: in_keys_if_found)

context redis_server
begin

lemma RedisStore_set_runs:
  assumes "RedisStore_set R pfx k v ttl s = (Inr u, s')"
  shows "\<exists>b. rs_set (pfx @ k) v ttl False (\<alpha> s) = (Inr b, \<alpha> s')"
  using assms by (auto simp: RedisStore_set_def split: option.splits elim!: bindM_InrE dest!: simulatesD_Inr [OF sim_set])

lemma RedisStore_clear_runs:
  assumes "RedisStore_clear R pfx s = (Inr u, s')"
  shows "\<exists>ks. set ks = {k. prefix pfx k \<and> rs_find (\<alpha> s) k \<noteq> None} \<and> \<alpha> s' = foldr rs_remove ks (\<alpha> s)"
proof -
  from assms obtain ks s1 where ks: "r_scan R (pfx @ ''*'') s = (Inr ks, s1)"
    and del: "(if ks \<noteq> [] then r_delete R ks else ret ()) s1 = (Inr u, s')"
    by (auto simp: RedisStore_clear_def elim!: bindM_InrE)
  from simulatesD_Inr [OF sim_scan ks] have s1: "\<alpha> s1 = \<alpha> s"
    and "set ks = {k. prefix pfx k \<and> rs_find (\<alpha> s) k \<noteq> None}" by (auto dest!: rs_scan_keys)
  moreover have "\<alpha> s' = foldr rs_remove ks (\<alpha> s1)"
    using del simulatesD_Inr [OF sim_delete, of ks s1 u s'] by (cases "ks = []") (auto simp: rs_delete_def)
  ultimately show ?thesis by auto
qed

end

text \<open>
  A prefix of a healthy server is a store: what it shows is the live strings under the prefix, and it
  touches no key outside it.
\<close>

sublocale redis_server \<subseteq> rstore: store_contract "RedisStore R pfx" "\<lambda>s k. live_str (\<alpha> s) (pfx @ k)"
  "\<lambda>s. outside pfx (\<alpha> s)" for pfx
proof
  fix k v ttl s u s'
  assume run: "st_set (RedisStore R pfx) k v ttl s = (Inr u, s')"
  then obtain d where d: "\<alpha> s' = rs_put (pfx @ k) (RStr v) d (\<alpha> s)" "alive (rs_now (\<alpha> s)) d"
    using RedisStore_set_runs by (fastforce simp: RedisStore_def dest!: rs_set_put)
  then show "outside pfx (\<alpha> s') = outside pfx (\<alpha> s)" by simp
  from d show "(\<lambda>k. live_str (\<alpha> s') (pfx @ k)) = (\<lambda>k. live_str (\<alpha> s) (pfx @ k))(k := Some v)"
    by (auto simp: fun_eq_iff)
next
  fix k s v s'
  assume "st_get (RedisStore R pfx) k s = (Inr v, s')"
  then have "rs_get (pfx @ k) (\<alpha> s) = (Inr v, \<alpha> s')"
    by (auto simp: RedisStore_def RedisStore_get_def dest: simulatesD_Inr [OF sim_get])
  then show "v = live_str (\<alpha> s) (pfx @ k) \<and> (\<lambda>k. live_str (\<alpha> s') (pfx @ k)) = (\<lambda>k. live_str (\<alpha> s) (pfx @ k))"
    and "outside pfx (\<alpha> s') = outside pfx (\<alpha> s)"
    by (auto simp: rs_get_def live_str_def split: option.splits rval.splits prod.splits)
next
  fix k s v s'
  assume "st_pop (RedisStore R pfx) k s = (Inr v, s')"
  then have "rs_getdel (pfx @ k) (\<alpha> s) = (Inr v, \<alpha> s')"
    by (auto simp: RedisStore_def RedisStore_pop_def dest: simulatesD_Inr [OF sim_getdel])
  then have v: "v = live_str (\<alpha> s) (pfx @ k)" and rest: "rs_find (\<alpha> s') = (rs_find (\<alpha> s))(pfx @ k := None)"
    by (auto dest!: rs_getdel_remove)
  from v rest show "v = live_str (\<alpha> s) (pfx @ k) \<and>
      (\<lambda>k. live_str (\<alpha> s') (pfx @ k)) = (\<lambda>k. live_str (\<alpha> s) (pfx @ k))(k := None)"
    by (auto simp: live_str_def fun_eq_iff)
  from rest show "outside pfx (\<alpha> s') = outside pfx (\<alpha> s)"
    by (auto simp: outside_def fun_eq_iff)
next
  fix s u s'
  assume "st_clear (RedisStore R pfx) s = (Inr u, s')"
  then obtain ks where ks: "set ks = {k. prefix pfx k \<and> rs_find (\<alpha> s) k \<noteq> None}" "\<alpha> s' = foldr rs_remove ks (\<alpha> s)"
    using RedisStore_clear_runs by (fastforce simp: RedisStore_def)
  then show "(\<lambda>k. live_str (\<alpha> s') (pfx @ k)) = (\<lambda>_. None)"
    by (auto simp: live_str_def rs_find_foldr_remove fun_eq_iff split: option.splits)
  from ks show "outside pfx (\<alpha> s') = outside pfx (\<alpha> s)"
    by (auto simp: outside_def rs_find_foldr_remove fun_eq_iff)
qed

context redis_server
begin

lemmas RedisStore_other = rstore.set_other rstore.get_other rstore.pop_other rstore.clear_other
lemmas RedisStore_get_after_set = rstore.get_after_set
lemmas RedisStore_pop_twice = rstore.pop_twice
lemmas RedisStore_get_after_clear = rstore.get_after_clear

end

section \<open>InMemoryStore\<close>

text \<open>
  The dictionary of values with their expiry times, and the clock that \<open>time.time()\<close> reads.
\<close>

record mem =
  m_now :: dec
  m_data :: "(string, string \<times> dec option) dict"

definition InMemoryStore_set :: "string \<Rightarrow> string \<Rightarrow> int option \<Rightarrow> (mem, unit) prog" where
  "InMemoryStore_set key value ttl s =
     (let expires_at = (case ttl of Some t \<Rightarrow> Some (dec_add (m_now s) (dec_of_int t)) | None \<Rightarrow> None)
      in (Inr (), s\<lparr>m_data := dict_set key (value, expires_at) (m_data s)\<rparr>))"

definition expired :: "mem \<Rightarrow> dec option \<Rightarrow> bool" where
  "expired s e \<longleftrightarrow> (case e of None \<Rightarrow> False | Some t \<Rightarrow> dec_less t (m_now s))"

definition InMemoryStore_get :: "string \<Rightarrow> (mem, string option) prog" where
  "InMemoryStore_get key s = (case dict_get (m_data s) key of
     None \<Rightarrow> (Inr None, s)
   | Some (value, expires_at) \<Rightarrow>
       if expired s expires_at then (Inr None, s\<lparr>m_data := AList.delete key (m_data s)\<rparr>)
       else (Inr (Some value), s))"

definition InMemoryStore_pop :: "string \<Rightarrow> (mem, string option) prog" where
  "InMemoryStore_pop key s = (case dict_get (m_data s) key of
     None \<Rightarrow> (Inr None, s)
   | Some (value, expires_at) \<Rightarrow>
       (Inr (if expired s expires_at then None else Some value), s\<lparr>m_data := AList.delete key (m_data s)\<rparr>))"

definition InMemoryStore_clear :: "(mem, unit) prog" where
  "InMemoryStore_clear s = (Inr (), s\<lparr>m_data := []\<rparr>)"

definition InMemoryStore :: "mem store" where
  "InMemoryStore = \<lparr>st_set = InMemoryStore_set, st_get = InMemoryStore_get, st_pop = InMemoryStore_pop,
     st_clear = InMemoryStore_clear\<rparr>"

definition mem_live :: "mem \<Rightarrow> string \<Rightarrow> string option" where
  "mem_live s k = (case dict_get (m_data s) k of None \<Rightarrow> None
     | Some (v, e) \<Rightarrow> if expired s e then None else Some v)"

lemma expired_simps [simp]:
  "expired (s\<lparr>m_data := d\<rparr>) e = expired s e" "\<not> expired s None"
  "expired s (Some t) \<longleftrightarrow> dec_val t < dec_val (m_now s)"
  by (simp_all add: expired_def dec_less_val split: option.split)

lemma mem_live_put [simp]:
  "mem_live (s\<lparr>m_data := dict_set k (v, e) (m_data s)\<rparr>) k' =
    (if k' = k then (if expired s e then None else Some v) else mem_live s k')"
  by (auto simp: mem_live_def split: option.split)

lemma mem_live_delete [simp]:
  "mem_live (s\<lparr>m_data := AList.delete k (m_data s)\<rparr>) k' = (if k' = k then None else mem_live s k')"
  by (auto simp: mem_live_def delete_conv' split: option.split)

lemma InMemoryStore_get_live:
  "InMemoryStore_get k s = (Inr x, s') \<Longrightarrow> x = mem_live s k \<and> mem_live s' = mem_live s \<and> m_now s' = m_now s"
  by (auto simp: InMemoryStore_get_def fun_eq_iff split: option.splits if_splits)
    (auto simp: mem_live_def)

lemma InMemoryStore_pop_live:
  "InMemoryStore_pop k s = (Inr x, s') \<Longrightarrow>
    x = mem_live s k \<and> mem_live s' = (mem_live s)(k := None) \<and> m_now s' = m_now s"
  by (auto simp: InMemoryStore_pop_def fun_eq_iff split: option.splits) (auto simp: mem_live_def)

interpretation mstore: store_contract InMemoryStore mem_live m_now
proof
  fix k v ttl s u s'
  assume run: "st_set InMemoryStore k v ttl s = (Inr u, s')"
  then show "m_now s' = m_now s" by (auto simp: InMemoryStore_def InMemoryStore_set_def Let_def)
  assume "ttl = None \<or> (\<exists>t. ttl = Some t \<and> 0 < t)"
  with run show "mem_live s' = (mem_live s)(k := Some v)"
    by (auto simp: InMemoryStore_def InMemoryStore_set_def Let_def fun_eq_iff)
qed (auto simp: InMemoryStore_def InMemoryStore_clear_def mem_live_def fun_eq_iff
  dest: InMemoryStore_get_live InMemoryStore_pop_live)

section \<open>The stores of the running gateway\<close>

text \<open>The four stores that \<open>app/main.py\<close> opens on one Redis connection.\<close>

definition oauth_state_store :: "'s redis \<Rightarrow> 's store" where
  "oauth_state_store R = RedisStore R ''state:''"

definition client_registry :: "'s redis \<Rightarrow> 's store" where
  "client_registry R = RedisStore R ''client:''"

definition google_token_store :: "'s redis \<Rightarrow> 's store" where
  "google_token_store R = RedisStore R ''token:''"

definition slack_token_store :: "'s redis \<Rightarrow> 's store" where
  "slack_token_store R = RedisStore R ''slack:token:''"

definition store_prefixes :: "string list" where
  "store_prefixes = [''state:'', ''client:'', ''token:'', ''slack:token:'']"

lemma store_prefixes_apart:
  assumes "p \<in> set store_prefixes" "q \<in> set store_prefixes" "p \<noteq> q"
  shows "\<not> prefix p (q @ k)"
proof
  assume "prefix p (q @ k)"
  then have "prefix p q \<or> prefix q p" by (metis append_prefixD prefix_same_cases prefix_order.refl)
  with assms show False by (auto simp: store_prefixes_def)
qed

lemma outside_live:
  "outside p st' = outside p st \<Longrightarrow> \<not> prefix p k \<Longrightarrow> live_str st' k = live_str st k"
  by (simp add: outside_def live_str_def fun_eq_iff) metis

text \<open>
  C26: the stores do not see each other. Whatever one of the gateway's four stores does (write, read,
  pop or clear), a reader of another one sees the same values before and after.
\<close>

theorem redis_stores_isolated:
  assumes "redis_server R \<alpha>"
    and "p \<in> set store_prefixes" "q \<in> set store_prefixes" "p \<noteq> q"
    and "st_set (RedisStore R p) k v ttl s = (Inr u, s') \<or> st_get (RedisStore R p) k s = (Inr x, s')
      \<or> st_pop (RedisStore R p) k s = (Inr x, s') \<or> st_clear (RedisStore R p) s = (Inr u, s')"
  shows "live_str (\<alpha> s') (q @ k') = live_str (\<alpha> s) (q @ k')"
proof -
  from assms(5) have "outside p (\<alpha> s') = outside p (\<alpha> s)"
    by (elim disjE) (erule redis_server.RedisStore_other [OF assms(1)])+
  then show ?thesis using store_prefixes_apart [OF assms(2-4)] by (rule outside_live)
qed

abbreviation sample_db :: rstate where
  "sample_db \<equiv> \<lparr>rs_now = 0, rs_db = [(''token:google:shared'', (RStr ''t'', None)), (''slack:token:shared'', (RStr ''u'', None))]\<rparr>"

theorem redis_stores_isolated_witness:
  "st_clear (google_token_store spec_redis) sample_db = (Inr (), rs_remove ''token:google:shared'' sample_db)
    \<and> live_str (rs_remove ''token:google:shared'' sample_db) (''slack:token:'' @ ''shared'') = live_str sample_db (''slack:token:'' @ ''shared'')"
proof
  show run: "st_clear (google_token_store spec_redis) sample_db = (Inr (), rs_remove ''token:google:shared'' sample_db)"
    by (simp add: google_token_store_def RedisStore_def RedisStore_clear_def bindM_def rs_scan_def rs_delete_def rs_find_def alive_def)
  show "live_str (rs_remove ''token:google:shared'' sample_db) (''slack:token:'' @ ''shared'') = live_str sample_db (''slack:token:'' @ ''shared'')"
    using redis_stores_isolated [OF spec.redis_server_axioms, of "''token:''" "''slack:token:''" "[]" "[]" None sample_db "()"
        "rs_remove ''token:google:shared'' sample_db" None "''shared''"] run
    by (simp add: google_token_store_def store_prefixes_def)
qed

text \<open>
  A Redis-backed store reads back what was written and hands a popped value out once: a second pop
  of the same key gives nothing, and a cleared store is empty.
\<close>

theorem redis_store_reads_back:
  assumes "redis_server R \<alpha>" and "ttl = None \<or> (\<exists>t. ttl = Some t \<and> 0 < t)"
  shows "(bindM (st_set (RedisStore R p) k v ttl) (\<lambda>_. st_get (RedisStore R p) k') s = (Inr r, s') \<longrightarrow>
      r = (if k' = k then Some v else live_str (\<alpha> s) (p @ k')))
    \<and> (bindM (st_pop (RedisStore R p) k) (\<lambda>a. bindM (st_pop (RedisStore R p) k) (\<lambda>b. ret (a, b))) s = (Inr (x, y), s') \<longrightarrow>
      x = live_str (\<alpha> s) (p @ k) \<and> y = None)
    \<and> (bindM (st_clear (RedisStore R p)) (\<lambda>_. st_get (RedisStore R p) k) s = (Inr r, s') \<longrightarrow> r = None)"
  by (intro conjI impI) (erule redis_server.RedisStore_get_after_set [OF assms(1) _ assms(2)]
      redis_server.RedisStore_pop_twice [OF assms(1)] redis_server.RedisStore_get_after_clear [OF assms(1)])+

theorem redis_store_reads_back_witness:
  "\<exists>s'. bindM (st_set (oauth_state_store spec_redis) ''abc'' ''v'' (Some 600)) (\<lambda>_. st_get (oauth_state_store spec_redis) ''abc'') sample_db
      = (Inr (Some ''v''), s')"
proof -
  obtain r s' where run: "bindM (st_set (RedisStore spec_redis ''state:'') ''abc'' ''v'' (Some 600))
      (\<lambda>_. st_get (RedisStore spec_redis ''state:'') ''abc'') sample_db = (Inr r, s')"
    by (simp add: RedisStore_def RedisStore_set_def RedisStore_get_def bindM_def rs_set_def rs_get_def alive_def)
  with redis_store_reads_back [OF spec.redis_server_axioms, of "Some 600" "''state:''" "''abc''" "''v''" "''abc''" sample_db r s']
  show ?thesis by (auto simp: oauth_state_store_def)
qed

text \<open>
  The time to live of the in-memory store. A value written with \<open>ttl\<close> seconds is read back by a
  reader whose clock has not passed the writer's clock plus \<open>ttl\<close>, and by no later reader, who also
  removes it.
\<close>

theorem in_memory_store_ttl:
  "\<exists>s1 s3. InMemoryStore_set k v (Some ttl) s = (Inr (), s1)
    \<and> InMemoryStore_get k (s1\<lparr>m_now := t\<rparr>) =
        (Inr (if dec_val t \<le> dec_val (m_now s) + of_int ttl then Some v else None), s3)
    \<and> (dec_val (m_now s) + of_int ttl < dec_val t \<longrightarrow> dict_get (m_data s3) k = None)
    \<and> (\<forall>k'. k' \<noteq> k \<longrightarrow> dict_get (m_data s3) k' = dict_get (m_data s) k')"
  by (auto simp: InMemoryStore_set_def InMemoryStore_get_def Let_def delete_conv')

theorem in_memory_store_ttl_witness:
  "\<exists>s1 s3. InMemoryStore_set ''k'' ''v'' (Some 5) \<lparr>m_now = Dec 10 0, m_data = []\<rparr> = (Inr (), s1)
    \<and> InMemoryStore_get ''k'' (s1\<lparr>m_now := Dec 16 0\<rparr>) = (Inr None, s3) \<and> dict_get (m_data s3) ''k'' = None"
  using in_memory_store_ttl [of "''k''" "''v''" 5 "\<lparr>m_now = Dec 10 0, m_data = []\<rparr>" "Dec 16 0"] by auto

end
