(* ===== verification/Web_Types.thy ===== *)
theory Web_Types
  imports Py_Json
begin

text \<open>
  Requests and responses as the middlewares and route handlers see them. Header names are kept in
  lower case, as the ASGI server delivers them; a header lookup lowers the name it is given. The two
  context variables of \<open>app/shared/context.py\<close> travel with the request, together with
  \<open>request.state.user\<close>: all three are set by the access guard and read by the code it calls.
\<close>

type_synonym headers = "(string, string) dict"
type_synonym claims = "(string, json) dict"

record user =
  u_id :: string
  u_scopes :: "string list"
  u_token :: claims

text \<open>\<open>current_user_id\<close> has no default, \<open>current_user_scopes\<close> defaults to the empty set.\<close>

record ctx =
  current_user_id :: "string option"
  current_user_scopes :: "string set"

definition empty_context :: ctx where
  "empty_context = \<lparr>current_user_id = None, current_user_scopes = {}\<rparr>"

record request =
  rq_method :: string
  rq_path :: string
  rq_query :: "(string, string) dict"
  rq_headers :: headers
  rq_body :: string
  rq_user :: "user option"
  rq_ctx :: ctx

record response =
  rp_status :: int
  rp_headers :: headers
  rp_body :: json

definition header_get :: "request \<Rightarrow> string \<Rightarrow> string option" where
  "header_get rq name = dict_get (rq_headers rq) (str_lower name)"

definition JSONResponse :: "int \<Rightarrow> json \<Rightarrow> headers \<Rightarrow> response" where
  "JSONResponse status content hdrs = \<lparr>rp_status = status, rp_headers = hdrs, rp_body = content\<rparr>"

lemma JSONResponse_simps [simp]:
  "rp_status (JSONResponse st c h) = st" "rp_headers (JSONResponse st c h) = h" "rp_body (JSONResponse st c h) = c"
  by (simp_all add: JSONResponse_def)

text \<open>What a middleware calls to hand the request on, and a middleware.\<close>

type_synonym 's app = "request \<Rightarrow> ('s, response) prog"
type_synonym 's middleware = "'s app \<Rightarrow> 's app"

text \<open>\<open>response.headers[name] = value\<close>.\<close>

definition set_header :: "string \<Rightarrow> string \<Rightarrow> response \<Rightarrow> response" where
  "set_header name value rp = rp\<lparr>rp_headers := dict_set (str_lower name) value (rp_headers rp)\<rparr>"

section \<open>Truth values of JSON values, as Python's \<open>if x\<close> reads them\<close>

fun truthy :: "json \<Rightarrow> bool" where
  "truthy JNull = False"
| "truthy (JBool b) = b"
| "truthy (JInt i) = (i \<noteq> 0)"
| "truthy (JFloat x) = (case x of Fin (Dec m n) \<Rightarrow> m \<noteq> 0 | _ \<Rightarrow> True)"
| "truthy (JStr s) = (s \<noteq> [])"
| "truthy (JArr xs) = (xs \<noteq> [])"
| "truthy (JObj kvs) = (kvs \<noteq> [])"

definition truthy_opt :: "string option \<Rightarrow> bool" where
  "truthy_opt x \<longleftrightarrow> (case x of None \<Rightarrow> False | Some s \<Rightarrow> s \<noteq> [])"

lemma truthy_opt_simps [simp]: "\<not> truthy_opt None" "truthy_opt (Some s) \<longleftrightarrow> s \<noteq> []"
  by (simp_all add: truthy_opt_def)

text \<open>\<open>x.get(k)\<close> and \<open>x[k]\<close> on a parsed document: only an object has them.\<close>

definition j_get :: "json \<Rightarrow> string \<Rightarrow> json option res" where
  "j_get j k = (case j of JObj kvs \<Rightarrow> Inr (dict_get kvs k) | _ \<Rightarrow> Inl AttributeError)"

definition j_get_default :: "json \<Rightarrow> string \<Rightarrow> json \<Rightarrow> json res" where
  "j_get_default j k x = (case j of JObj kvs \<Rightarrow> Inr (dict_get_default kvs k x) | _ \<Rightarrow> Inl AttributeError)"

definition j_item :: "json \<Rightarrow> string \<Rightarrow> json res" where
  "j_item j k = (case j of JObj kvs \<Rightarrow> dict_item kvs k | _ \<Rightarrow> Inl TypeError)"

lemma j_get_JObj [simp]: "j_get (JObj kvs) k = Inr (dict_get kvs k)"
  by (simp add: j_get_def)

lemma j_get_default_JObj [simp]: "j_get_default (JObj kvs) k x = Inr (dict_get_default kvs k x)"
  by (simp add: j_get_default_def)

lemma j_item_JObj [simp]: "j_item (JObj kvs) k = dict_item kvs k"
  by (simp add: j_item_def)

text \<open>\<open>for x in j\<close>: a list gives its elements, an object its keys, a string its characters.\<close>

fun iterate :: "json \<Rightarrow> json list res" where
  "iterate (JArr xs) = Inr xs"
| "iterate (JObj kvs) = Inr (map (\<lambda>kv. JStr (fst kv)) kvs)"
| "iterate (JStr s) = Inr (map (\<lambda>c. JStr [c]) s)"
| "iterate _ = Inl TypeError"

section \<open>Sample requests for the witnesses\<close>

definition sample_user :: "string \<Rightarrow> string list \<Rightarrow> user" where
  "sample_user uid scopes = \<lparr>u_id = uid, u_scopes = scopes, u_token = []\<rparr>"

definition sample_request :: "string \<Rightarrow> headers \<Rightarrow> user option \<Rightarrow> request" where
  "sample_request path hdrs usr = \<lparr>rq_method = ''POST'', rq_path = path, rq_query = [], rq_headers = hdrs, rq_body = [],
     rq_user = usr, rq_ctx = empty_context\<rparr>"

lemma sample_user_simps [simp]:
  "u_id (sample_user uid scopes) = uid" "u_scopes (sample_user uid scopes) = scopes"
  by (simp_all add: sample_user_def)

lemma sample_request_simps [simp]:
  "rq_path (sample_request p h u) = p" "rq_headers (sample_request p h u) = h" "rq_user (sample_request p h u) = u"
  by (simp_all add: sample_request_def)

end
