(* ===== verification/Rate_Limiter.thy ===== *)
theory Rate_Limiter
  imports Stores Web_Types
begin

text \<open>
  The fixed-window rate limiter of \<open>app/middleware/rate_limiter.py\<close>: the Lua script, the function that
  runs it and the middleware. The script is a program over the commands of the Redis client; the
  lemmas first say what one call does to the counter of a user, then what a sequence of calls with
  time passing in between does.
\<close>

section \<open>The script and its caller\<close>

record rate_limit_result =
  allowed :: bool
  retry_after_seconds :: int

definition rate_limit_lua :: "'s redis \<Rightarrow> string \<Rightarrow> int \<Rightarrow> int \<Rightarrow> ('s, int \<times> int) prog" where
  "rate_limit_lua R key limit window =
     bindM (r_incr R key) (\<lambda>n.
     bindM (if n = 1 then bindM (r_pexpire R key (window * 1000)) (\<lambda>_. ret ()) else ret ()) (\<lambda>_.
     bindM (r_pttl R key) (\<lambda>ttl.
       if n > limit then ret (0, ttl) else ret (1, ttl))))"

text \<open>\<open>math.ceil(ttl_ms / 1000)\<close>.\<close>

definition ceil_seconds :: "int \<Rightarrow> int" where
  "ceil_seconds ms = - ((- ms) div 1000)"

definition check_rate_limit :: "'s redis \<Rightarrow> string \<Rightarrow> int \<Rightarrow> int \<Rightarrow> ('s, rate_limit_result) prog" where
  "check_rate_limit R key limit window =
     bindM (r_eval R (rate_limit_lua R key limit window)) (\<lambda>(ok, ttl_ms).
       ret \<lparr>allowed = (ok \<noteq> 0),
            retry_after_seconds = (if ttl_ms \<noteq> 0 \<and> ttl_ms > 0 then ceil_seconds ttl_ms else 0)\<rparr>)"

section \<open>The middleware\<close>

record rl_settings =
  RATE_LIMIT_ENABLED :: bool
  RATE_LIMIT_MAX_REQUESTS :: int
  RATE_LIMIT_WINDOW_SECONDS :: int

definition rate_limit_key :: "user \<Rightarrow> string" where
  "rate_limit_key u = ''ratelimit:'' @ u_id u"

definition RateLimiterMiddleware :: "'s redis \<Rightarrow> rl_settings \<Rightarrow> 's middleware" where
  "RateLimiterMiddleware R cfg call_next request =
     (if \<not> RATE_LIMIT_ENABLED cfg then call_next request
      else if \<not> startswith (rq_path request) ''/mcp'' then call_next request
      else case rq_user request of None \<Rightarrow> call_next request
      | Some user \<Rightarrow>
          bindM (tryM (bindM (check_rate_limit R (rate_limit_key user) (RATE_LIMIT_MAX_REQUESTS cfg) (RATE_LIMIT_WINDOW_SECONDS cfg))
                         (\<lambda>result. ret (Some result)))
                  (\<lambda>e. if is_exception e then ret None else raise e))
            (\<lambda>outcome. case outcome of
               None \<Rightarrow> call_next request
             | Some result \<Rightarrow>
                 if \<not> allowed result then
                   ret (JSONResponse 429 (JObj [(''detail'', JStr ''Rate limit exceeded'')])
                          [(''retry-after'', int_str (retry_after_seconds result))])
                 else call_next request))"

section \<open>One call\<close>

text \<open>The counter of a key: its number of calls so far and the end of its window.\<close>

definition counter :: "rstate \<Rightarrow> string \<Rightarrow> (int \<times> int) option" where
  "counter st key = (case rs_find st key of Some (RStr v, Some d) \<Rightarrow>
     (case py_int v of Some n \<Rightarrow> Some (n, d) | None \<Rightarrow> None) | _ \<Rightarrow> None)"

lemma counter_found:
  "counter st key = Some (n, d) \<Longrightarrow> \<exists>v. rs_find st key = Some (RStr v, Some d) \<and> py_int v = Some n"
  by (auto simp: counter_def split: option.splits rval.splits prod.splits)

text \<open>In an open window the call counts one up and keeps the window.\<close>

lemma lua_open_window:
  assumes c: "counter st key = Some (n, d)" and n: "0 < n"
  shows "rate_limit_lua spec_redis key limit window st =
    (Inr (if n + 1 > limit then 0 else 1, d - rs_now st), rs_put key (RStr (int_str (n + 1))) (Some d) st)"
proof -
  from counter_found [OF c] obtain v where v: "rs_find st key = Some (RStr v, Some d)" "py_int v = Some n"
    by blast
  then have "alive (rs_now st) (Some d)" by (auto simp: rs_find_def split: option.splits if_splits)
  with v n show ?thesis
    by (simp add: rate_limit_lua_def bindM_def rs_incr_def rs_pttl_def)
qed

text \<open>Without a live counter the call opens a window of the configured length.\<close>

lemma lua_new_window:
  assumes "rs_find st key = None" and "0 < window"
  shows "\<exists>st'. rate_limit_lua spec_redis key limit window st = (Inr (if 1 > limit then 0 else 1, window * 1000), st')
    \<and> counter st' key = Some (1, rs_now st + window * 1000) \<and> rs_now st' = rs_now st
    \<and> (\<forall>k. k \<noteq> key \<longrightarrow> rs_find st' k = rs_find st k)"
  using assms
  by (simp add: rate_limit_lua_def bindM_def rs_incr_def rs_pexpire_def rs_pttl_def counter_def alive_def)

lemma ceil_seconds_bounds: "(ceil_seconds ms - 1) * 1000 < ms" "ms \<le> ceil_seconds ms * 1000"
  by (simp_all add: ceil_seconds_def)

lemma check_spec:
  "check_rate_limit spec_redis key limit window st = (case rate_limit_lua spec_redis key limit window st of
     (Inl e, st') \<Rightarrow> (Inl e, st')
   | (Inr (ok, ttl), st') \<Rightarrow> (Inr \<lparr>allowed = (ok \<noteq> 0), retry_after_seconds = (if ttl > 0 then ceil_seconds ttl else 0)\<rparr>, st'))"
  by (auto simp: check_rate_limit_def rs_eval_def bindM_def split: prod.splits sum.splits)

lemma check_open_window:
  assumes "counter st key = Some (n, d)" and "0 < n"
  shows "\<exists>st'. check_rate_limit spec_redis key limit window st =
      (Inr \<lparr>allowed = (n < limit), retry_after_seconds = (if rs_now st < d then ceil_seconds (d - rs_now st) else 0)\<rparr>, st')
    \<and> counter st' key = Some (n + 1, d) \<and> rs_now st' = rs_now st
    \<and> (\<forall>k. k \<noteq> key \<longrightarrow> rs_find st' k = rs_find st k)"
proof -
  from counter_found [OF assms(1)] have al: "alive (rs_now st) (Some d)"
    by (auto simp: rs_find_def split: option.splits if_splits)
  show ?thesis
    by (simp add: check_spec lua_open_window [OF assms]) (simp add: counter_def al)
qed

lemma check_new_window:
  assumes "rs_find st key = None" and "0 < window"
  shows "\<exists>st'. check_rate_limit spec_redis key limit window st =
      (Inr \<lparr>allowed = (0 < limit), retry_after_seconds = ceil_seconds (window * 1000)\<rparr>, st')
    \<and> counter st' key = Some (1, rs_now st + window * 1000) \<and> rs_now st' = rs_now st
    \<and> (\<forall>k. k \<noteq> key \<longrightarrow> rs_find st' k = rs_find st k)"
  using lua_new_window [OF assms, of limit] assms(2) by (auto simp: check_spec)

text \<open>Every server that keeps its promises answers as the documented commands do.\<close>

context redis_server
begin

lemma sim_rate_limit_lua:
  "simulates \<alpha> (rate_limit_lua R key limit window) (rate_limit_lua spec_redis key limit window)"
  unfolding rate_limit_lua_def spec_redis_simps
  by (intro simulates_bindM sim_incr sim_pttl) (auto intro!: simulates_bindM sim_pexpire)

lemma sim_check_rate_limit:
  "simulates \<alpha> (check_rate_limit R key limit window) (check_rate_limit spec_redis key limit window)"
  unfolding check_rate_limit_def spec_redis_simps
  by (intro simulates_bindM sim_eval sim_rate_limit_lua) (auto split: prod.split)

end

section \<open>A sequence of calls\<close>

text \<open>Calls of one key, each after a wait of the given number of milliseconds.\<close>

primrec timed_checks :: "string \<Rightarrow> int \<Rightarrow> int \<Rightarrow> int list \<Rightarrow> (rstate, rate_limit_result list) prog" where
  "timed_checks key limit window [] = ret []"
| "timed_checks key limit window (d # ds) = (\<lambda>st.
     bindM (check_rate_limit spec_redis key limit window)
       (\<lambda>r. bindM (timed_checks key limit window ds) (\<lambda>rs. ret (r # rs))) (rs_tick d st))"

lemma counter_tick: "counter st key = Some (n, e) \<Longrightarrow> rs_now st + d \<le> e \<Longrightarrow> counter (rs_tick d st) key = Some (n, e)"
  by (auto simp: counter_def rs_find_def rs_tick_def alive_def split: option.splits rval.splits if_splits)

lemma rs_find_dead_tick: "rs_find st key = None \<Longrightarrow> 0 \<le> d \<Longrightarrow> rs_find (rs_tick d st) key = None"
  by (auto simp: rs_find_def rs_tick_def alive_def split: option.splits if_splits)

lemma counter_dead_tick: "counter st key = Some (n, e) \<Longrightarrow> e < rs_now st + d \<Longrightarrow> rs_find (rs_tick d st) key = None"
  by (auto simp: counter_def rs_find_def rs_tick_def alive_def split: option.splits rval.splits if_splits)

lemma timed_checks_open:
  assumes "counter st key = Some (n, e)" "0 < n" "list_all (\<lambda>d. 0 \<le> d) ds" "rs_now st + sum_list ds \<le> e"
  shows "\<exists>rs st'. timed_checks key limit window ds st = (Inr rs, st')
    \<and> map allowed rs = map (\<lambda>i. n + int i < limit) [0..<length ds]
    \<and> counter st' key = Some (n + int (length ds), e) \<and> rs_now st' = rs_now st + sum_list ds"
  using assms
proof (induction ds arbitrary: st n)
  case (Cons d ds)
  from Cons.prems have sum: "0 \<le> sum_list ds" by (auto intro!: sum_list_nonneg simp: list_all_iff)
  have c: "counter (rs_tick d st) key = Some (n, e)" using Cons.prems sum by (intro counter_tick) auto
  obtain st1 r where r: "check_rate_limit spec_redis key limit window (rs_tick d st) = (Inr r, st1)"
    "allowed r = (n < limit)" "counter st1 key = Some (n + 1, e)" "rs_now st1 = rs_now st + d"
    using check_open_window [OF c Cons.prems(2), of limit window] by auto
  from Cons.prems r have "rs_now st1 + sum_list ds \<le> e" "list_all (\<lambda>d. 0 \<le> d) ds" "0 < n + 1" by simp_all
  from Cons.IH [OF r(3) this(3) this(2) this(1)] obtain rs st' where rs:
    "timed_checks key limit window ds st1 = (Inr rs, st')" "map allowed rs = map (\<lambda>i. n + 1 + int i < limit) [0..<length ds]"
    "counter st' key = Some (n + 1 + int (length ds), e)" "rs_now st' = rs_now st1 + sum_list ds" by blast
  have "map (\<lambda>i. n + int i < limit) [0..<length (d # ds)] = (n < limit) # map (\<lambda>i. n + 1 + int i < limit) [0..<length ds]"
    by (simp add: upt_conv_Cons map_Suc_upt [symmetric] add.assoc del: upt_Suc)
  then show ?case using r rs by (simp add: bindM_def algebra_simps)
qed simp

section \<open>Properties\<close>

text \<open>
  C19: a fixed window. Take a key without a live counter, a first call and then any calls spread over
  at most the window length. Exactly the first \<open>limit\<close> of them are allowed and all the others are
  refused, and once the window is over the counter is gone, so that the next call opens a new one.
\<close>

theorem rate_limit_fixed_window:
  assumes "rs_find st key = None" "0 < window" "0 \<le> d0" "list_all (\<lambda>d. 0 \<le> d) ds" "sum_list ds \<le> window * 1000"
  shows "\<exists>rs st'. timed_checks key limit window (d0 # ds) st = (Inr rs, st')
    \<and> map allowed rs = map (\<lambda>i. int i < limit) [0..<Suc (length ds)]
    \<and> (\<forall>w. rs_now st + d0 + window * 1000 < rs_now st' + w \<longrightarrow> rs_find (rs_tick w st') key = None)"
proof -
  let ?e = "rs_now st + d0 + window * 1000"
  obtain r st1 where r: "check_rate_limit spec_redis key limit window (rs_tick d0 st) = (Inr r, st1)"
    "allowed r = (0 < limit)" "counter st1 key = Some (1, ?e)" "rs_now st1 = rs_now st + d0"
    using check_new_window [OF rs_find_dead_tick [OF assms(1,3)] assms(2), of limit] by auto
  from r(4) assms(5) have "rs_now st1 + sum_list ds \<le> ?e" by simp
  from timed_checks_open [OF r(3) zero_less_one assms(4) this, of limit window] obtain rs st' where rs:
    "timed_checks key limit window ds st1 = (Inr rs, st')" "map allowed rs = map (\<lambda>i. 1 + int i < limit) [0..<length ds]"
    "counter st' key = Some (1 + int (length ds), ?e)" by blast
  have "map (\<lambda>i. int i < limit) [0..<Suc (length ds)] = (0 < limit) # map (\<lambda>i. 1 + int i < limit) [0..<length ds]"
    by (simp add: upt_conv_Cons map_Suc_upt [symmetric] del: upt_Suc)
  then show ?thesis using r rs by (auto simp: bindM_def intro: counter_dead_tick)
qed

theorem rate_limit_fixed_window_witness:
  "\<exists>rs st'. timed_checks ''ratelimit:u1'' 2 60 [0, 1000, 2000, 57000] \<lparr>rs_now = 5, rs_db = []\<rparr> = (Inr rs, st')
    \<and> map allowed rs = [True, True, False, False]
    \<and> (\<forall>w. 60005 < rs_now st' + w \<longrightarrow> rs_find (rs_tick w st') ''ratelimit:u1'' = None)"
  using rate_limit_fixed_window [of "\<lparr>rs_now = 5, rs_db = []\<rparr>" "''ratelimit:u1''" 60 0 "[1000, 2000, 57000]" 2]
  by (simp add: rs_find_def upt_rec)

text \<open>
  The middleware on an open window, for every Redis server that keeps its documented promises. As
  long as the user has calls left the request goes on to the application; after that the answer is
  429 with the seconds to the end of the window in \<open>Retry-After\<close>, and the application is not called.
  Either way the call is counted, the window keeps its end, and no other key of the server changes.
\<close>

theorem rate_limiter_open_window:
  assumes server: "redis_server R \<alpha>"
    and on: "RATE_LIMIT_ENABLED cfg" "startswith (rq_path rq) ''/mcp''" "rq_user rq = Some u"
    and window: "counter (\<alpha> s) (rate_limit_key u) = Some (n, d)" "0 < n"
    and answer: "check_rate_limit R (rate_limit_key u) (RATE_LIMIT_MAX_REQUESTS cfg) (RATE_LIMIT_WINDOW_SECONDS cfg) s = (Inr res, s1)"
  shows "RateLimiterMiddleware R cfg call_next rq s =
      (if n < RATE_LIMIT_MAX_REQUESTS cfg then call_next rq s1
       else (Inr (JSONResponse 429 (JObj [(''detail'', JStr ''Rate limit exceeded'')])
          [(''retry-after'', int_str (if rs_now (\<alpha> s) < d then ceil_seconds (d - rs_now (\<alpha> s)) else 0))]), s1))
    \<and> counter (\<alpha> s1) (rate_limit_key u) = Some (n + 1, d)
    \<and> (\<forall>k. k \<noteq> rate_limit_key u \<longrightarrow> rs_find (\<alpha> s1) k = rs_find (\<alpha> s) k)"
proof -
  from simulatesD_Inr [OF redis_server.sim_check_rate_limit [OF server] answer]
    check_open_window [OF window, of "RATE_LIMIT_MAX_REQUESTS cfg" "RATE_LIMIT_WINDOW_SECONDS cfg"]
  have res: "res = \<lparr>allowed = (n < RATE_LIMIT_MAX_REQUESTS cfg),
      retry_after_seconds = (if rs_now (\<alpha> s) < d then ceil_seconds (d - rs_now (\<alpha> s)) else 0)\<rparr>"
    and c: "counter (\<alpha> s1) (rate_limit_key u) = Some (n + 1, d)"
    and k: "\<forall>k. k \<noteq> rate_limit_key u \<longrightarrow> rs_find (\<alpha> s1) k = rs_find (\<alpha> s) k" by auto
  from on c k show ?thesis by (simp add: RateLimiterMiddleware_def bindM_def tryM_def answer res)
qed

abbreviation sample_cfg :: rl_settings where
  "sample_cfg \<equiv> \<lparr>RATE_LIMIT_ENABLED = True, RATE_LIMIT_MAX_REQUESTS = 1, RATE_LIMIT_WINDOW_SECONDS = 60\<rparr>"

abbreviation sample_state :: rstate where
  "sample_state \<equiv> \<lparr>rs_now = 500, rs_db = [(''ratelimit:u1'', (RStr ''1'', Some 60000))]\<rparr>"

lemma sample_counter: "counter sample_state ''ratelimit:u1'' = Some (1, 60000)"
  by (simp add: counter_def rs_find_def alive_def) code_simp

theorem rate_limiter_open_window_witness:
  "\<exists>s1. RateLimiterMiddleware spec_redis sample_cfg (\<lambda>_ s. (Inl TypeError, s))
       (sample_request ''/mcp/'' [] (Some (sample_user ''u1'' []))) sample_state =
     (Inr (JSONResponse 429 (JObj [(''detail'', JStr ''Rate limit exceeded'')]) [(''retry-after'', ''60'')]), s1)
   \<and> counter s1 ''ratelimit:u1'' = Some (2, 60000)"
proof -
  let ?rq = "sample_request ''/mcp/'' [] (Some (sample_user ''u1'' []))"
  have key: "rate_limit_key (sample_user ''u1'' []) = ''ratelimit:u1''" by (simp add: rate_limit_key_def)
  obtain res s1 where run: "check_rate_limit spec_redis ''ratelimit:u1'' 1 60 sample_state = (Inr res, s1)"
    using check_open_window [OF sample_counter, of 1 60] by auto
  have "int_str (ceil_seconds 59500) = ''60''" by (simp add: ceil_seconds_def int_str_def nat_str.simps)
  with rate_limiter_open_window [OF spec.redis_server_axioms, of sample_cfg ?rq "sample_user ''u1'' []" sample_state 1 60000 res s1
      "\<lambda>_ s. (Inl TypeError, s)"]
  show ?thesis using run sample_counter by (simp add: key)
qed

text \<open>
  The limiter fails open. When Redis cannot be asked (any \<open>Exception\<close>, not a cancellation), the
  request goes on to the application as if it had been allowed.
\<close>

theorem rate_limiter_fails_open:
  assumes "rq_user rq = Some u" "is_exception e"
    and "RATE_LIMIT_ENABLED cfg" "startswith (rq_path rq) ''/mcp''"
    and "check_rate_limit R (rate_limit_key u) (RATE_LIMIT_MAX_REQUESTS cfg) (RATE_LIMIT_WINDOW_SECONDS cfg) s = (Inl e, s1)"
  shows "RateLimiterMiddleware R cfg call_next rq s = call_next rq s1"
  using assms by (simp add: RateLimiterMiddleware_def bindM_def tryM_def)

theorem rate_limiter_fails_open_witness:
  "RateLimiterMiddleware flaky_redis sample_cfg (\<lambda>_ s. (Inr (JSONResponse 200 JNull []), s))
      (sample_request ''/mcp/'' [] (Some (sample_user ''u1'' []))) ([True], sample_state)
    = (Inr (JSONResponse 200 JNull []), ([], sample_state))"
proof -
  have "check_rate_limit flaky_redis k l w ([True], st) = (Inl (RedisError ''connection lost''), ([], st))" for k l w st
    by (simp add: check_rate_limit_def bindM_def flaky_redis_def flaky_eval_def)
  then show ?thesis
    using rate_limiter_fails_open [of "sample_request ''/mcp/'' [] (Some (sample_user ''u1'' []))" "sample_user ''u1'' []"
        "RedisError ''connection lost''" sample_cfg flaky_redis "([True], sample_state)" "([], sample_state)"]
    by (simp add: is_exception_def)
qed

end
