(* ===== verification/Access_Guard.thy ===== *)
theory Access_Guard
  imports Web_Types
begin

text \<open>
  Authentication: \<open>app/identity/token_validator.py\<close> and the \<open>AccessGuard\<close> middleware of
  \<open>app/middleware/access_guard.py\<close>. The token library (PyJWT) is a parameter, the record \<open>jwt_lib\<close>:
  how it finds a signing key and what \<open>jwt.decode\<close> answers, each of which may raise.
\<close>

section \<open>TokenValidator\<close>

record ('s, 'k) jwt_lib =
  get_signing_key_from_jwt :: "string \<Rightarrow> ('s, 'k) prog"
  jwt_decode :: "string \<Rightarrow> 'k \<Rightarrow> string list \<Rightarrow> string \<Rightarrow> string \<Rightarrow> string list \<Rightarrow> ('s, claims) prog"

record auth_settings =
  OAUTH_ISSUER_URL :: string
  OAUTH_EXPECTED_AUDIENCE :: string

text \<open>\<open>x > t\<close> for a JSON value and a clock reading: a value that is no number raises.\<close>

fun num_gt :: "json \<Rightarrow> dec \<Rightarrow> bool res" where
  "num_gt (JInt i) t = Inr (dec_less t (dec_of_int i))"
| "num_gt (JBool b) t = Inr (dec_less t (dec_of_int (if b then 1 else 0)))"
| "num_gt (JFloat x) t = Inr (case x of Fin d \<Rightarrow> dec_less t d | PosInf \<Rightarrow> True | _ \<Rightarrow> False)"
| "num_gt _ t = Inl TypeError"

definition validate :: "('s, 'k) jwt_lib \<Rightarrow> auth_settings \<Rightarrow> ('s \<Rightarrow> dec) \<Rightarrow> (exn \<Rightarrow> string) \<Rightarrow> string \<Rightarrow> ('s, claims) prog" where
  "validate J cfg now py_str token =
     bindM (tryM (get_signing_key_from_jwt J token)
              (\<lambda>e. if e = PyJWKClientError \<or> is_http_error e then raise (ValueError (''JWKS fetch failed: '' @ py_str e))
                    else raise e)) (\<lambda>signing_key.
     bindM (tryM (jwt_decode J token signing_key [''RS256''] (OAUTH_ISSUER_URL cfg) (OAUTH_EXPECTED_AUDIENCE cfg)
                    [''exp'', ''iss'', ''aud'', ''sub''])
              (\<lambda>e. if e = ExpiredSignatureError then raise (ValueError ''Token expired'')
                    else if e = InvalidAudienceError then raise (ValueError ''Invalid audience'')
                    else if e = InvalidIssuerError then raise (ValueError ''Invalid issuer'')
                    else if is_pyjwt_error e then raise (ValueError (''Token invalid: '' @ py_str e))
                    else raise e)) (\<lambda>claims.
     bindM (asks now) (\<lambda>t.
       case dict_get claims ''nbf'' of
         None \<Rightarrow> ret claims
       | Some nbf \<Rightarrow>
           if nbf = JNull then ret claims
           else bindM (lift_res (num_gt nbf t)) (\<lambda>early.
             if early then raise (ValueError ''Token not yet valid (nbf)'') else ret claims))))"

section \<open>AccessGuard\<close>

definition SCOPES :: string where
  "SCOPES = ''mcp:google:read mcp:slack:read mcp:admin:read''"

definition CLIENT_ID :: string where
  "CLIENT_ID = ''mcp-gateway''"

definition ROLE_SCOPE_MAP :: "(string, string) dict" where
  "ROLE_SCOPE_MAP = [(''drive-user'', ''mcp:google:read''), (''slack-user'', ''mcp:slack:read''), (''admin-user'', ''mcp:admin:read'')]"

definition AUTH_BYPASS_EXACT :: "string list" where
  "AUTH_BYPASS_EXACT = [''/openapi.json'', ''/oauth/authorize'']"

definition AUTH_BYPASS_PREFIXES :: "string list" where
  "AUTH_BYPASS_PREFIXES = [''/health'', ''/.well-known'', ''/docs'', ''/webhooks'']"

definition is_bypass_path :: "string \<Rightarrow> bool" where
  "is_bypass_path path \<longleftrightarrow> path \<in> set AUTH_BYPASS_EXACT
     \<or> list_ex (\<lambda>p. path = p \<or> startswith path (p @ ''/'')) AUTH_BYPASS_PREFIXES"

definition unauthorized :: "auth_settings \<Rightarrow> response" where
  "unauthorized cfg =
     (let resource_base = str_rsplit1 (CHR ''/'') (str_rstrip (CHR ''/'') (OAUTH_EXPECTED_AUDIENCE cfg));
          well_known = resource_base @ ''/.well-known/oauth-protected-resource'';
          www_auth = ''Bearer resource_metadata='' @ [CHR 0x22] @ well_known @ [CHR 0x22] @ '', scope='' @ [CHR 0x22] @ SCOPES @ [CHR 0x22]
      in JSONResponse 401 (JObj [(''detail'', JStr ''Unauthorized'')]) [(''www-authenticate'', www_auth)])"

text \<open>
  \<open>for r in client_roles if r in _ROLE_SCOPE_MAP\<close> over a JSON value: a list gives its elements, an
  object its keys, a string its characters, anything else is not iterable; a list or an object as
  an element is not hashable.
\<close>

fun role_scope :: "json \<Rightarrow> string list res" where
  "role_scope (JStr r) = Inr (case dict_get ROLE_SCOPE_MAP r of None \<Rightarrow> [] | Some sc \<Rightarrow> [sc])"
| "role_scope (JArr _) = Inl TypeError"
| "role_scope (JObj _) = Inl TypeError"
| "role_scope _ = Inr []"

definition role_scopes :: "json \<Rightarrow> string list res" where
  "role_scopes roles = bind_res (iterate roles) (\<lambda>rs. bind_res (map_res role_scope rs) (\<lambda>xs. Inr (concat xs)))"

text \<open>\<open>claims.get("scope", "").split()\<close>: only a string can be split.\<close>

definition scope_words :: "claims \<Rightarrow> string list res" where
  "scope_words claims = (case dict_get_default claims ''scope'' (JStr []) of
     JStr s \<Rightarrow> Inr (str_split_ws s) | _ \<Rightarrow> Inl AttributeError)"

definition client_roles :: "claims \<Rightarrow> json res" where
  "client_roles claims =
     bind_res (j_get_default (dict_get_default claims ''resource_access'' (JObj [])) CLIENT_ID (JObj [])) (\<lambda>c.
       j_get_default c ''roles'' (JArr []))"

text \<open>The scopes of a caller, as the list of what is put into the set.\<close>

definition granted_scopes :: "claims \<Rightarrow> string list res" where
  "granted_scopes claims =
     bind_res (scope_words claims) (\<lambda>words.
     bind_res (client_roles claims) (\<lambda>roles.
     bind_res (role_scopes roles) (\<lambda>extra. Inr (words @ extra))))"

text \<open>\<open>claims["sub"]\<close>, which the library promises to be a string.\<close>

definition claim_sub :: "claims \<Rightarrow> string res" where
  "claim_sub claims = bind_res (dict_item claims ''sub'') (\<lambda>j. case j of JStr s \<Rightarrow> Inr s | _ \<Rightarrow> Inl TypeError)"

definition AccessGuard :: "('s, 'k) jwt_lib \<Rightarrow> auth_settings \<Rightarrow> ('s \<Rightarrow> dec) \<Rightarrow> (exn \<Rightarrow> string) \<Rightarrow> 's middleware" where
  "AccessGuard J cfg now py_str call_next request =
     (if is_bypass_path (rq_path request) then call_next request
      else let auth_header = (case header_get request ''Authorization'' of None \<Rightarrow> [] | Some h \<Rightarrow> h) in
        if \<not> startswith (str_lower auth_header) ''bearer '' then ret (unauthorized cfg)
        else bindM (tryM (bindM (validate J cfg now py_str (drop 7 auth_header)) (\<lambda>c. ret (Some c)))
                      (\<lambda>e. if is_value_error e then ret None else raise e)) (\<lambda>outcome.
          case outcome of None \<Rightarrow> ret (unauthorized cfg)
          | Some claims \<Rightarrow>
              bindM (lift_res (granted_scopes claims)) (\<lambda>scopes.
              bindM (lift_res (claim_sub claims)) (\<lambda>sub.
                call_next (request\<lparr>rq_user := Some \<lparr>u_id = sub, u_scopes = sort (remdups scopes), u_token = claims\<rparr>,
                  rq_ctx := \<lparr>current_user_id = Some sub, current_user_scopes = set scopes\<rparr>\<rparr>)))))"

section \<open>What a validated token is\<close>

text \<open>
  The claims of a token the library found genuine: a signing key was found for it, \<open>jwt.decode\<close> accepted
  it for that key under RS256 with the configured issuer and audience and the four required claims,
  and its \<open>nbf\<close> is not in the future.
\<close>

definition not_early :: "claims \<Rightarrow> dec \<Rightarrow> bool" where
  "not_early claims t \<longleftrightarrow> (case dict_get claims ''nbf'' of None \<Rightarrow> True | Some JNull \<Rightarrow> True | Some nbf \<Rightarrow> num_gt nbf t = Inr False)"

definition genuine :: "('s, 'k) jwt_lib \<Rightarrow> auth_settings \<Rightarrow> ('s \<Rightarrow> dec) \<Rightarrow> string \<Rightarrow> 's \<Rightarrow> claims \<Rightarrow> 's \<Rightarrow> bool" where
  "genuine J cfg now token s claims s' \<longleftrightarrow> (\<exists>key s1. get_signing_key_from_jwt J token s = (Inr key, s1)
     \<and> jwt_decode J token key [''RS256''] (OAUTH_ISSUER_URL cfg) (OAUTH_EXPECTED_AUDIENCE cfg)
         [''exp'', ''iss'', ''aud'', ''sub''] s1 = (Inr claims, s')
     \<and> not_early claims (now s'))"

lemma validate_genuine: "validate J cfg now py_str token s = (Inr claims, s') \<longleftrightarrow> genuine J cfg now token s claims s'"
proof -
  have nbf: "(case dict_get c ''nbf'' of None \<Rightarrow> ret c | Some nbf \<Rightarrow> if nbf = JNull then ret c
       else bindM (lift_res (num_gt nbf (now t))) (\<lambda>early. if early then raise (ValueError ''Token not yet valid (nbf)'') else ret c)) t
     = (Inr claims, s') \<longleftrightarrow> c = claims \<and> t = s' \<and> not_early claims (now s')" for c t
    by (auto simp: not_early_def bindM_def split: option.splits json.splits sum.splits)
  show ?thesis
    unfolding validate_def genuine_def
    by (auto simp: bindM_def [of "tryM _ _"] bindM_def [of "asks _"] tryM_def nbf split: prod.splits sum.splits if_splits)
qed

lemma validate_unchanged_errors:
  "get_signing_key_from_jwt J token s = (Inl e, s1) \<Longrightarrow> e \<noteq> PyJWKClientError \<Longrightarrow> \<not> is_http_error e
    \<Longrightarrow> validate J cfg now py_str token s = (Inl e, s1)"
  by (simp add: validate_def bindM_def tryM_def)

text \<open>The bearer token of a request: the scheme is compared without regard to case.\<close>

definition bearer_token :: "request \<Rightarrow> string option" where
  "bearer_token rq = (case header_get rq ''Authorization'' of None \<Rightarrow> None
     | Some h \<Rightarrow> if startswith (str_lower h) ''bearer '' then Some (drop 7 h) else None)"

definition with_identity :: "claims \<Rightarrow> string \<Rightarrow> string list \<Rightarrow> request \<Rightarrow> request" where
  "with_identity claims sub scopes rq = rq\<lparr>rq_user := Some \<lparr>u_id = sub, u_scopes = sort (remdups scopes), u_token = claims\<rparr>,
     rq_ctx := \<lparr>current_user_id = Some sub, current_user_scopes = set scopes\<rparr>\<rparr>"

lemma guard_bypass: "is_bypass_path (rq_path rq) \<Longrightarrow> AccessGuard J cfg now py_str app rq = app rq"
  by (simp add: AccessGuard_def)

lemma guard_no_token:
  "\<not> is_bypass_path (rq_path rq) \<Longrightarrow> bearer_token rq = None \<Longrightarrow> AccessGuard J cfg now py_str app rq = ret (unauthorized cfg)"
  by (auto simp: AccessGuard_def bearer_token_def Let_def str_lower_def split: option.splits if_splits)

lemma guard_token:
  assumes "\<not> is_bypass_path (rq_path rq)" "bearer_token rq = Some token"
  shows "AccessGuard J cfg now py_str app rq s = (case validate J cfg now py_str token s of
      (Inl e, s1) \<Rightarrow> if is_value_error e then (Inr (unauthorized cfg), s1) else (Inl e, s1)
    | (Inr claims, s1) \<Rightarrow> (case bind_res (granted_scopes claims) (\<lambda>scopes. bind_res (claim_sub claims) (\<lambda>sub. Inr (scopes, sub))) of
        Inl e \<Rightarrow> (Inl e, s1)
      | Inr (scopes, sub) \<Rightarrow> app (with_identity claims sub scopes rq) s1))"
  using assms
  by (auto simp: AccessGuard_def bearer_token_def Let_def bindM_def tryM_def with_identity_def bind_res_def
      split: option.splits if_splits prod.splits sum.splits)

section \<open>Paths and scopes\<close>

text \<open>The first segment of an absolute path.\<close>

definition first_segment :: "string \<Rightarrow> string option" where
  "first_segment path = (case path of c # rest \<Rightarrow> if c = CHR ''/'' then Some (takeWhile (\<lambda>x. x \<noteq> CHR ''/'') rest) else None | [] \<Rightarrow> None)"

lemma takeWhile_slash:
  assumes "CHR ''/'' \<notin> set seg"
  shows "takeWhile (\<lambda>x. x \<noteq> CHR ''/'') rest = seg \<longleftrightarrow> rest = seg \<or> startswith rest (seg @ ''/'')"
proof
  assume "takeWhile (\<lambda>x. x \<noteq> CHR ''/'') rest = seg"
  then show "rest = seg \<or> startswith rest (seg @ ''/'')"
    by (induction rest arbitrary: seg) (auto simp: prefix_def split: if_splits)
next
  assume "rest = seg \<or> startswith rest (seg @ ''/'')"
  then show "takeWhile (\<lambda>x. x \<noteq> CHR ''/'') rest = seg"
    using assms by (auto simp: prefix_def takeWhile_append takeWhile_eq_all_conv)
qed

lemma bypass_prefix:
  assumes "CHR ''/'' \<notin> set seg"
  shows "path = CHR ''/'' # seg \<or> startswith path (CHR ''/'' # seg @ ''/'') \<longleftrightarrow> first_segment path = Some seg"
proof (cases path)
  case (Cons c rest)
  then show ?thesis
    using takeWhile_slash [OF assms, of rest] by (auto simp: first_segment_def)
qed (simp add: first_segment_def)

lemma first_segment_plain: "CHR ''/'' \<notin> set seg \<Longrightarrow> first_segment (CHR ''/'' # seg) = Some seg"
  by (simp add: first_segment_def takeWhile_eq_all_conv) auto

text \<open>The scopes the roles of the gateway's client stand for, on a token of the identity provider's shape.\<close>

lemma map_res_role_scope:
  "map_res role_scope (map JStr roles) = Inr (map (\<lambda>r. case dict_get ROLE_SCOPE_MAP r of None \<Rightarrow> [] | Some sc \<Rightarrow> [sc]) roles)"
  by (induction roles) simp_all

lemma role_scopes_list:
  "role_scopes (JArr (map JStr roles)) = Inr (concat (map (\<lambda>r. case dict_get ROLE_SCOPE_MAP r of None \<Rightarrow> [] | Some sc \<Rightarrow> [sc]) roles))"
  by (simp add: role_scopes_def map_res_role_scope)

lemma role_scope_pairs: "dict_get ROLE_SCOPE_MAP r = Some g \<longleftrightarrow>
  (r, g) \<in> {(''drive-user'', ''mcp:google:read''), (''slack-user'', ''mcp:slack:read''), (''admin-user'', ''mcp:admin:read'')}"
proof -
  have "distinct (map fst ROLE_SCOPE_MAP)" by (simp add: ROLE_SCOPE_MAP_def)
  from map_of_eq_Some_iff [OF this, of r g] show ?thesis by (simp add: ROLE_SCOPE_MAP_def)
qed

lemma set_role_scopes:
  "set (concat (map (\<lambda>r. case dict_get ROLE_SCOPE_MAP r of None \<Rightarrow> [] | Some sc \<Rightarrow> [sc]) roles))
    = {g. \<exists>r \<in> set roles. dict_get ROLE_SCOPE_MAP r = Some g}"
  by (auto split: option.splits)

section \<open>Properties\<close>

text \<open>
  C1: no unauthenticated request reaches the application. On a path that is not public, one of two
  things happens, whatever the application is. Either the request is answered without calling the
  application, and then any answer is the 401 response; or the request carries a bearer token that
  is genuine (signature checked under RS256 for the configured issuer and audience, required claims
  present, not before its \<open>nbf\<close>), and the application is called once, on the request with the
  identity and the scopes taken from the claims of that token and from nowhere else.
\<close>

theorem access_guard_authenticates:
  assumes "\<not> is_bypass_path (rq_path rq)"
  shows "(\<exists>r s'. (\<forall>app. AccessGuard J cfg now py_str app rq s = (r, s')) \<and> (\<forall>rp. r = Inr rp \<longrightarrow> rp = unauthorized cfg))
    \<or> (\<exists>token claims s' sub scopes. bearer_token rq = Some token \<and> genuine J cfg now token s claims s'
        \<and> granted_scopes claims = Inr scopes \<and> claim_sub claims = Inr sub
        \<and> (\<forall>app. AccessGuard J cfg now py_str app rq s = app (with_identity claims sub scopes rq) s'))"
proof (cases "bearer_token rq")
  case None
  then show ?thesis using assms by (simp add: guard_no_token)
next
  case (Some token)
  obtain r1 s1 where v: "validate J cfg now py_str token s = (r1, s1)" by fastforce
  show ?thesis
  proof (cases r1)
    case (Inl e)
    then show ?thesis using v by (simp add: guard_token [OF assms Some])
  next
    case (Inr claims)
    with v have "genuine J cfg now token s claims s1" by (simp add: validate_genuine)
    moreover have "AccessGuard J cfg now py_str app rq s = (case bind_res (granted_scopes claims)
        (\<lambda>scopes. bind_res (claim_sub claims) (\<lambda>sub. Inr (scopes, sub))) of
        Inl e \<Rightarrow> (Inl e, s1) | Inr (scopes, sub) \<Rightarrow> app (with_identity claims sub scopes rq) s1)" for app
      using v Inr by (simp add: guard_token [OF assms Some])
    ultimately show ?thesis using Some
      by (cases "granted_scopes claims"; cases "claim_sub claims") (simp_all, blast)
  qed
qed

abbreviation sample_jwt :: "(unit, unit) jwt_lib" where
  "sample_jwt \<equiv> \<lparr>get_signing_key_from_jwt = (\<lambda>t s. if t = ''good'' then (Inr (), s) else (Inl PyJWTError, s)),
     jwt_decode = (\<lambda>t k algs iss aud req s. (Inr [(''sub'', JStr ''u1''), (''scope'', JStr ''openid mcp:slack:read''),
       (''resource_access'', JObj [(''mcp-gateway'', JObj [(''roles'', JArr [JStr ''drive-user''])])])], s))\<rparr>"

abbreviation sample_auth :: auth_settings where
  "sample_auth \<equiv> \<lparr>OAUTH_ISSUER_URL = ''https://idp'', OAUTH_EXPECTED_AUDIENCE = ''https://gw/mcp''\<rparr>"

theorem access_guard_authenticates_witness:
  "\<exists>claims. \<forall>app. AccessGuard sample_jwt sample_auth (\<lambda>_. Dec 0 0) (\<lambda>_. []) app (sample_request ''/mcp/'' [(''authorization'', ''Bearer good'')] None) ()
     = app (with_identity claims ''u1'' [''openid'', ''mcp:slack:read'', ''mcp:google:read''] (sample_request ''/mcp/'' [(''authorization'', ''Bearer good'')] None)) ()"
proof -
  let ?rq = "sample_request ''/mcp/'' [(''authorization'', ''Bearer good'')] None"
  let ?claims = "[(''sub'', JStr ''u1''), (''scope'', JStr ''openid mcp:slack:read''),
       (''resource_access'', JObj [(''mcp-gateway'', JObj [(''roles'', JArr [JStr ''drive-user''])])])]"
  have path: "\<not> is_bypass_path (rq_path ?rq)" by code_simp
  have tok: "bearer_token ?rq = Some ''good''" by code_simp
  have sc: "granted_scopes ?claims = Inr [''openid'', ''mcp:slack:read'', ''mcp:google:read'']" by code_simp
  have sub: "claim_sub ?claims = Inr ''u1''" by code_simp
  have gen: "genuine sample_jwt sample_auth (\<lambda>_. Dec 0 0) ''good'' () ?claims ()"
    by (simp add: genuine_def not_early_def)
  then have val: "validate sample_jwt sample_auth (\<lambda>_. Dec 0 0) (\<lambda>_. []) ''good'' () = (Inr ?claims, ())"
    by (simp only: validate_genuine)
  have run: "AccessGuard sample_jwt sample_auth (\<lambda>_. Dec 0 0) (\<lambda>_. []) app ?rq ()
      = app (with_identity ?claims ''u1'' [''openid'', ''mcp:slack:read'', ''mcp:google:read''] ?rq) ()" for app
    using guard_token [OF path tok, of sample_jwt sample_auth "\<lambda>_. Dec 0 0" "\<lambda>_. []" app "()"] val sc sub by simp
  from access_guard_authenticates [OF path, of sample_jwt sample_auth "\<lambda>_. Dec 0 0" "\<lambda>_. []" "()"] show ?thesis
    using run by blast
qed

text \<open>
  C32: which paths are public. A path bypasses authentication exactly when it is one of the two listed
  paths or its first segment as a whole is one of the four public ones: \<open>/healthz\<close> is not public,
  and no path under \<open>/mcp\<close> or \<open>/admin\<close> is.
\<close>

theorem bypass_paths:
  "(is_bypass_path path \<longleftrightarrow> path \<in> {''/openapi.json'', ''/oauth/authorize''}
      \<or> first_segment path \<in> {Some ''health'', Some ''.well-known'', Some ''docs'', Some ''webhooks''})
    \<and> \<not> (is_bypass_path path \<and> (startswith path ''/mcp'' \<or> startswith path ''/admin'' \<or> startswith path ''/healthz''))"
proof -
  have main: "is_bypass_path path \<longleftrightarrow> path \<in> {''/openapi.json'', ''/oauth/authorize''}
      \<or> first_segment path \<in> {Some ''health'', Some ''.well-known'', Some ''docs'', Some ''webhooks''}"
    using bypass_prefix [of "''health''" path] bypass_prefix [of "''.well-known''" path]
      bypass_prefix [of "''docs''" path] bypass_prefix [of "''webhooks''" path]
    by (auto simp: is_bypass_path_def AUTH_BYPASS_EXACT_def AUTH_BYPASS_PREFIXES_def)
  have "\<not> is_bypass_path path" if "startswith path ''/mcp'' \<or> startswith path ''/admin'' \<or> startswith path ''/healthz''"
    using that by (auto simp: main first_segment_def prefix_def)
  with main show ?thesis by blast
qed

text \<open>
  Where scopes come from. For a token whose \<open>scope\<close> claim and whose client roles have the identity
  provider's shape, the granted scopes are the words of the claim and the scopes of the mapped roles
  of the client \<open>mcp-gateway\<close>, nothing else: roles of other clients and unknown roles grant nothing.
  In particular the admin scope needs the claim or the role \<open>admin-user\<close>.
\<close>

lemma scopes_granted:
  assumes "dict_get_default claims ''scope'' (JStr []) = JStr sc"
    and "dict_get claims ''resource_access'' = Some (JObj clients)"
    and "dict_get clients ''mcp-gateway'' = Some (JObj own)"
    and "dict_get own ''roles'' = Some (JArr (map JStr roles))"
  shows "\<exists>scopes. granted_scopes claims = Inr scopes
    \<and> set scopes = set (str_split_ws sc) \<union> {g. \<exists>r \<in> set roles. (r, g) \<in> {(''drive-user'', ''mcp:google:read''), (''slack-user'', ''mcp:slack:read''), (''admin-user'', ''mcp:admin:read'')}}
    \<and> (''mcp:admin:read'' \<in> set scopes \<longleftrightarrow> ''mcp:admin:read'' \<in> set (str_split_ws sc) \<or> ''admin-user'' \<in> set roles)"
proof -
  have cr: "client_roles claims = Inr (JArr (map JStr roles))"
    using assms by (simp add: client_roles_def CLIENT_ID_def dict_get_default_def)
  have sw: "scope_words claims = Inr (str_split_ws sc)" using assms by (simp add: scope_words_def)
  let ?extra = "concat (map (\<lambda>r. case dict_get ROLE_SCOPE_MAP r of None \<Rightarrow> [] | Some sc \<Rightarrow> [sc]) roles)"
  have "granted_scopes claims = Inr (str_split_ws sc @ ?extra)"
    by (simp add: granted_scopes_def cr sw role_scopes_list)
  moreover have "set ?extra = {g. \<exists>r \<in> set roles. (r, g) \<in> {(''drive-user'', ''mcp:google:read''), (''slack-user'', ''mcp:slack:read''), (''admin-user'', ''mcp:admin:read'')}}"
    unfolding set_role_scopes role_scope_pairs ..
  ultimately show ?thesis by auto
qed

text \<open>
  C38: a string that is no token. Looking up the signing key decodes the header of the token; the error
  the library raises when that fails is neither a key-lookup error nor a transport error, so it is
  not turned into a \<open>ValueError\<close>, and the guard raises it instead of answering 401.
\<close>

theorem malformed_token_escapes_the_guard:
  assumes "\<not> is_bypass_path (rq_path rq)" "bearer_token rq = Some token"
    and "get_signing_key_from_jwt J token s = (Inl PyJWTError, s1)"
  shows "AccessGuard J cfg now py_str app rq s = (Inl PyJWTError, s1)"
  using validate_unchanged_errors [OF assms(3)]
  by (simp add: guard_token [OF assms(1,2)] is_http_error_def is_request_error_def is_value_error_def)

theorem malformed_token_escapes_the_guard_witness:
  "\<forall>app. AccessGuard sample_jwt sample_auth (\<lambda>_. Dec 0 0) (\<lambda>_. []) app (sample_request ''/mcp/'' [(''authorization'', ''Bearer x'')] None) ()
    = (Inl PyJWTError, ())"
proof -
  let ?rq = "sample_request ''/mcp/'' [(''authorization'', ''Bearer x'')] None"
  have "\<not> is_bypass_path (rq_path ?rq)" "bearer_token ?rq = Some ''x''" by code_simp+
  from malformed_token_escapes_the_guard [OF this, of sample_jwt "()" "()"] show ?thesis by simp
qed

end
