(* ===== verification/Middleware.thy ===== *)
theory Middleware
  imports Rate_Limiter Access_Guard
begin

text \<open>
  The remaining middlewares (\<open>app/middleware/origin_guard.py\<close>, \<open>request_logger.py\<close>, \<open>security_headers.py\<close>)
  and the stack that \<open>app/main.py\<close> builds from all of them. Outside the repository, and so parameters:
  the CORS middleware of the web framework, the tracing library, the identifiers, the clock and the log.
\<close>

section \<open>Origin guard\<close>

definition OriginGuardMiddleware :: "string list \<Rightarrow> 's middleware" where
  "OriginGuardMiddleware allowed_origins call_next request =
     (if startswith (rq_path request) ''/mcp'' then
        (case header_get request ''origin'' of
           None \<Rightarrow> call_next request
         | Some origin \<Rightarrow>
             if origin \<notin> set allowed_origins
             then ret (JSONResponse 403 (JObj [(''detail'', JStr ''Origin not allowed'')]) [])
             else call_next request)
      else call_next request)"

section \<open>Request log\<close>

text \<open>\<open>lg_span\<close> gives the trace and span id when the current span is valid.\<close>

record 's log_env =
  lg_uuid :: "('s, string) prog"
  lg_clock :: "'s \<Rightarrow> dec"
  lg_span :: "'s \<Rightarrow> (nat \<times> nat) option"
  lg_info :: "(string, json) dict \<Rightarrow> ('s, unit) prog"

text \<open>\<open>round(x, 2)\<close>: to the nearest hundredth, halves to the even one.\<close>

fun round2 :: "dec \<Rightarrow> dec" where
  "round2 (Dec m n) = (if n \<le> 2 then Dec m n else
     let p = 10 ^ (n - 2); q = m div p; r = 2 * (m mod p)
     in Dec (if r < p \<or> (r = p \<and> even q) then q else q + 1) 2)"

fun hex_str :: "nat \<Rightarrow> string" where
  "hex_str n = (if n < 16 then [hex_digit n] else hex_str (n div 16) @ [hex_digit (n mod 16)])"

declare hex_str.simps [simp del]

text \<open>\<open>format(n, "0<w>x")\<close>.\<close>

definition hex_padded :: "nat \<Rightarrow> nat \<Rightarrow> string" where
  "hex_padded w n = replicate (w - length (hex_str n)) (CHR ''0'') @ hex_str n"

fun dec_times_int :: "int \<Rightarrow> dec \<Rightarrow> dec" where
  "dec_times_int k (Dec m n) = Dec (k * m) n"

definition log_extra :: "request \<Rightarrow> response \<Rightarrow> dec \<Rightarrow> string \<Rightarrow> (nat \<times> nat) option \<Rightarrow> (string, json) dict" where
  "log_extra request response duration_ms request_id span_ids =
     [(''event'', JStr ''request''), (''method'', JStr (rq_method request)), (''path'', JStr (rq_path request)),
      (''status'', JInt (rp_status response)), (''duration_ms'', JFloat (Fin duration_ms)), (''request_id'', JStr request_id)]
     @ (case span_ids of None \<Rightarrow> [] | Some (trace_id, span_id) \<Rightarrow>
          [(''trace_id'', JStr (hex_padded 32 trace_id)), (''span_id'', JStr (hex_padded 16 span_id))])"

definition request_logging_middleware :: "'s log_env \<Rightarrow> 's middleware" where
  "request_logging_middleware E call_next request =
     bindM (if truthy_opt (header_get request ''x-request-id'') then ret (the (header_get request ''x-request-id'')) else lg_uuid E) (\<lambda>request_id.
     bindM (asks (lg_clock E)) (\<lambda>start.
     bindM (call_next request) (\<lambda>response.
     bindM (asks (\<lambda>s. round2 (dec_times_int 1000 (dec_sub (lg_clock E s) start)))) (\<lambda>duration_ms.
     bindM (asks (lg_span E)) (\<lambda>span_ids.
     bindM (lg_info E (log_extra request response duration_ms request_id span_ids)) (\<lambda>_.
       ret (set_header ''x-request-id'' request_id response)))))))"

section \<open>Security headers\<close>

definition SecurityHeadersMiddleware :: "'s middleware" where
  "SecurityHeadersMiddleware call_next request =
     bindM (call_next request) (\<lambda>response.
       ret (set_header ''Strict-Transport-Security'' ''max-age=31536000; includeSubDomains''
              (set_header ''X-Content-Type-Options'' ''nosniff'' response)))"

section \<open>The stack\<close>

text \<open>\<open>app.add_middleware(m)\<close> puts \<open>m\<close> around everything added before it.\<close>

definition add_middleware :: "'s middleware \<Rightarrow> 's app \<Rightarrow> 's app" where
  "add_middleware m app = m app"

record ('s, 'k) web_deps =
  wd_redis :: "'s redis"
  wd_rate_limit :: rl_settings
  wd_jwt :: "('s, 'k) jwt_lib"
  wd_auth :: auth_settings
  wd_now :: "'s \<Rightarrow> dec"
  wd_str :: "exn \<Rightarrow> string"
  wd_origins :: "string list"
  wd_log :: "'s log_env"
  wd_cors :: "'s middleware"

definition gateway_app :: "('s, 'k) web_deps \<Rightarrow> 's app \<Rightarrow> 's app" where
  "gateway_app D router =
     add_middleware SecurityHeadersMiddleware
    (add_middleware (wd_cors D)
    (add_middleware (request_logging_middleware (wd_log D))
    (add_middleware (OriginGuardMiddleware (wd_origins D))
    (add_middleware (AccessGuard (wd_jwt D) (wd_auth D) (wd_now D) (wd_str D))
    (add_middleware (RateLimiterMiddleware (wd_redis D) (wd_rate_limit D))
       router)))))"

section \<open>Which requests a middleware hands on\<close>

text \<open>
  \<open>hands_on M P Q\<close>: on a request that satisfies \<open>P\<close> the middleware calls what it wraps only with requests that
  satisfy \<open>Q\<close>: two applications that agree on these cannot be told apart from outside.
\<close>

definition hands_on :: "'s middleware \<Rightarrow> (request \<Rightarrow> bool) \<Rightarrow> (request \<Rightarrow> bool) \<Rightarrow> bool" where
  "hands_on M P Q \<longleftrightarrow> (\<forall>f g rq. P rq \<longrightarrow> (\<forall>rq'. Q rq' \<longrightarrow> f rq' = g rq') \<longrightarrow> M f rq = M g rq)"

lemma hands_onI:
  assumes "\<And>f g rq. P rq \<Longrightarrow> (\<And>rq'. Q rq' \<Longrightarrow> f rq' = g rq') \<Longrightarrow> M f rq = M g rq"
  shows "hands_on M P Q"
  unfolding hands_on_def by (intro allI impI) (rule assms, assumption, blast)

lemma hands_onD:
  assumes "hands_on M P Q" "P rq" "\<And>rq'. Q rq' \<Longrightarrow> f rq' = g rq'"
  shows "M f rq = M g rq"
  by (rule assms(1) [unfolded hands_on_def, rule_format, OF assms(2)]) (rule assms(3))

lemma hands_on_trans:
  assumes "hands_on M P Q" "hands_on M' Q Q'"
  shows "hands_on (\<lambda>app. M (M' app)) P Q'"
  by (rule hands_onI) (rule hands_onD [OF assms(1)], assumption, rule hands_onD [OF assms(2)], simp_all)

lemma hands_on_same:
  assumes "\<And>rq. hands_on M (\<lambda>r. r = rq) (\<lambda>r. r = rq)"
  shows "hands_on M P P"
  by (rule hands_onI) (rule hands_onD [OF assms refl], blast)

text \<open>What is known of a request behind the origin guard, and behind the access guard.\<close>

definition origin_ok :: "string list \<Rightarrow> request \<Rightarrow> bool" where
  "origin_ok origins rq \<longleftrightarrow> (startswith (rq_path rq) ''/mcp'' \<longrightarrow> (case header_get rq ''origin'' of None \<Rightarrow> True | Some x \<Rightarrow> x \<in> set origins))"

definition identified :: "('s, 'k) jwt_lib \<Rightarrow> auth_settings \<Rightarrow> ('s \<Rightarrow> dec) \<Rightarrow> request \<Rightarrow> bool" where
  "identified J cfg now rq \<longleftrightarrow> (\<not> is_bypass_path (rq_path rq) \<longrightarrow>
     (\<exists>token s claims s' sub scopes. bearer_token rq = Some token \<and> genuine J cfg now token s claims s'
        \<and> granted_scopes claims = Inr scopes \<and> claim_sub claims = Inr sub
        \<and> rq_user rq = Some \<lparr>u_id = sub, u_scopes = sort (remdups scopes), u_token = claims\<rparr>
        \<and> rq_ctx rq = \<lparr>current_user_id = Some sub, current_user_scopes = set scopes\<rparr>))"

lemma origin_guard_hands_on: "hands_on (OriginGuardMiddleware origins) P (\<lambda>rq. P rq \<and> origin_ok origins rq)"
  by (rule hands_onI) (auto simp: OriginGuardMiddleware_def origin_ok_def split: option.split)

lemma logging_hands_on: "hands_on (request_logging_middleware E) P P"
  by (rule hands_onI) (simp add: request_logging_middleware_def)

lemma security_hands_on: "hands_on SecurityHeadersMiddleware P P"
  by (rule hands_onI) (simp add: SecurityHeadersMiddleware_def)

lemma rate_limiter_hands_on: "hands_on (RateLimiterMiddleware R cfg) P P"
  by (rule hands_onI) (simp only: RateLimiterMiddleware_def)

lemma with_identity_simps [simp]:
  "rq_path (with_identity c sub sc rq) = rq_path rq" "header_get (with_identity c sub sc rq) n = header_get rq n"
  "bearer_token (with_identity c sub sc rq) = bearer_token rq"
  "rq_user (with_identity c sub sc rq) = Some \<lparr>u_id = sub, u_scopes = sort (remdups sc), u_token = c\<rparr>"
  "rq_ctx (with_identity c sub sc rq) = \<lparr>current_user_id = Some sub, current_user_scopes = set sc\<rparr>"
  by (simp_all add: with_identity_def header_get_def bearer_token_def)

lemma access_guard_hands_on:
  assumes "\<And>rq c sub sc. P rq \<Longrightarrow> P (with_identity c sub sc rq)"
  shows "hands_on (AccessGuard J cfg now str) P (\<lambda>rq. P rq \<and> identified J cfg now rq)"
proof (rule hands_onI, rule ext)
  fix f g :: "'a app" and rq s
  assume P: "P rq" and same: "\<And>rq'. P rq' \<and> identified J cfg now rq' \<Longrightarrow> f rq' = g rq'"
  show "AccessGuard J cfg now str f rq s = AccessGuard J cfg now str g rq s"
  proof (cases "is_bypass_path (rq_path rq)")
    case True
    then show ?thesis using P same [of rq] by (simp add: guard_bypass identified_def)
  next
    case False
    show ?thesis
    proof (cases "bearer_token rq")
      case None
      then show ?thesis using False by (simp add: guard_no_token)
    next
      case (Some token)
      note run = guard_token [OF False Some]
      obtain r1 s1 where v: "validate J cfg now str token s = (r1, s1)" by fastforce
      have "f (with_identity c sub sc rq) = g (with_identity c sub sc rq)"
        if "r1 = Inr c" "granted_scopes c = Inr sc" "claim_sub c = Inr sub" for c sub sc
      proof (rule same, intro conjI assms P)
        have "genuine J cfg now token s c s1" using v that(1) by (simp add: validate_genuine)
        then show "identified J cfg now (with_identity c sub sc rq)"
          using Some that unfolding identified_def by fastforce
      qed
      then show ?thesis unfolding run v by (auto simp: bind_res_def split: sum.split)
    qed
  qed
qed

lemma stack_hands_on:
  assumes cors: "\<And>rq. hands_on (wd_cors D) (\<lambda>r. r = rq) (\<lambda>r. r = rq)"
    and P: "\<And>rq c sub sc. P rq \<Longrightarrow> P (with_identity c sub sc rq)"
  shows "hands_on (gateway_app D) P (\<lambda>rq. P rq \<and> origin_ok (wd_origins D) rq \<and> identified (wd_jwt D) (wd_auth D) (wd_now D) rq)"
proof -
  have "hands_on (AccessGuard (wd_jwt D) (wd_auth D) (wd_now D) (wd_str D)) (\<lambda>rq. P rq \<and> origin_ok (wd_origins D) rq)
      (\<lambda>rq. (P rq \<and> origin_ok (wd_origins D) rq) \<and> identified (wd_jwt D) (wd_auth D) (wd_now D) rq)"
    by (rule access_guard_hands_on) (simp add: origin_ok_def P)
  note inner = hands_on_trans [OF origin_guard_hands_on hands_on_trans [OF this rate_limiter_hands_on]]
  note all = hands_on_trans [OF security_hands_on hands_on_trans [OF hands_on_same [OF cors] hands_on_trans [OF logging_hands_on inner]]]
  show ?thesis using all unfolding gateway_app_def add_middleware_def by (simp add: conj_assoc)
qed


section \<open>Properties\<close>

text \<open>
  C2: what the routes can rely on. Whatever the request and whatever the routes do, they are called only with
  requests that passed both guards: below \<open>/mcp\<close> an origin header, if there is one, is an allowed
  one, and on every path that is not public the request carries a bearer token that the token library verified,
  and its user, its scopes and its context variables are those of this token. Two sets of routes that
  agree on such requests cannot be told apart from outside. The CORS middleware is only
  trusted to hand on the request it was given.
\<close>

theorem gateway_admits_identified_requests:
  assumes "\<And>r. hands_on (wd_cors D) (\<lambda>r'. r' = r) (\<lambda>r'. r' = r)"
    and "\<And>rq'. origin_ok (wd_origins D) rq' \<Longrightarrow> identified (wd_jwt D) (wd_auth D) (wd_now D) rq' \<Longrightarrow> router rq' = router' rq'"
  shows "gateway_app D router rq s = gateway_app D router' rq s"
  using hands_onD [OF stack_hands_on [where P = "\<lambda>_. True", OF assms(1)], where rq = rq and f = router and g = router'] assms(2) by simp

definition sample_log :: "unit log_env" where
  "sample_log = \<lparr>lg_uuid = ret ''id1'', lg_clock = (\<lambda>_. Dec 95 1), lg_span = (\<lambda>_. Some (4095, 17)), lg_info = (\<lambda>x. ret ())\<rparr>"

definition no_redis :: "unit redis" where
  "no_redis = (let down = RedisError ''down'' in \<lparr>r_get = (\<lambda>k. raise down), r_set = (\<lambda>k v ex nx. raise down), r_getdel = (\<lambda>k. raise down),
     r_scan = (\<lambda>p. raise down), r_delete = (\<lambda>ks. raise down), r_incr = (\<lambda>k. raise down), r_pexpire = (\<lambda>k t. raise down),
     r_expire = (\<lambda>k t. raise down), r_pttl = (\<lambda>k. raise down), r_eval = (\<lambda>m. raise down), r_xadd = (\<lambda>k f. raise down),
     r_xrange = (\<lambda>k. raise down), r_xread = (\<lambda>k b. raise down), r_xgroup_create = (\<lambda>k g. raise down),
     r_xreadgroup = (\<lambda>k g c n b. raise down), r_xack = (\<lambda>k g i. raise down), r_xautoclaim = (\<lambda>k g c t n. raise down)\<rparr>)"

definition sample_web :: "(unit, unit) web_deps" where
  "sample_web = \<lparr>wd_redis = no_redis, wd_rate_limit = sample_cfg, wd_jwt = sample_jwt, wd_auth = sample_auth, wd_now = (\<lambda>_. Dec 95 1),
     wd_str = (\<lambda>_. []), wd_origins = [''https://ok''], wd_log = sample_log, wd_cors = (\<lambda>app. app)\<rparr>"

abbreviation page :: "string \<Rightarrow> response" where
  "page x \<equiv> JSONResponse 200 (JStr x) []"

definition guarded_router :: "unit app" where
  "guarded_router rq = ret (page (if origin_ok [''https://ok''] rq \<and> identified sample_jwt sample_auth (\<lambda>_. Dec 95 1) rq then ''secret'' else ''never''))"

theorem gateway_admits_identified_requests_witness:
  "gateway_app sample_web (\<lambda>_. ret (page ''secret'')) (sample_request ''/mcp/'' [(''origin'', ''https://evil'')] None) ()
    = gateway_app sample_web guarded_router (sample_request ''/mcp/'' [(''origin'', ''https://evil'')] None) ()"
  by (rule gateway_admits_identified_requests) (auto simp: sample_web_def guarded_router_def hands_on_def)



end
