(* ===== verification/Http_Client.thy ===== *)
theory Http_Client
  imports Stores Web_Types
begin

text \<open>
  The outside world of the gateway's outbound calls: an HTTP client (httpx), the retry loop of
  tenacity, the clock, and the Redis client, bundled as the records \<open>net\<close> and \<open>redis\<close>. Their
  documented behaviour is the locale \<open>gateway_world\<close>; \<open>sent\<close> is the log of the requests that left the
  gateway. A concrete world with scripted answers satisfies it.
\<close>

section \<open>Requests, answers and the client\<close>

record http_request =
  hr_method :: string
  hr_url :: string
  hr_headers :: "(string, string) dict"
  hr_params :: "(string, string) dict"
  hr_data :: "(string, string) dict"

record http_response =
  hs_status :: int
  hs_body :: string

record 's net =
  n_send :: "http_request \<Rightarrow> ('s, http_response) prog"
  n_raise_for_status :: "http_response \<Rightarrow> unit res"
  n_pause :: "nat \<Rightarrow> ('s, unit) prog"
  n_retrying :: "int \<Rightarrow> (exn \<Rightarrow> bool) \<Rightarrow> ('s, json) prog \<Rightarrow> ('s, json) prog"
  n_time :: "'s \<Rightarrow> dec"

text \<open>\<open>response.json()\<close>.\<close>

definition resp_json :: "http_response \<Rightarrow> json res" where
  "resp_json r = loads (hs_body r)"

text \<open>
  The documented loop of \<open>AsyncRetrying(retry=p, stop=stop_after_attempt(n), reraise=True)\<close>: attempt
  number \<open>i\<close> with at most \<open>k\<close> more to come.
\<close>

primrec attempts :: "(nat \<Rightarrow> ('s, unit) prog) \<Rightarrow> (exn \<Rightarrow> bool) \<Rightarrow> ('s, 'a) prog \<Rightarrow> nat \<Rightarrow> nat \<Rightarrow> ('s, 'a) prog" where
  "attempts pause p m i 0 = m"
| "attempts pause p m i (Suc k) = tryM m (\<lambda>e. if p e then bindM (pause i) (\<lambda>_. attempts pause p m (Suc i) k) else raise e)"

section \<open>The requests a program sends\<close>

text \<open>\<open>sends sent P\<close>: between the two states only requests that satisfy \<open>P\<close> were sent.\<close>

definition sends :: "('s \<Rightarrow> http_request list) \<Rightarrow> (http_request \<Rightarrow> bool) \<Rightarrow> 's \<Rightarrow> 's \<Rightarrow> bool" where
  "sends sent P s s' \<longleftrightarrow> (\<exists>new. sent s' = sent s @ new \<and> list_all P new)"

interpretation sends: frame_rel "sends sent P" for sent P
  by unfold_locales (force simp: sends_def)+

text \<open>At most \<open>k\<close> requests.\<close>

definition sends_most :: "('s \<Rightarrow> http_request list) \<Rightarrow> nat \<Rightarrow> ('s, 'a) prog \<Rightarrow> bool" where
  "sends_most sent k m \<longleftrightarrow> guarantees (\<lambda>s s'. \<exists>new. sent s' = sent s @ new \<and> length new \<le> k) m"

lemma sends_most_ret: "sends_most sent k (ret x)"
  by (simp add: sends_most_def guarantees_def)

lemma sends_most_raise: "sends_most sent k (raise e)"
  by (simp add: sends_most_def guarantees_def)

lemma sends_most_lift: "sends_most sent k (lift_res r)"
  by (simp add: sends_most_def guarantees_def)

lemma sends_most_asks: "sends_most sent k (asks f)"
  by (simp add: sends_most_def guarantees_def)

lemma sends_most_mono: "sends_most sent k m \<Longrightarrow> k \<le> k' \<Longrightarrow> sends_most sent k' m"
  unfolding sends_most_def guarantees_def by (meson le_trans)

lemma sends_most_seq:
  assumes "\<exists>new. sent s1 = sent s @ new \<and> length new \<le> j" "\<exists>new. sent s2 = sent s1 @ new \<and> length new \<le> k"
  shows "\<exists>new. sent s2 = sent s @ new \<and> length new \<le> j + k"
  using assms by (metis add_mono append.assoc length_append)

lemma sends_most_bindM:
  assumes "sends_most sent j m" "\<And>x. sends_most sent k (f x)"
  shows "sends_most sent (j + k) (bindM m f)"
  unfolding sends_most_def guarantees_def
proof
  fix s
  obtain r s1 where m: "m s = (r, s1)" by (cases "m s")
  with assms(1) have 1: "\<exists>new. sent s1 = sent s @ new \<and> length new \<le> j"
    by (auto simp: sends_most_def guarantees_def dest: spec [of _ s])
  show "\<exists>new. sent (snd (bindM m f s)) = sent s @ new \<and> length new \<le> j + k"
  proof (cases r)
    case (Inl e)
    with 1 m show ?thesis by (auto simp: bindM_def intro: trans_le_add1)
  next
    case (Inr x)
    have "\<exists>new. sent (snd (f x s1)) = sent s1 @ new \<and> length new \<le> k"
      using assms(2) [of x] by (simp add: sends_most_def guarantees_def)
    from sends_most_seq [where sent = sent, OF 1 this] Inr m show ?thesis by (simp add: bindM_def)
  qed
qed

lemma sends_most_tryM:
  assumes "sends_most sent j m" "\<And>e. sends_most sent k (h e)"
  shows "sends_most sent (j + k) (tryM m h)"
  unfolding sends_most_def guarantees_def
proof
  fix s
  obtain r s1 where m: "m s = (r, s1)" by (cases "m s")
  with assms(1) have 1: "\<exists>new. sent s1 = sent s @ new \<and> length new \<le> j"
    by (auto simp: sends_most_def guarantees_def dest: spec [of _ s])
  show "\<exists>new. sent (snd (tryM m h s)) = sent s @ new \<and> length new \<le> j + k"
  proof (cases r)
    case (Inr e)
    with 1 m show ?thesis by (auto simp: tryM_def intro: trans_le_add1)
  next
    case (Inl e)
    have "\<exists>new. sent (snd (h e s1)) = sent s1 @ new \<and> length new \<le> k"
      using assms(2) [of e] by (simp add: sends_most_def guarantees_def)
    from sends_most_seq [where sent = sent, OF 1 this] Inl m show ?thesis by (simp add: tryM_def)
  qed
qed

lemma sends_most_attempts:
  assumes "sends_most sent j m" "\<And>i. sends_most sent 0 (pause i)"
  shows "sends_most sent (j * Suc k) (attempts pause p m i k)"
proof (induction k arbitrary: i)
  case (Suc k)
  have "sends_most sent (0 + j * Suc k) (bindM (pause i) (\<lambda>_. attempts pause p m (Suc i) k))"
    by (rule sends_most_bindM [OF assms(2) Suc.IH])
  then have "sends_most sent (j + j * Suc k) (tryM m (\<lambda>e. if p e then bindM (pause i) (\<lambda>_. attempts pause p m (Suc i) k) else raise e))"
    by (intro sends_most_tryM [OF assms(1)]) (simp add: sends_most_raise)
  then show ?case by simp
qed (simp add: assms)

section \<open>What the code relies on\<close>

definition quiet :: "('s \<Rightarrow> http_request list) \<Rightarrow> ('s, 'a) prog \<Rightarrow> bool" where
  "quiet sent m \<longleftrightarrow> guarantees (\<lambda>s s'. sent s' = sent s) m"

lemma quiet_sends: "quiet sent m \<Longrightarrow> guarantees (sends sent P) m"
  by (simp add: quiet_def guarantees_def sends_def)

lemma quiet_most: "quiet sent m \<Longrightarrow> sends_most sent 0 m"
  by (simp add: quiet_def guarantees_def sends_most_def)

text \<open>
  A request that is sent is in the log, whatever comes of it; a 2xx answer passes
  \<open>raise_for_status\<close> and a 4xx or 5xx answer raises \<open>HTTPStatusError\<close>; tenacity runs its documented
  loop; a pause sends nothing and ends early only by cancellation; and talking to Redis sends no HTTP request.
\<close>

locale network =
  fixes N :: "'s net" and sent :: "'s \<Rightarrow> http_request list"
  assumes send_logged: "n_send N rq s = (r, s') \<Longrightarrow> sent s' = sent s @ [rq]"
    and status_ok: "200 \<le> hs_status rp \<Longrightarrow> hs_status rp < 300 \<Longrightarrow> n_raise_for_status N rp = Inr ()"
    and status_error: "400 \<le> hs_status rp \<Longrightarrow> n_raise_for_status N rp = Inl (HTTPStatusError (hs_status rp))"
    and retrying_loop: "n_retrying N n p m = attempts (n_pause N) p m 1 (nat (n - 1))"
    and pause_quiet: "quiet sent (n_pause N i)"
    and pause_raises: "n_pause N i s = (Inl e, s') \<Longrightarrow> e = CancelledError"
begin

lemma send_sends: "P rq \<Longrightarrow> guarantees (sends sent P) (n_send N rq)"
proof (rule guaranteesI)
  fix s
  assume "P rq"
  then show "sends sent P s (snd (n_send N rq s))"
    using send_logged [of rq s "fst (n_send N rq s)" "snd (n_send N rq s)"] by (simp add: sends_def)
qed

lemma send_most: "sends_most sent 1 (n_send N rq)"
  unfolding sends_most_def guarantees_def
proof
  fix s
  show "\<exists>new. sent (snd (n_send N rq s)) = sent s @ new \<and> length new \<le> 1"
    using send_logged [of rq s "fst (n_send N rq s)" "snd (n_send N rq s)"] by auto
qed

lemma retrying_sends:
  assumes "guarantees (sends sent P) m"
  shows "guarantees (sends sent P) (n_retrying N n p m)"
proof -
  have "guarantees (sends sent P) (attempts (n_pause N) p m i k)" for i k
  proof (induction k arbitrary: i)
    case (Suc k)
    then show ?case
      using quiet_sends [OF pause_quiet, of P i] by (auto intro!: sends.frame_tryM sends.frame_bindM sends.frame_raise assms)
  qed (simp add: assms)
  then show ?thesis by (simp add: retrying_loop)
qed

lemma retrying_most:
  assumes "sends_most sent j m" "0 < n"
  shows "sends_most sent (j * nat n) (n_retrying N n p m)"
proof -
  have "Suc (nat (n - 1)) = nat n" using assms(2) by simp
  then show ?thesis
    using sends_most_attempts [OF assms(1) quiet_most [OF pause_quiet], where p = p and i = 1 and k = "nat (n - 1)"] by (simp add: retrying_loop)
qed

text \<open>
  A loop over a body that sends the same single request each time: one request at least and \<open>n\<close> at
  most, and all \<open>n\<close> of them if the outcome is still an error that is retried.
\<close>

lemma attempts_exact:
  assumes each: "\<And>s. sent (snd (m s)) = sent s @ [rq]" and cancel: "\<not> p CancelledError"
    and run: "attempts (n_pause N) p m i k s = (r, s')"
  shows "\<exists>j. sent s' = sent s @ replicate (Suc j) rq \<and> j \<le> k \<and> (\<forall>e. r = Inl e \<longrightarrow> p e \<longrightarrow> j = k)"
  using run
proof (induction k arbitrary: i s)
  case 0
  then show ?case using each [of s] by (intro exI [of _ 0]) simp
next
  case (Suc k)
  obtain r1 s1 where m: "m s = (r1, s1)" by (cases "m s")
  have one: "sent s1 = sent s @ [rq]" using each [of s] m by simp
  show ?case
  proof (cases "\<exists>e. r1 = Inl e \<and> p e")
    case True
    then obtain e where e: "r1 = Inl e" "p e" by blast
    obtain r2 s2 where pause: "n_pause N i s1 = (r2, s2)" by (cases "n_pause N i s1")
    have quiet: "sent s2 = sent s1" using pause_quiet [of i] pause by (auto simp: quiet_def guarantees_def dest: spec [of _ s1])
    show ?thesis
    proof (cases r2)
      case (Inl e2)
      with pause pause_raises have "e2 = CancelledError" by simp
      with Inl Suc.prems m e pause have "r = Inl CancelledError" "s' = s2" by (simp_all add: tryM_def bindM_def)
      then show ?thesis using one quiet cancel by (intro exI [of _ 0]) auto
    next
      case (Inr u)
      with Suc.prems m e pause have "attempts (n_pause N) p m (Suc i) k s2 = (r, s')" by (simp add: tryM_def bindM_def)
      from Suc.IH [OF this] obtain j where "sent s' = sent s2 @ replicate (Suc j) rq" "j \<le> k"
        "\<forall>e. r = Inl e \<longrightarrow> p e \<longrightarrow> j = k" by blast
      then show ?thesis using one quiet by (intro exI [of _ "Suc j"]) simp
    qed
  next
    case False
    with Suc.prems m have "r = r1" "s' = s1" by (auto simp: tryM_def split: sum.splits)
    then show ?thesis using one False by (intro exI [of _ 0]) auto
  qed
qed

lemma retrying_exact:
  assumes "\<And>s. sent (snd (m s)) = sent s @ [rq]" "\<not> p CancelledError" "0 < n"
    and "n_retrying N n p m s = (r, s')"
  shows "\<exists>j. sent s' = sent s @ replicate j rq \<and> 1 \<le> j \<and> j \<le> nat n \<and> (\<forall>e. r = Inl e \<longrightarrow> p e \<longrightarrow> j = nat n)"
proof -
  have "attempts (n_pause N) p m 1 (nat (n - 1)) s = (r, s')" using assms(4) by (simp add: retrying_loop)
  from attempts_exact [of m rq p, OF assms(1,2) this] obtain j where
    j: "sent s' = sent s @ replicate (Suc j) rq" "j \<le> nat (n - 1)" "\<forall>e. r = Inl e \<longrightarrow> p e \<longrightarrow> j = nat (n - 1)" by blast
  with assms(3) show ?thesis by (intro exI [of _ "Suc j"]) auto
qed

text \<open>An attempt that succeeds, or fails in a way that is not retried, is the only one.\<close>

lemma retrying_once:
  assumes "m s = (r, s')" "case r of Inl e \<Rightarrow> \<not> p e | Inr _ \<Rightarrow> True"
  shows "n_retrying N n p m s = (r, s')"
  using assms by (cases "nat (n - 1)") (auto simp: retrying_loop tryM_def split: sum.splits)

end

locale gateway_world = redis_server R \<alpha> + network N sent
  for R :: "'s redis" and \<alpha> :: "'s \<Rightarrow> rstate" and N :: "'s net" and sent :: "'s \<Rightarrow> http_request list" +
  assumes quiet_get: "quiet sent (r_get R k)"
    and quiet_set: "quiet sent (r_set R k v ex nx)"
    and quiet_getdel: "quiet sent (r_getdel R k)"
    and quiet_expire: "quiet sent (r_expire R k secs)"
    and quiet_xadd: "quiet sent (r_xadd R k fs)"
    and quiet_xrange: "quiet sent (r_xrange R k)"
    and quiet_xread: "quiet sent (r_xread R k block)"
    and quiet_xgroup_create: "quiet sent (r_xgroup_create R k g)"
    and quiet_xreadgroup: "quiet sent (r_xreadgroup R k g c cnt block)"
    and quiet_xack: "quiet sent (r_xack R k g i)"
    and quiet_xautoclaim: "quiet sent (r_xautoclaim R k g c idle cnt)"
begin

lemmas quiet_redis = quiet_get quiet_set quiet_getdel quiet_expire quiet_xadd quiet_xrange quiet_xread
  quiet_xgroup_create quiet_xreadgroup quiet_xack quiet_xautoclaim

lemmas redis_sends = quiet_redis [THEN quiet_sends]

end

section \<open>A world with scripted answers\<close>

text \<open>
  The keyspace, the clock, the log of requests, the answers still to come (an exception is a transport
  error; when the script has run out the connection is refused), the files written and a supply of
  identifiers.
\<close>

record world =
  w_redis :: rstate
  w_now :: dec
  w_sent :: "http_request list"
  w_script :: "http_response res list"
  w_files :: "(string \<times> string) list"
  w_uuid :: nat

definition on_redis :: "(rstate, 'a) prog \<Rightarrow> (world, 'a) prog" where
  "on_redis m w = (case m (w_redis w) of (r, st) \<Rightarrow> (r, w\<lparr>w_redis := st\<rparr>))"

definition world_eval :: "(world, int \<times> int) prog \<Rightarrow> (world, int \<times> int) prog" where
  "world_eval m = m"

definition world_redis :: "world redis" where
  "world_redis = \<lparr>r_get = (\<lambda>k. on_redis (rs_get k)), r_set = (\<lambda>k v ex nx. on_redis (rs_set k v ex nx)),
     r_getdel = (\<lambda>k. on_redis (rs_getdel k)), r_scan = (\<lambda>p. on_redis (rs_scan p)), r_delete = (\<lambda>ks. on_redis (rs_delete ks)),
     r_incr = (\<lambda>k. on_redis (rs_incr k)), r_pexpire = (\<lambda>k ms. on_redis (rs_pexpire k ms)),
     r_expire = (\<lambda>k t. on_redis (rs_expire k t)), r_pttl = (\<lambda>k. on_redis (rs_pttl k)), r_eval = world_eval,
     r_xadd = (\<lambda>k fs. on_redis (rs_xadd k fs)), r_xrange = (\<lambda>k. on_redis (rs_xrange k)),
     r_xread = (\<lambda>k b. on_redis (rs_xread k b)), r_xgroup_create = (\<lambda>k g. on_redis (rs_xgroup_create k g)),
     r_xreadgroup = (\<lambda>k g c n b. on_redis (rs_xreadgroup k g c n b)), r_xack = (\<lambda>k g i. on_redis (rs_xack k g i)),
     r_xautoclaim = (\<lambda>k g c t n. on_redis (rs_xautoclaim k g c t n))\<rparr>"

definition world_send :: "http_request \<Rightarrow> (world, http_response) prog" where
  "world_send rq w = (case w_script w of [] \<Rightarrow> (Inl RequestError, w\<lparr>w_sent := w_sent w @ [rq]\<rparr>)
     | r # rest \<Rightarrow> (r, w\<lparr>w_sent := w_sent w @ [rq], w_script := rest\<rparr>))"

definition world_raise_for_status :: "http_response \<Rightarrow> unit res" where
  "world_raise_for_status rp = (if 200 \<le> hs_status rp \<and> hs_status rp < 300 then Inr () else Inl (HTTPStatusError (hs_status rp)))"

text \<open>\<open>wait_exponential(multiplier=1, min=1, max=16)\<close>: the clock moves on by the pause.\<close>

definition world_pause :: "nat \<Rightarrow> (world, unit) prog" where
  "world_pause i w = (Inr (), w\<lparr>w_now := dec_add (w_now w) (dec_of_int (max 1 (min 16 (2 ^ (i - 1)))))\<rparr>)"

definition world_net :: "world net" where
  "world_net = \<lparr>n_send = world_send, n_raise_for_status = world_raise_for_status, n_pause = world_pause,
     n_retrying = (\<lambda>n p m. attempts world_pause p m 1 (nat (n - 1))), n_time = w_now\<rparr>"

lemma world_net_simps [simp]:
  "n_send world_net = world_send" "n_raise_for_status world_net = world_raise_for_status"
  "n_pause world_net = world_pause" "n_time world_net = w_now"
  "n_retrying world_net n p m = attempts world_pause p m 1 (nat (n - 1))"
  by (simp_all add: world_net_def)

lemma simulates_on_redis: "simulates w_redis (on_redis m) m"
  by (auto simp: simulates_def on_redis_def split: prod.splits)

lemma quiet_on_redis: "quiet w_sent (on_redis m)"
  by (auto simp: quiet_def guarantees_def on_redis_def split: prod.splits)

interpretation world_network: network world_net w_sent
proof unfold_locales
  show "n_send world_net rq s = (r, s') \<Longrightarrow> w_sent s' = w_sent s @ [rq]" for rq s r s'
    by (auto simp: world_send_def split: list.splits)
  show "quiet w_sent (n_pause world_net i)" for i
    by (simp add: quiet_def guarantees_def world_pause_def)
  show "n_pause world_net i s = (Inl e, s') \<Longrightarrow> e = CancelledError" for i s e s'
    by (simp add: world_pause_def)
qed (simp_all add: world_raise_for_status_def)

interpretation world: gateway_world world_redis w_redis world_net w_sent
proof unfold_locales
  show "simulates w_redis m m' \<Longrightarrow> simulates w_redis (r_eval world_redis m) (rs_eval m')" for m m'
    by (simp add: world_redis_def world_eval_def rs_eval_def [abs_def])
  show "r_xread world_redis k block s = (Inr es, s') \<Longrightarrow> rs_xread k block (w_redis s') = (Inr es, w_redis s')" for k block s es s'
    by (auto simp: world_redis_def on_redis_def split: prod.splits dest: rs_xread_same)
qed (simp_all add: world_redis_def simulates_on_redis quiet_on_redis)

end
