(* ===== verification/Py_Url.thy ===== *)
theory Py_Url
  imports Gateway_Prelude Py_Strings
begin

text \<open>
  Two pieces of the standard library: \<open>urllib.parse.urlparse\<close>, as far as scheme, network location and
  host name go, and \<open>base64.urlsafe_b64decode\<close>. Whether the text in square brackets of a network
  location is an address is a parameter of the former. On the code points below 256 the compatibility
  check of the network location never fails and is left out.
\<close>

section \<open>urlparse\<close>

record url =
  url_scheme :: string
  url_netloc :: string

definition is_ascii_alpha :: "char \<Rightarrow> bool" where
  "is_ascii_alpha c \<longleftrightarrow> (let n = code_point c in (65 \<le> n \<and> n \<le> 90) \<or> (97 \<le> n \<and> n \<le> 122))"

definition is_scheme_char :: "char \<Rightarrow> bool" where
  "is_scheme_char c \<longleftrightarrow> is_ascii_alpha c \<or> is_digit c \<or> c \<in> {CHR ''+'', CHR ''-'', CHR ''.''}"

definition clean_url :: "string \<Rightarrow> string" where
  "clean_url s = filter (\<lambda>c. c \<notin> {CHR 0x09, CHR 0x0A, CHR 0x0D}) (dropWhile (\<lambda>c. code_point c \<le> 32) s)"

definition split_scheme :: "string \<Rightarrow> string \<times> string" where
  "split_scheme s = (case str_cut (CHR '':'') s of
     None \<Rightarrow> ([], s)
   | Some (a, b) \<Rightarrow> if a \<noteq> [] \<and> is_ascii_alpha (hd a) \<and> list_all is_scheme_char a then (str_lower a, b) else ([], s))"

definition split_netloc :: "string \<Rightarrow> string" where
  "split_netloc s = (if prefix ''//'' s then takeWhile (\<lambda>c. c \<notin> {CHR ''/'', CHR ''?'', CHR ''#''}) (drop 2 s) else [])"

definition urlparse :: "(string \<Rightarrow> bool) \<Rightarrow> string \<Rightarrow> url res" where
  "urlparse bracket_ok s =
     (let (scheme, rest) = split_scheme (clean_url s);
          netloc = split_netloc rest;
          open' = (CHR ''['' \<in> set netloc); close' = (CHR '']'' \<in> set netloc)
      in if open' \<noteq> close' then Inl (ValueError ''Invalid IPv6 URL'')
         else if open' \<and> close' \<and> \<not> bracket_ok netloc then Inl (ValueError ''Invalid IPv6 URL'')
         else Inr \<lparr>url_scheme = scheme, url_netloc = netloc\<rparr>)"

text \<open>The part after the last \<open>@\<close>, without brackets and port, in lower case up to a zone; \<open>None\<close> if empty.\<close>

definition after_last :: "char \<Rightarrow> string \<Rightarrow> string" where
  "after_last c s = rev (takeWhile (\<lambda>x. x \<noteq> c) (rev s))"

definition before_first :: "char \<Rightarrow> string \<Rightarrow> string" where
  "before_first c s = takeWhile (\<lambda>x. x \<noteq> c) s"

definition url_hostname :: "url \<Rightarrow> string option" where
  "url_hostname u =
     (let hostinfo = after_last (CHR ''@'') (url_netloc u);
          host = (case str_cut (CHR ''['') hostinfo of
                    Some (_, bracketed) \<Rightarrow> before_first (CHR '']'') bracketed
                  | None \<Rightarrow> before_first (CHR '':'') hostinfo)
      in if host = [] then None
         else Some (str_lower (before_first (CHR ''%'') host) @ dropWhile (\<lambda>x. x \<noteq> CHR ''%'') host))"

section \<open>Base 64\<close>

definition b64_value :: "char \<Rightarrow> nat option" where
  "b64_value c = (let n = code_point c in
     if 65 \<le> n \<and> n \<le> 90 then Some (n - 65) else if 97 \<le> n \<and> n \<le> 122 then Some (n - 71)
     else if 48 \<le> n \<and> n \<le> 57 then Some (n + 4) else if c = CHR ''+'' then Some 62 else if c = CHR ''/'' then Some 63 else None)"

text \<open>
  The decoder: position in the group of four, the bits left over, the padding seen so far. It skips
  characters outside the alphabet, stops at sufficient padding, and fails if the text ends inside a group.
\<close>

fun a2b_base64 :: "nat \<Rightarrow> nat \<Rightarrow> nat \<Rightarrow> string \<Rightarrow> string res" where
  "a2b_base64 pos left pads [] = (if pos = 0 then Inr [] else Inl (ValueError ''Incorrect padding''))"
| "a2b_base64 pos left pads (c # cs) =
     (if c = CHR ''='' then
        (if 2 \<le> pos \<and> 4 \<le> pos + Suc pads then Inr [] else a2b_base64 pos left (if 2 \<le> pos then Suc pads else pads) cs)
      else case b64_value c of None \<Rightarrow> a2b_base64 pos left pads cs
      | Some v \<Rightarrow>
          (if pos = 0 then a2b_base64 1 v 0 cs
           else if pos = 1 then map_sum id (\<lambda>r. char_of (left * 4 + v div 16) # r) (a2b_base64 2 (v mod 16) 0 cs)
           else if pos = 2 then map_sum id (\<lambda>r. char_of (left * 16 + v div 4) # r) (a2b_base64 3 (v mod 4) 0 cs)
           else map_sum id (\<lambda>r. char_of (left * 64 + v) # r) (a2b_base64 0 0 0 cs)))"

definition urlsafe_char :: "char \<Rightarrow> char" where
  "urlsafe_char c = (if c = CHR ''-'' then CHR ''+'' else if c = CHR ''_'' then CHR ''/'' else c)"

definition urlsafe_b64decode :: "string \<Rightarrow> string res" where
  "urlsafe_b64decode s = a2b_base64 0 0 0 (map urlsafe_char s)"

text \<open>The characters of the URL-safe alphabet, \<open>[A-Za-z0-9_-]\<close>.\<close>

definition is_b64url :: "char \<Rightarrow> bool" where
  "is_b64url c \<longleftrightarrow> is_ascii_alpha c \<or> is_digit c \<or> c = CHR ''_'' \<or> c = CHR ''-''"

lemma b64url_value: "is_b64url c \<Longrightarrow> \<exists>v. b64_value (urlsafe_char c) = Some v"
  by (auto simp: is_b64url_def urlsafe_char_def b64_value_def is_ascii_alpha_def is_digit_def code_point_def Let_def)

lemma b64url_no_pad: "is_b64url c \<Longrightarrow> urlsafe_char c \<noteq> CHR ''=''"
  using b64url_value [of c] by (auto simp: b64_value_def code_point_def)

text \<open>A character of the alphabet moves the decoder on to the next position, and completes a byte at all but the first.\<close>

lemma a2b_step:
  assumes "is_b64url c" "pos < 4"
  obtains left' out where "length out = (if pos = 0 then 0 else 1)"
    "\<And>cs. a2b_base64 pos left pads (urlsafe_char c # cs) = map_sum id (\<lambda>r. out @ r) (a2b_base64 (Suc pos mod 4) left' 0 cs)"
proof -
  from assms(1) obtain v where v: "b64_value (urlsafe_char c) = Some v" "urlsafe_char c \<noteq> CHR ''=''"
    using b64url_value b64url_no_pad by blast
  consider "pos = 0" | "pos = 1" | "pos = 2" | "pos = 3" using assms(2) by linarith
  then show thesis
  proof cases
    case 1
    then show thesis by (intro that [of "[]" v]) (simp_all add: v sum.map_id0 [unfolded id_def] id_def)
  next
    case 2
    then show thesis by (intro that [of "[char_of (left * 4 + v div 16)]" "v mod 16"]) (simp_all add: v numeral_2_eq_2)
  next
    case 3
    then show thesis by (intro that [of "[char_of (left * 16 + v div 4)]" "v mod 4"]) (simp_all add: v)
  next
    case 4
    then show thesis by (intro that [of "[char_of (left * 64 + v)]" 0]) (simp_all add: v)
  qed
qed

text \<open>A text of the alphabet whose length leaves three characters in the last group needs one padding sign.\<close>

lemma a2b_full:
  assumes "list_all is_b64url s" "pos < 4" "(pos + length s) mod 4 = 3"
  shows "\<exists>r. a2b_base64 pos left pads (map urlsafe_char s @ ''='') = Inr r \<and> length r = (pos + length s) div 4 * 3 + 2 - (if pos = 0 then 0 else pos - 1)"
  using assms
proof (induction s arbitrary: pos left pads)
  case Nil
  then show ?case by simp
next
  case (Cons c s)
  obtain left' out where out: "length out = (if pos = 0 then 0 else 1)"
    and run: "\<And>cs. a2b_base64 pos left pads (urlsafe_char c # cs) = map_sum id (\<lambda>r. out @ r) (a2b_base64 (Suc pos mod 4) left' 0 cs)"
    using Cons.prems(1,2) by (auto intro: a2b_step [of c pos left pads] simp del: a2b_base64.simps)
  let ?p = "Suc pos mod 4"
  have "(?p + length s) mod 4 = 3" using Cons.prems(3) by (simp add: mod_add_left_eq)
  with Cons.IH [of ?p left' 0] Cons.prems(1) obtain r where r: "a2b_base64 ?p left' 0 (map urlsafe_char s @ ''='') = Inr r"
    "length r = (?p + length s) div 4 * 3 + 2 - (if ?p = 0 then 0 else ?p - 1)" by auto
  have "length (out @ r) = (pos + length (c # s)) div 4 * 3 + 2 - (if pos = 0 then 0 else pos - 1)"
    using out r(2) Cons.prems(2,3) by (cases "pos = 3") (auto simp: mod_Suc div_add_self1)
  then show ?case using run r(1) by simp
qed

end
