(* ===== verification/Py_Format.thy ===== *)
theory Py_Format
  imports Py_Json
begin

text \<open>
  \<open>str(x)\<close> and \<open>repr(x)\<close> of the values that a JSON document can hold, as the f-strings of the clients
  use them, and \<open>strftime("%Y-%m-%dT%H:%M:%S")\<close> of a point in time.
\<close>

section \<open>repr and str\<close>

text \<open>Code points that \<open>repr\<close> shows as a hexadecimal escape: the controls, the no-break space and the soft hyphen.\<close>

definition unprintable :: "char \<Rightarrow> bool" where
  "unprintable c \<longleftrightarrow> code_point c < 32 \<or> (127 \<le> code_point c \<and> code_point c \<le> 160) \<or> code_point c = 173"

definition repr_char :: "char \<Rightarrow> char \<Rightarrow> string" where
  "repr_char q c =
     (if c = q \<or> c = CHR 0x5C then [CHR 0x5C, c]
      else if c = CHR 0x0A then [CHR 0x5C, CHR ''n'']
      else if c = CHR 0x0D then [CHR 0x5C, CHR ''r'']
      else if c = CHR 0x09 then [CHR 0x5C, CHR ''t'']
      else if unprintable c then [CHR 0x5C, CHR ''x'', hex_digit (code_point c div 16), hex_digit (code_point c mod 16)]
      else [c])"

definition repr_string :: "string \<Rightarrow> string" where
  "repr_string s = (let q = (if CHR 0x27 \<in> set s \<and> CHR 0x22 \<notin> set s then CHR 0x22 else CHR 0x27)
     in [q] @ concat (map (repr_char q) s) @ [q])"

definition float_str :: "pyfloat \<Rightarrow> string" where
  "float_str x = (case x of Fin d \<Rightarrow> dec_str d | PosInf \<Rightarrow> ''inf'' | NegInf \<Rightarrow> ''-inf'' | NaN \<Rightarrow> ''nan'')"

fun py_repr :: "json \<Rightarrow> string" where
  "py_repr JNull = ''None''"
| "py_repr (JBool b) = (if b then ''True'' else ''False'')"
| "py_repr (JInt i) = int_str i"
| "py_repr (JFloat x) = float_str x"
| "py_repr (JStr s) = repr_string s"
| "py_repr (JArr xs) = ''['' @ str_join '', '' (map py_repr xs) @ '']''"
| "py_repr (JObj kvs) = ''{'' @ str_join '', '' (map (\<lambda>kv. repr_string (fst kv) @ '': '' @ py_repr (snd kv)) kvs) @ ''}''"

definition py_str :: "json \<Rightarrow> string" where
  "py_str j = (case j of JStr s \<Rightarrow> s | _ \<Rightarrow> py_repr j)"

lemma py_str_JStr [simp]: "py_str (JStr s) = s"
  by (simp add: py_str_def)

section \<open>Points in time\<close>

text \<open>Year, month and day of a number of days since 1970-01-01.\<close>

definition civil_of_days :: "int \<Rightarrow> int \<times> int \<times> int" where
  "civil_of_days days =
     (let z = days + 719468; era = z div 146097; doe = z mod 146097;
          yoe = (doe - doe div 1460 + doe div 36524 - doe div 146096) div 365;
          doy = doe - (365 * yoe + yoe div 4 - yoe div 100);
          mp = (5 * doy + 2) div 153;
          d = doy - (153 * mp + 2) div 5 + 1;
          m = (if mp < 10 then mp + 3 else mp - 9);
          y = yoe + era * 400 + (if m \<le> 2 then 1 else 0)
      in (y, m, d))"

fun dec_floor :: "dec \<Rightarrow> int" where
  "dec_floor (Dec m n) = m div 10 ^ n"

definition strftime_seconds :: "int \<Rightarrow> string" where
  "strftime_seconds secs =
     (let (y, m, d) = civil_of_days (secs div 86400); t = secs mod 86400;
          two = (\<lambda>x. fixed_digits 2 (nat x))
      in fixed_digits 4 (nat y) @ ''-'' @ two m @ ''-'' @ two d @ ''T'' @ two (t div 3600) @ '':''
           @ two (t div 60 mod 60) @ '':'' @ two (t mod 60))"

lemma strftime_sample: "strftime_seconds 1709210096 = ''2024-02-29T12:34:56''"
  by code_simp

text \<open>A formatted point in time holds no quote and no backslash.\<close>

lemma strftime_plain: "set (strftime_seconds t) \<subseteq> {c. is_digit c} \<union> {CHR ''-'', CHR ''T'', CHR '':''}"
proof -
  have "set (fixed_digits k x) \<subseteq> {c. is_digit c}" for k x
    using fixed_digits_digits [of k x] by (auto simp: list_all_iff)
  then show ?thesis by (auto simp: strftime_seconds_def Let_def split: prod.splits)
qed

end
