(* ===== verification/Client_Registration.thy ===== *)
theory Client_Registration
  imports Http_Client Py_Url Py_Format
begin

text \<open>
  MCP client registration, \<open>app/identity/client_registration\<close>: fetching a client's metadata document from
  the URL that is its identifier (with the guard against requests to internal hosts), registering the
  client with the identity provider, and the cache of registered clients. Parameters: the HTTP client,
  name resolution, the classification of addresses and the validation of the two models.
\<close>

section \<open>Models and environment\<close>

record client_metadata =
  cm_redirect_uris :: "string list"
  cm_client_name :: string
  cm_scope :: "string option"
  cm_grant_types :: "string list option"
  cm_token_endpoint_auth_method :: "string option"
  cm_logo_uri :: "string option"
  cm_contacts :: "string list option"

record registered_client =
  rc_client_id :: string
  rc_client_secret :: string
  rc_redirect_uris :: "string list"

text \<open>An address of the \<open>ipaddress\<close> module with the properties the guard asks for.\<close>

record ip_info =
  is_private :: bool
  is_loopback :: bool
  is_link_local :: bool
  is_reserved :: bool
  is_multicast :: bool
  is_unspecified :: bool

record meta_response =
  mr_response :: http_response
  mr_content_type :: "string option"

record 's registration_env =
  re_resolve :: "string \<Rightarrow> ('s, string list) prog"
  re_ip_address :: "string \<Rightarrow> ip_info res"
  re_bracket_ok :: "string \<Rightarrow> bool"
  re_get :: "string \<Rightarrow> ('s, meta_response) prog"
  re_post_json :: "string \<Rightarrow> json \<Rightarrow> headers \<Rightarrow> ('s, http_response) prog"
  re_raise_for_status :: "http_response \<Rightarrow> unit res"
  re_metadata :: "json \<Rightarrow> client_metadata res"
  re_registered :: "json \<Rightarrow> json \<Rightarrow> string list \<Rightarrow> registered_client res"
  re_load :: "string \<Rightarrow> registered_client res"
  re_dump :: "registered_client \<Rightarrow> string"
  re_str :: "exn \<Rightarrow> string"

record registration_settings =
  rs_dcr_endpoint :: string
  rs_dcr_token :: string
  rs_registry_ttl :: int

section \<open>Fetching metadata\<close>

definition non_public :: "ip_info \<Rightarrow> bool" where
  "non_public a \<longleftrightarrow> is_private a \<or> is_loopback a \<or> is_link_local a \<or> is_reserved a \<or> is_multicast a \<or> is_unspecified a"

fun check_addresses :: "(string \<Rightarrow> ip_info res) \<Rightarrow> string list \<Rightarrow> unit res" where
  "check_addresses ip [] = Inr ()"
| "check_addresses ip (a # as) = bind_res (ip a) (\<lambda>addr.
     if non_public addr then Inl (ClientMetadataValidationError ''host resolves to a non-public address'')
     else check_addresses ip as)"

definition assert_public_host :: "'s registration_env \<Rightarrow> string \<Rightarrow> ('s, unit) prog" where
  "assert_public_host E host =
     bindM (tryM (re_resolve E host)
        (\<lambda>e. if e = OSError then raise (ClientMetadataValidationError (''cannot resolve host '' @ repr_string host)) else raise e)) (\<lambda>ips.
     if ips = [] then raise (ClientMetadataValidationError (''cannot resolve host '' @ repr_string host))
     else lift_res (check_addresses (re_ip_address E) ips))"

text \<open>The checks on the URL that come before any request.\<close>

definition check_metadata_url :: "'s registration_env \<Rightarrow> bool \<Rightarrow> string \<Rightarrow> ('s, unit) prog" where
  "check_metadata_url E allow_http url =
     bindM (lift_res (urlparse (re_bracket_ok E) url)) (\<lambda>parsed.
     if url_scheme parsed = ''http'' \<and> \<not> allow_http then raise (ClientMetadataValidationError ''https_required'')
     else if url_scheme parsed \<notin> {''http'', ''https''} then raise (ClientMetadataValidationError ''URL must use http or https scheme'')
     else case url_hostname parsed of
       None \<Rightarrow> raise (ClientMetadataValidationError ''URL must include a host'')
     | Some host \<Rightarrow> if \<not> allow_http then assert_public_host E host else ret ())"

definition fetch_document :: "'s registration_env \<Rightarrow> string \<Rightarrow> ('s, meta_response) prog" where
  "fetch_document E url =
     tryM (bindM (re_get E url) (\<lambda>resp. bindM (lift_res (re_raise_for_status E (mr_response resp))) (\<lambda>_. ret resp)))
       (\<lambda>e. if is_http_error e then raise ClientMetadataFetchError else raise e)"

definition truthy_key :: "json \<Rightarrow> string \<Rightarrow> bool res" where
  "truthy_key data k = bind_res (j_get data k) (\<lambda>v. Inr (case v of None \<Rightarrow> False | Some x \<Rightarrow> truthy x))"

definition read_metadata :: "'s registration_env \<Rightarrow> meta_response \<Rightarrow> client_metadata res" where
  "read_metadata E resp =
     (let content_type = (case mr_content_type resp of None \<Rightarrow> [] | Some t \<Rightarrow> t) in
      if \<not> str_in ''application/json'' content_type
      then Inl (ClientMetadataValidationError (''Expected content-type application/json, got '' @ repr_string content_type))
      else bind_res (case resp_json (mr_response resp) of
             Inl e \<Rightarrow> if is_value_error e then Inl (ClientMetadataValidationError ''Invalid JSON in metadata document'') else Inl e
           | Inr d \<Rightarrow> Inr d) (\<lambda>data.
        bind_res (truthy_key data ''redirect_uris'') (\<lambda>has_uris.
        if \<not> has_uris then Inl (ClientMetadataValidationError ''redirect_uris is required and must be non-empty'')
        else bind_res (truthy_key data ''client_name'') (\<lambda>has_name.
        if \<not> has_name then Inl (ClientMetadataValidationError ''client_name is required'')
        else (case re_metadata E data of
             Inl (ValidationError loc msg) \<Rightarrow> Inl (ClientMetadataValidationError (''Invalid metadata document: '' @ re_str E (ValidationError loc msg)))
           | r \<Rightarrow> r)))))"

definition fetch_client_metadata :: "'s registration_env \<Rightarrow> bool \<Rightarrow> string \<Rightarrow> ('s, client_metadata) prog" where
  "fetch_client_metadata E allow_http url =
     bindM (check_metadata_url E allow_http url) (\<lambda>_.
     bindM (fetch_document E url) (\<lambda>resp.
       lift_res (read_metadata E resp)))"

section \<open>Registration\<close>

definition list_json :: "string list \<Rightarrow> json" where
  "list_json xs = JArr (map JStr xs)"

definition dcr_payload :: "client_metadata \<Rightarrow> json" where
  "dcr_payload m = JObj
     ([(''redirect_uris'', list_json (cm_redirect_uris m)), (''client_name'', JStr (cm_client_name m))]
    @ (case cm_grant_types m of None \<Rightarrow> [] | Some gs \<Rightarrow> if gs = [] then [] else [(''grant_types'', list_json gs)])
    @ (if truthy_opt (cm_scope m) then [(''scope'', JStr (the (cm_scope m)))] else [])
    @ (if truthy_opt (cm_token_endpoint_auth_method m) then [(''token_endpoint_auth_method'', JStr (the (cm_token_endpoint_auth_method m)))] else []))"

definition enroll_mcp_client :: "'s registration_env \<Rightarrow> registration_settings \<Rightarrow> client_metadata \<Rightarrow> ('s, registered_client) prog" where
  "enroll_mcp_client E cfg metadata =
     bindM (tryM (bindM (re_post_json E (rs_dcr_endpoint cfg) (dcr_payload metadata) [(''Authorization'', ''Bearer '' @ rs_dcr_token cfg)]) (\<lambda>resp.
              bindM (lift_res (re_raise_for_status E resp)) (\<lambda>_. ret resp)))
           (\<lambda>e. if is_http_error e then raise DcrRegistrationError else raise e)) (\<lambda>resp.
     bindM (lift_res (resp_json resp)) (\<lambda>data.
     bindM (lift_res (j_item data ''client_id'')) (\<lambda>client_id.
     bindM (lift_res (j_item data ''client_secret'')) (\<lambda>client_secret.
       lift_res (re_registered E client_id client_secret (cm_redirect_uris metadata))))))"

section \<open>The cache\<close>

definition repository_get :: "'s registration_env \<Rightarrow> 's store \<Rightarrow> string \<Rightarrow> ('s, registered_client option) prog" where
  "repository_get E S metadata_url = bindM (st_get S metadata_url) (\<lambda>value. case value of
     None \<Rightarrow> ret None
   | Some v \<Rightarrow> (case re_load E v of
       Inl (ValidationError _ _) \<Rightarrow> ret None | Inl e \<Rightarrow> raise e | Inr c \<Rightarrow> ret (Some c)))"

definition repository_set :: "'s registration_env \<Rightarrow> registration_settings \<Rightarrow> 's store \<Rightarrow> string \<Rightarrow> registered_client \<Rightarrow> ('s, unit) prog" where
  "repository_set E cfg S metadata_url result = st_set S metadata_url (re_dump E result) (Some (rs_registry_ttl cfg))"

section \<open>What the code relies on\<close>

text \<open>
  \<open>fetched\<close> logs the URLs that documents were requested from. Only such a request adds to the log. The validated
  models are what they were given: the registered client has the redirect URIs it was made with, and
  reading back a stored one gives the same.
\<close>

locale registration =
  fixes E :: "'s registration_env" and fetched :: "'s \<Rightarrow> string list"
  assumes get_fetched: "re_get E url s = (r, s') \<Longrightarrow> fetched s' = fetched s @ [url]"
    and resolve_fetched: "re_resolve E host s = (q, s') \<Longrightarrow> fetched s' = fetched s"
    and registered_uris: "re_registered E i k uris = Inr c \<Longrightarrow> rc_redirect_uris c = uris"
    and load_dump: "re_load E (re_dump E c) = Inr c"

lemma check_addresses_ok: "check_addresses ip as = Inr () \<longleftrightarrow> (\<forall>a \<in> set as. \<exists>info. ip a = Inr info \<and> \<not> non_public info)"
  by (induction as) (auto simp: bind_res_def split: sum.splits)

text \<open>A URL that a document may be requested from: https, and every address of its host is public.\<close>

definition public_url :: "'s registration_env \<Rightarrow> string \<Rightarrow> 's \<Rightarrow> bool" where
  "public_url E url s \<longleftrightarrow> (\<exists>parsed host ips s1. urlparse (re_bracket_ok E) url = Inr parsed \<and> url_scheme parsed = ''https''
     \<and> url_hostname parsed = Some host \<and> re_resolve E host s = (Inr ips, s1) \<and> ips \<noteq> []
     \<and> (\<forall>a \<in> set ips. \<exists>info. re_ip_address E a = Inr info \<and> \<not> non_public info))"

context registration
begin

lemma assert_public_host_run:
  assumes "assert_public_host E host s = (r, s')"
  shows "fetched s' = fetched s"
    and "r = Inr () \<Longrightarrow> \<exists>ips. re_resolve E host s = (Inr ips, s') \<and> ips \<noteq> [] \<and> (\<forall>a \<in> set ips. \<exists>info. re_ip_address E a = Inr info \<and> \<not> non_public info)"
proof -
  obtain q s1 where res: "re_resolve E host s = (q, s1)" by (cases "re_resolve E host s")
  show "fetched s' = fetched s"
    using assms res resolve_fetched [OF res] by (auto simp: assert_public_host_def bindM_def tryM_def split: sum.splits if_splits)
  assume "r = Inr ()"
  then show "\<exists>ips. re_resolve E host s = (Inr ips, s') \<and> ips \<noteq> [] \<and> (\<forall>a \<in> set ips. \<exists>info. re_ip_address E a = Inr info \<and> \<not> non_public info)"
    using assms res by (auto simp: assert_public_host_def bindM_def tryM_def check_addresses_ok split: sum.splits if_splits)
qed

lemma check_metadata_url_run:
  assumes "check_metadata_url E False url s = (r, s')"
  shows "fetched s' = fetched s" and "r = Inr () \<Longrightarrow> public_url E url s"
proof -
  show "fetched s' = fetched s"
    using assms assert_public_host_run(1)
    by (auto simp: check_metadata_url_def bindM_def split: sum.splits option.splits if_splits)
  assume r: "r = Inr ()"
  with assms obtain parsed host where "urlparse (re_bracket_ok E) url = Inr parsed" "url_scheme parsed = ''https''" "url_hostname parsed = Some host"
    "assert_public_host E host s = (Inr (), s')"
    by (auto simp: check_metadata_url_def bindM_def split: sum.splits option.splits if_splits)
  then show "public_url E url s" using assert_public_host_run(2) unfolding public_url_def by blast
qed

lemma fetch_document_fetched: "fetched (snd (fetch_document E url s)) = fetched s @ [url]"
proof -
  obtain r s1 where get: "re_get E url s = (r, s1)" by (cases "re_get E url s")
  with get_fetched [OF get] show ?thesis
    by (auto simp: fetch_document_def bindM_def tryM_def split: sum.splits if_splits)
qed

lemma fetch_metadata_fetched:
  assumes "fetch_client_metadata E False url s = (r, s')"
  shows "fetched s' = fetched s \<or> (fetched s' = fetched s @ [url] \<and> public_url E url s)"
proof -
  obtain q s1 where c: "check_metadata_url E False url s = (q, s1)" by (cases "check_metadata_url E False url s")
  note run = check_metadata_url_run [OF c]
  show ?thesis
  proof (cases q)
    case (Inl e)
    with assms c run(1) show ?thesis by (simp add: fetch_client_metadata_def bindM_def)
  next
    case (Inr u)
    with assms c have "s' = snd (fetch_document E url s1)"
      by (auto simp: fetch_client_metadata_def bindM_def split: prod.splits sum.splits)
    then show ?thesis using fetch_document_fetched [of url s1] run Inr by simp
  qed
qed

end

end
