(* ===== verification/Authorization.thy ===== *)
theory Authorization
  imports Client_Registration
begin

text \<open>
  The authorization endpoint: \<open>app/authorization/pkce.py\<close>, \<open>app/authorization/router.py\<close>, and the two metadata
  documents (\<open>app/authorization/router.py\<close>, \<open>app/identity/protected_resource.py\<close>). Composing the
  redirect target from a URL and its parameters (httpx) is a parameter.
\<close>

section \<open>PKCE\<close>

definition validate_pkce_params :: "string option \<Rightarrow> string option \<Rightarrow> unit res" where
  "validate_pkce_params code_challenge code_challenge_method =
     (if \<not> truthy_opt code_challenge then Inl (ValueError ''code_challenge is required'')
      else if \<not> truthy_opt code_challenge_method then Inl (ValueError ''code_challenge_method is required'')
      else if str_upper (the code_challenge_method) \<noteq> ''S256'' then Inl (ValueError ''only S256 is supported'')
      else if \<not> (length (the code_challenge) = 43 \<and> list_all is_b64url (the code_challenge))
      then Inl (ValueError ''code_challenge must be URL-safe base64'')
      else case urlsafe_b64decode (the code_challenge @ ''='') of
          Inl e \<Rightarrow> if is_value_error e then Inl (ValueError ''code_challenge must be URL-safe base64'') else Inl e
        | Inr _ \<Rightarrow> Inr ())"

section \<open>The endpoint\<close>

record auth_config =
  ac_issuer :: string
  ac_base :: string
  ac_audience :: string
  ac_debug :: bool
  ac_registration :: registration_settings

definition is_url :: "(string \<Rightarrow> bool) \<Rightarrow> string \<Rightarrow> bool res" where
  "is_url bracket_ok value = bind_res (urlparse bracket_ok value) (\<lambda>parsed.
     Inr (url_scheme parsed \<in> {''http'', ''https''} \<and> url_netloc parsed \<noteq> []))"

definition error_response :: "string \<Rightarrow> string \<Rightarrow> response" where
  "error_response error description = JSONResponse 400
     (JObj ((''error'', JStr error) # (if description = [] then [] else [(''error_description'', JStr description)]))) []"

text \<open>\<open>str(exc)\<close> of a \<open>ValueError\<close> is its message.\<close>

definition value_error_text :: "exn \<Rightarrow> string" where
  "value_error_text e = (case e of ValueError m \<Rightarrow> m | _ \<Rightarrow> [])"

definition authorize_params_valid :: "(string, string) dict \<Rightarrow> bool \<times> string" where
  "authorize_params_valid params =
     (if \<not> truthy_opt (dict_get params ''client_id'') then (False, ''client_id is required'')
      else if dict_get params ''response_type'' \<noteq> Some ''code'' then (False, ''response_type must be code'')
      else if \<not> truthy_opt (dict_get params ''redirect_uri'') then (False, ''redirect_uri is required'')
      else if \<not> truthy_opt (dict_get params ''state'') then (False, ''state is required'')
      else case validate_pkce_params (dict_get params ''code_challenge'') (dict_get params ''code_challenge_method'') of
          Inl e \<Rightarrow> (False, value_error_text e) | Inr _ \<Rightarrow> (True, []))"

definition oauth_authorization_server_metadata :: "auth_config \<Rightarrow> response" where
  "oauth_authorization_server_metadata cfg = JSONResponse 200 (JObj
     [(''issuer'', JStr (ac_base cfg)),
      (''authorization_endpoint'', JStr (ac_base cfg @ ''/oauth/authorize'')),
      (''token_endpoint'', JStr (ac_issuer cfg @ ''/protocol/openid-connect/token'')),
      (''jwks_uri'', JStr (ac_issuer cfg @ ''/protocol/openid-connect/certs'')),
      (''response_types_supported'', JArr [JStr ''code'']),
      (''grant_types_supported'', JArr [JStr ''authorization_code'', JStr ''client_credentials'']),
      (''code_challenge_methods_supported'', JArr [JStr ''S256'']),
      (''token_endpoint_auth_methods_supported'', JArr [JStr ''client_secret_basic'', JStr ''client_secret_post''])]) []"

definition scopes_supported :: "string list" where
  "scopes_supported = [''mcp:google:read'', ''mcp:slack:read'', ''mcp:admin:read'']"

definition oauth_protected_resource_metadata :: "auth_config \<Rightarrow> response" where
  "oauth_protected_resource_metadata cfg = JSONResponse 200 (JObj
     [(''resource'', JStr (ac_audience cfg)), (''authorization_servers'', JArr [JStr (ac_base cfg)]),
      (''scopes_supported'', JArr (map JStr scopes_supported))]) []"

definition RedirectResponse :: "string \<Rightarrow> response" where
  "RedirectResponse target = \<lparr>rp_status = 302, rp_headers = [(''location'', target)], rp_body = JNull\<rparr>"

text \<open>
  The client behind a URL: from the cache or, after fetching its metadata, newly registered. On the left the
  response that ends the request, on the right the parameters with the client id of the registration.
\<close>

definition resolve_client :: "'s registration_env \<Rightarrow> auth_config \<Rightarrow> 's store \<Rightarrow> (string, string) dict \<Rightarrow> string \<Rightarrow> string
    \<Rightarrow> ('s, response + (string, string) dict) prog" where
  "resolve_client E cfg registry params client_id redirect_uri =
     bindM (repository_get E registry client_id) (\<lambda>cached. case cached of
       None \<Rightarrow>
         bindM (fetch_client_metadata E (ac_debug cfg) client_id) (\<lambda>metadata.
         if redirect_uri \<notin> set (cm_redirect_uris metadata)
         then ret (Inl (error_response ''invalid_request'' ''redirect_uri_not_in_metadata''))
         else bindM (enroll_mcp_client E (ac_registration cfg) metadata) (\<lambda>registered.
              bindM (repository_set E (ac_registration cfg) registry client_id registered) (\<lambda>_.
                ret (Inr (dict_set ''client_id'' (rc_client_id registered) params)))))
     | Some c \<Rightarrow>
         if redirect_uri \<notin> set (rc_redirect_uris c)
         then ret (Inl (error_response ''invalid_request'' ''redirect_uri_not_in_metadata''))
         else ret (Inr (dict_set ''client_id'' (rc_client_id c) params)))"

definition registration_error :: "exn \<Rightarrow> response res" where
  "registration_error e = (case e of
     ClientMetadataFetchError \<Rightarrow> Inr (error_response ''invalid_client'' ''metadata_fetch_failed'')
   | ClientMetadataValidationError msg \<Rightarrow>
       Inr (error_response ''invalid_client'' (if str_in ''https_required'' msg then ''https_required'' else ''invalid_metadata''))
   | DcrRegistrationError \<Rightarrow> Inr (error_response ''server_error'' ''registration_failed'')
   | _ \<Rightarrow> Inl e)"

definition authorize :: "'s registration_env \<Rightarrow> auth_config \<Rightarrow> 's store \<Rightarrow> (string \<Rightarrow> (string, string) dict \<Rightarrow> string) \<Rightarrow> 's app" where
  "authorize E cfg registry with_params request =
     (let params = rq_query request;
          client_id = dict_get_default params ''client_id'' [];
          redirect_uri = dict_get_default params ''redirect_uri'' [];
          (ok, description) = authorize_params_valid params in
      if \<not> ok then ret (error_response ''invalid_request'' description)
      else bindM (lift_res (is_url (re_bracket_ok E) client_id)) (\<lambda>url.
           bindM (if url then tryM (resolve_client E cfg registry params client_id redirect_uri)
                     (\<lambda>e. lift_res (bind_res (registration_error e) (\<lambda>rp. Inr (Inl rp))))
                  else ret (Inr params)) (\<lambda>outcome. case outcome of
             Inl response \<Rightarrow> ret response
           | Inr params' \<Rightarrow> ret (RedirectResponse (with_params (ac_issuer cfg @ ''/protocol/openid-connect/auth'') params')))))"

section \<open>PKCE, exactly\<close>

lemma decode_43: "length c = 43 \<Longrightarrow> list_all is_b64url c \<Longrightarrow> \<exists>r. urlsafe_b64decode (c @ ''='') = Inr r \<and> length r = 32"
  using a2b_full [of c 0 0 0] by (simp add: urlsafe_b64decode_def urlsafe_char_def)

text \<open>An upper-cased character is a single one, unless it is the sharp s.\<close>

lemma char_eq_code: "c = d \<longleftrightarrow> code_point c = code_point d"
  by (simp add: code_point_def)

lemma upper_char_cases: "case upper_char c of [d] \<Rightarrow> (d = CHR ''S'' \<longleftrightarrow> c = CHR ''S'' \<or> c = CHR ''s'')
    \<and> (d = CHR ''2'' \<longleftrightarrow> c = CHR ''2'') \<and> (d = CHR ''5'' \<longleftrightarrow> c = CHR ''5'') \<and> (d = CHR ''6'' \<longleftrightarrow> c = CHR ''6'') | _ \<Rightarrow> upper_char c = ''SS''"
proof -
  define n where "n = code_point c"
  have points: "code_point (CHR ''S'') = 83" "code_point (CHR ''s'') = 115" "code_point (CHR ''2'') = 50" "code_point (CHR ''5'') = 53" "code_point (CHR ''6'') = 54"
    by (simp_all add: code_point_def)
  have "n < 256" by (simp add: n_def code_point_def)
  then have down: "code_point (char_of (n - 32)) = n - 32" by (simp add: code_point_def)
  show ?thesis
  proof (cases "(97 \<le> n \<and> n \<le> 122) \<or> (224 \<le> n \<and> n \<le> 254 \<and> n \<noteq> 247)")
    case True
    then have up: "upper_char c = [char_of (n - 32)]" by (simp add: upper_char_def n_def Let_def)
    have eq: "char_of (n - 32) = d \<longleftrightarrow> n - 32 = code_point d" "c = d \<longleftrightarrow> n = code_point d" for d
      using char_eq_code [of _ d] by (metis down, simp add: n_def)
    show ?thesis unfolding up list.case eq points using True by auto
  next
    case False
    then show ?thesis by (auto simp: upper_char_def n_def [symmetric] Let_def char_eq_code [of c] points)
  qed
qed

lemma upper_cons: "str_upper (c # s) = upper_char c @ str_upper s"
  by (simp add: str_upper_def)

lemma upper_first:
  assumes "str_upper s = d # ds" "d \<in> {CHR ''S'', CHR ''2'', CHR ''5'', CHR ''6''}" "ds = [] \<or> hd ds \<noteq> CHR ''S''"
  shows "\<exists>c s'. s = c # s' \<and> upper_char c = [d] \<and> str_upper s' = ds"
proof (cases s)
  case Nil
  then show ?thesis using assms(1) by (simp add: str_upper_def)
next
  case (Cons c s')
  show ?thesis
  proof (cases "upper_char c = ''SS''")
    case True
    then show ?thesis using assms Cons by (auto simp: upper_cons)
  next
    case False
    then obtain x where "upper_char c = [x]" using upper_char_cases [of c] by (auto split: list.splits)
    then show ?thesis using assms(1) Cons by (simp add: upper_cons)
  qed
qed

lemma upper_S256: "str_upper m = ''S256'' \<longleftrightarrow> m = ''S256'' \<or> m = ''s256''"
proof
  assume "str_upper m = ''S256''"
  then obtain a m1 where a: "m = a # m1" "upper_char a = ''S''" "str_upper m1 = ''256''" using upper_first [of m "CHR ''S''" "''256''"] by auto
  obtain b m2 where b: "m1 = b # m2" "upper_char b = ''2''" "str_upper m2 = ''56''" using upper_first [OF a(3)] by auto
  obtain c m3 where c: "m2 = c # m3" "upper_char c = ''5''" "str_upper m3 = ''6''" using upper_first [OF b(3)] by auto
  obtain d m4 where d: "m3 = d # m4" "upper_char d = ''6''" "str_upper m4 = []" using upper_first [OF c(3)] by auto
  have "m4 = []"
  proof (cases m4)
    case (Cons e m5)
    then show ?thesis using d(3) upper_char_cases [of e] by (auto simp: upper_cons split: list.splits)
  qed simp
  then show "m = ''S256'' \<or> m = ''s256''"
    using a b c d upper_char_cases [of a] upper_char_cases [of b] upper_char_cases [of c] upper_char_cases [of d] by simp
next
  have "str_upper ''S256'' = ''S256''" "str_upper ''s256'' = ''S256''" by code_simp+
  then show "m = ''S256'' \<or> m = ''s256'' \<Longrightarrow> str_upper m = ''S256''" by auto
qed

lemma pkce_ok: "validate_pkce_params cc m = Inr () \<longleftrightarrow>
    (\<exists>c. cc = Some c \<and> length c = 43 \<and> list_all is_b64url c) \<and> (m = Some ''S256'' \<or> m = Some ''s256'')"
proof -
  have "truthy_opt cc" if "length (the cc) = 43" "cc \<noteq> None" using that by (auto simp: truthy_opt_def)
  moreover have "truthy_opt m" if "str_upper (the m) = ''S256''" "m \<noteq> None" using that by (auto simp: truthy_opt_def str_upper_def)
  ultimately show ?thesis
    using decode_43 [of "the cc"] by (cases cc; cases m) (auto simp: validate_pkce_params_def upper_S256 split: sum.splits)
qed

section \<open>When the endpoint redirects\<close>

text \<open>A request that OAuth 2.1 allows to be redirected: client, code flow, redirect URI, state, and PKCE with S256.\<close>

definition sound_request :: "(string, string) dict \<Rightarrow> bool" where
  "sound_request params \<longleftrightarrow> truthy_opt (dict_get params ''client_id'') \<and> dict_get params ''response_type'' = Some ''code''
     \<and> truthy_opt (dict_get params ''redirect_uri'') \<and> truthy_opt (dict_get params ''state'')
     \<and> (\<exists>c. dict_get params ''code_challenge'' = Some c \<and> length c = 43 \<and> list_all is_b64url c)
     \<and> (dict_get params ''code_challenge_method'' = Some ''S256'' \<or> dict_get params ''code_challenge_method'' = Some ''s256'')"

lemma params_valid_iff: "fst (authorize_params_valid params) \<longleftrightarrow> sound_request params"
proof -
  have "fst (authorize_params_valid params) \<longleftrightarrow> truthy_opt (dict_get params ''client_id'') \<and> dict_get params ''response_type'' = Some ''code''
     \<and> truthy_opt (dict_get params ''redirect_uri'') \<and> truthy_opt (dict_get params ''state'')
     \<and> validate_pkce_params (dict_get params ''code_challenge'') (dict_get params ''code_challenge_method'') = Inr ()"
    by (auto simp: authorize_params_valid_def split: sum.splits)
  then show ?thesis unfolding pkce_ok sound_request_def by blast
qed

text \<open>The client of a URL: read from the cache, or registered from metadata that were just fetched.\<close>

definition client_of :: "'s registration_env \<Rightarrow> auth_config \<Rightarrow> 's store \<Rightarrow> string \<Rightarrow> 's \<Rightarrow> registered_client \<Rightarrow> bool" where
  "client_of E cfg registry url s c \<longleftrightarrow>
     (\<exists>v s1. st_get registry url s = (Inr (Some v), s1) \<and> re_load E v = Inr c)
   \<or> (\<exists>m s1 s2 s3. fetch_client_metadata E (ac_debug cfg) url s1 = (Inr m, s2) \<and> enroll_mcp_client E (ac_registration cfg) m s2 = (Inr c, s3))"

lemma enroll_uris:
  assumes "registration E fetched" "enroll_mcp_client E cfg m s = (Inr c, s')"
  shows "rc_redirect_uris c = cm_redirect_uris m"
  using assms(2) registration.registered_uris [OF assms(1)] unfolding enroll_mcp_client_def by (auto elim!: bindM_InrE)

lemma resolve_client_Inr:
  assumes reg: "registration E fetched" and run: "resolve_client E cfg registry params url uri s = (Inr out, s')"
  shows "(\<exists>d. out = Inl (error_response ''invalid_request'' d))
    \<or> (\<exists>c. out = Inr (dict_set ''client_id'' (rc_client_id c) params) \<and> uri \<in> set (rc_redirect_uris c) \<and> client_of E cfg registry url s c)"
proof -
  from run obtain cached s1 where get: "repository_get E registry url s = (Inr cached, s1)"
    and rest: "(case cached of None \<Rightarrow> bindM (fetch_client_metadata E (ac_debug cfg) url) (\<lambda>metadata.
         if uri \<notin> set (cm_redirect_uris metadata) then ret (Inl (error_response ''invalid_request'' ''redirect_uri_not_in_metadata''))
         else bindM (enroll_mcp_client E (ac_registration cfg) metadata) (\<lambda>registered.
              bindM (repository_set E (ac_registration cfg) registry url registered) (\<lambda>_.
                ret (Inr (dict_set ''client_id'' (rc_client_id registered) params)))))
     | Some c \<Rightarrow> if uri \<notin> set (rc_redirect_uris c) then ret (Inl (error_response ''invalid_request'' ''redirect_uri_not_in_metadata''))
         else ret (Inr (dict_set ''client_id'' (rc_client_id c) params))) s1 = (Inr out, s')"
    unfolding resolve_client_def by (elim bindM_InrE)
  show ?thesis
  proof (cases cached)
    case None
    with rest obtain m s2 where m: "fetch_client_metadata E (ac_debug cfg) url s1 = (Inr m, s2)"
      and rest2: "(if uri \<notin> set (cm_redirect_uris m) then ret (Inl (error_response ''invalid_request'' ''redirect_uri_not_in_metadata''))
         else bindM (enroll_mcp_client E (ac_registration cfg) m) (\<lambda>registered. bindM (repository_set E (ac_registration cfg) registry url registered) (\<lambda>_.
                ret (Inr (dict_set ''client_id'' (rc_client_id registered) params))))) s2 = (Inr out, s')"
      by (simp only: option.case) (elim bindM_InrE)
    show ?thesis
    proof (cases "uri \<in> set (cm_redirect_uris m)")
      case True
      with rest2 obtain c s3 where c: "enroll_mcp_client E (ac_registration cfg) m s2 = (Inr c, s3)" and out: "out = Inr (dict_set ''client_id'' (rc_client_id c) params)"
        by (auto elim!: bindM_InrE)
      with True m enroll_uris [OF reg c] show ?thesis unfolding client_of_def by metis
    qed (use rest2 in auto)
  next
    case (Some c)
    with get have "\<exists>v s2. st_get registry url s = (Inr (Some v), s2) \<and> re_load E v = Inr c"
      unfolding repository_get_def by (auto elim!: bindM_InrE split: option.splits sum.splits exn.splits)
    with rest Some show ?thesis unfolding client_of_def by (auto split: if_splits)
  qed
qed

section \<open>Properties\<close>


text \<open>A client given by a URL: the request ends with an error, or goes on with a registered redirect URI.\<close>

lemma resolve_or_error:
  assumes "registration E fetched"
    and run: "tryM (resolve_client E cfg registry params url uri) (\<lambda>e. lift_res (bind_res (registration_error e) (\<lambda>rp. Inr (Inl rp)))) s = (Inr out, s')"
  shows "(\<exists>rp. out = Inl rp \<and> rp_status rp = 400 \<and> rp_headers rp = [])
    \<or> (\<exists>c. out = Inr (dict_set ''client_id'' (rc_client_id c) params) \<and> uri \<in> set (rc_redirect_uris c) \<and> client_of E cfg registry url s c)"
proof (cases "resolve_client E cfg registry params url uri s")
  case (Pair q s2)
  show ?thesis
  proof (cases q)
    case (Inl e)
    with run Pair obtain rp' where "registration_error e = Inr rp'" "out = Inl rp'"
      by (auto simp: tryM_def bind_res_def split: sum.splits)
    then show ?thesis by (auto simp: registration_error_def error_response_def split: exn.splits)
  next
    case (Inr x)
    then have "out = x" "resolve_client E cfg registry params url uri s = (Inr x, s2)" using run Pair by (simp_all add: tryM_def)
    with resolve_client_Inr [OF assms(1) this(2)] show ?thesis by (auto simp: error_response_def)
  qed
qed

text \<open>
  C6: no open redirect. An answer of the endpoint is a local error without a location header, or a redirect
  to the authorization page of the configured issuer, never to an address of the request. It
  redirects only requests with a client, the code flow, a redirect URI, a state and PKCE; and when the client is given
  by a URL, only if the redirect URI is among those registered for this client, in the cache as well as
  after a new registration, and with the registered client id in place of the URL.
\<close>

theorem authorize_redirects_safely:
  assumes "registration E fetched" "authorize E cfg registry with_params rq s = (Inr rp, s')"
    and "is_url (re_bracket_ok E) (dict_get_default (rq_query rq) ''client_id'' []) = Inr url_client"
  shows "(rp_status rp = 400 \<and> rp_headers rp = [])
    \<or> (sound_request (rq_query rq) \<and> (\<exists>params'. rp = RedirectResponse (with_params (ac_issuer cfg @ ''/protocol/openid-connect/auth'') params')
        \<and> (if url_client
           then \<exists>c. client_of E cfg registry (dict_get_default (rq_query rq) ''client_id'' []) s c
              \<and> dict_get_default (rq_query rq) ''redirect_uri'' [] \<in> set (rc_redirect_uris c)
              \<and> params' = dict_set ''client_id'' (rc_client_id c) (rq_query rq)
           else params' = rq_query rq)))"
proof (cases "sound_request (rq_query rq)")
  case False
  then have "\<not> fst (authorize_params_valid (rq_query rq))" by (simp add: params_valid_iff)
  then show ?thesis using assms(2) by (auto simp: authorize_def Let_def error_response_def split: prod.splits)
next
  case True
  let ?id = "dict_get_default (rq_query rq) ''client_id'' []" and ?uri = "dict_get_default (rq_query rq) ''redirect_uri'' []"
  let ?auth = "ac_issuer cfg @ ''/protocol/openid-connect/auth''"
  obtain d where ok: "authorize_params_valid (rq_query rq) = (True, d)" using True params_valid_iff by (metis prod.collapse)
  show ?thesis
  proof (cases url_client)
    case False
    with assms(2,3) ok True show ?thesis by (auto simp: authorize_def Let_def bindM_def)
  next
    case url: True
    obtain out s1 where run: "tryM (resolve_client E cfg registry (rq_query rq) ?id ?uri)
        (\<lambda>e. lift_res (bind_res (registration_error e) (\<lambda>rp. Inr (Inl rp)))) s = (Inr out, s1)"
      and rp: "(case out of Inl response \<Rightarrow> ret response | Inr params' \<Rightarrow> ret (RedirectResponse (with_params ?auth params'))) s1 = (Inr rp, s')"
      using assms(2,3) ok url by (auto simp: authorize_def Let_def bindM_def split: prod.splits sum.splits)
    from resolve_or_error [OF assms(1) run] show ?thesis using rp url True by auto
  qed
qed

text \<open>
  C17: no request forgery. In production a metadata document is requested only from an https URL whose host
  resolves, and only if every address it resolves to is public (not private, loopback, link-local,
  reserved, multicast or unspecified); otherwise nothing is sent.
\<close>

theorem metadata_fetch_is_public:
  assumes "registration E fetched" "fetch_client_metadata E False url s = (r, s')"
  shows "fetched s' = fetched s \<or> (fetched s' = fetched s @ [url] \<and> public_url E url s)"
  by (rule registration.fetch_metadata_fetched [OF assms])

section \<open>Witnesses\<close>

definition sample_ip :: "string \<Rightarrow> ip_info" where
  "sample_ip a = \<lparr>is_private = prefix ''10.'' a, is_loopback = prefix ''127.'' a, is_link_local = prefix ''169.254.'' a,
     is_reserved = False, is_multicast = False, is_unspecified = False\<rparr>"

definition sample_dump :: "registered_client \<Rightarrow> json" where
  "sample_dump c = JObj [(''client_id'', JStr (rc_client_id c)), (''client_secret'', JStr (rc_client_secret c)), (''redirect_uris'', list_json (rc_redirect_uris c))]"

definition strings_of :: "json list \<Rightarrow> string list" where
  "strings_of js = concat (map (\<lambda>j. case j of JStr u \<Rightarrow> [u] | _ \<Rightarrow> []) js)"

definition sample_load :: "string \<Rightarrow> registered_client res" where
  "sample_load v = (case loads v of Inr (JObj [(_, JStr i), (_, JStr k), (_, JArr us)]) \<Rightarrow>
       Inr \<lparr>rc_client_id = i, rc_client_secret = k, rc_redirect_uris = strings_of us\<rparr> | _ \<Rightarrow> Inl (ValidationError [] []))"

definition sample_registration :: "string list registration_env" where
  "sample_registration = \<lparr>re_resolve = (\<lambda>host. ret (if host = ''app.example'' then [''93.184.216.34''] else [''127.0.0.1''])),
     re_ip_address = (\<lambda>a. Inr (sample_ip a)), re_bracket_ok = (\<lambda>_. True),
     re_get = (\<lambda>url s. (Inr \<lparr>mr_response = \<lparr>hs_status = 200, hs_body = []\<rparr>, mr_content_type = None\<rparr>, s @ [url])),
     re_post_json = (\<lambda>url j h. raise RequestError), re_raise_for_status = (\<lambda>_. Inr ()), re_metadata = (\<lambda>_. Inl TypeError),
     re_registered = (\<lambda>i k uris. Inr \<lparr>rc_client_id = ''c'', rc_client_secret = ''k'', rc_redirect_uris = uris\<rparr>),
     re_load = sample_load, re_dump = (\<lambda>c. dumps (sample_dump c)), re_str = (\<lambda>_. [])\<rparr>"

interpretation sample_reg: registration sample_registration "\<lambda>s. s"
proof unfold_locales
  fix c
  have "wf_json (sample_dump c)" by (simp add: sample_dump_def list_json_def list_all_iff)
  then have "loads (dumps (sample_dump c)) = Inr (sample_dump c)" by (rule loads_dumps)
  moreover have "strings_of (map JStr us) = us" for us by (induction us) (simp_all add: strings_of_def)
  ultimately show "re_load sample_registration (re_dump sample_registration c) = Inr c"
    by (simp add: sample_registration_def sample_load_def sample_dump_def list_json_def del: dumps.simps)
qed (auto simp: sample_registration_def)

definition sample_challenge :: string where
  "sample_challenge = replicate 43 (CHR ''A'')"

definition sample_params :: "string \<Rightarrow> (string, string) dict" where
  "sample_params client_id = [(''client_id'', client_id), (''response_type'', ''code''), (''redirect_uri'', ''https://app.example/cb''), (''state'', ''xyz''),
     (''code_challenge'', sample_challenge), (''code_challenge_method'', ''S256'')]"

definition sample_auth_config :: auth_config where
  "sample_auth_config = \<lparr>ac_issuer = ''https://idp'', ac_base = ''https://gw'', ac_audience = ''https://gw/mcp/'', ac_debug = False,
     ac_registration = \<lparr>rs_dcr_endpoint = ''https://idp/dcr'', rs_dcr_token = ''t'', rs_registry_ttl = 86400\<rparr>\<rparr>"

definition sample_registry :: "string list store" where
  "sample_registry = \<lparr>st_set = (\<lambda>k v t. ret ()), st_get = (\<lambda>k. ret (if k = ''https://app.example''
     then Some (dumps (sample_dump \<lparr>rc_client_id = ''c7'', rc_client_secret = ''k'', rc_redirect_uris = [''https://app.example/cb'']\<rparr>)) else None)),
     st_pop = (\<lambda>k. ret None), st_clear = ret ()\<rparr>"

abbreviation sample_query :: "string \<Rightarrow> request" where
  "sample_query client_id \<equiv> (sample_request ''/oauth/authorize'' [] None)\<lparr>rq_query := sample_params client_id\<rparr>"

theorem authorize_redirects_safely_witness:
  "\<exists>rp s'. authorize sample_registration sample_auth_config sample_registry (\<lambda>u ps. u) (sample_query ''desktop'') [] = (Inr rp, s')
    \<and> rp_status rp = 302 \<and> sound_request (sample_params ''desktop'')"
proof -
  have url: "is_url (re_bracket_ok sample_registration) (dict_get_default (rq_query (sample_query ''desktop'')) ''client_id'' []) = Inr False"
    by (simp add: sample_params_def dict_get_default_def) code_simp
  have valid: "authorize_params_valid (sample_params ''desktop'') = (True, [])" by code_simp
  then obtain rp where run: "authorize sample_registration sample_auth_config sample_registry (\<lambda>u ps. u) (sample_query ''desktop'') [] = (Inr rp, [])"
    and 302: "rp_status rp = 302"
    using url by (simp add: authorize_def Let_def bindM_def RedirectResponse_def)
  from authorize_redirects_safely [OF sample_reg.registration_axioms run url] run 302 show ?thesis by auto
qed

theorem metadata_fetch_is_public_witness:
  "fst (fetch_client_metadata sample_registration False ''https://metadata.internal/x'' []) = Inl (ClientMetadataValidationError ''host resolves to a non-public address'')
   \<and> snd (fetch_client_metadata sample_registration False ''https://app.example/x'' []) = [''https://app.example/x'']
   \<and> public_url sample_registration ''https://app.example/x'' []"
proof -
  have a: "fst (fetch_client_metadata sample_registration False ''https://metadata.internal/x'' []) = Inl (ClientMetadataValidationError ''host resolves to a non-public address'')"
    by code_simp
  have b: "snd (fetch_client_metadata sample_registration False ''https://app.example/x'' []) = [''https://app.example/x'']" by code_simp
  obtain r where "fetch_client_metadata sample_registration False ''https://app.example/x'' [] = (r, [''https://app.example/x''])" using b by (metis prod.collapse)
  from metadata_fetch_is_public [OF sample_reg.registration_axioms this] a b show ?thesis by simp
qed

end
