(* ===== verification/Upstream_Clients.thy ===== *)
theory Upstream_Clients
  imports Http_Client Py_Format
begin

text \<open>
  The Google Drive client (\<open>app/integrations/google/drive_client.py\<close>) and the Slack client
  (\<open>app/integrations/slack/slack_client.py\<close>). A method is a retried body of requests over the network
  interface; the lemmas say which requests it sends, with which credentials, and how often.
\<close>

section \<open>Shared helpers\<close>

fun is_retryable :: "exn \<Rightarrow> bool" where
  "is_retryable (HTTPStatusError c) = (c \<in> {429, 500, 502, 503})"
| "is_retryable _ = False"

definition auth_header :: "json \<Rightarrow> (string, string) dict" where
  "auth_header token = [(''Authorization'', ''Bearer '' @ py_str token)]"

definition http_get :: "string \<Rightarrow> (string, string) dict \<Rightarrow> (string, string) dict \<Rightarrow> http_request" where
  "http_get url hdrs params = \<lparr>hr_method = ''GET'', hr_url = url, hr_headers = hdrs, hr_params = params, hr_data = []\<rparr>"

definition http_post :: "string \<Rightarrow> (string, string) dict \<Rightarrow> (string, string) dict \<Rightarrow> http_request" where
  "http_post url hdrs form = \<lparr>hr_method = ''POST'', hr_url = url, hr_headers = hdrs, hr_params = [], hr_data = form\<rparr>"

lemma request_simps [simp]:
  "hr_method (http_get u h p) = ''GET''" "hr_url (http_get u h p) = u" "hr_headers (http_get u h p) = h"
  "hr_params (http_get u h p) = p" "hr_data (http_get u h p) = []"
  "hr_method (http_post u h d) = ''POST''" "hr_url (http_post u h d) = u" "hr_headers (http_post u h d) = h"
  "hr_params (http_post u h d) = []" "hr_data (http_post u h d) = d"
  by (simp_all add: http_get_def http_post_def)

text \<open>Send, then \<open>raise_for_status\<close>.\<close>

definition fetch :: "'s net \<Rightarrow> http_request \<Rightarrow> ('s, http_response) prog" where
  "fetch N rq = bindM (n_send N rq) (\<lambda>resp. bindM (lift_res (n_raise_for_status N resp)) (\<lambda>_. ret resp))"

section \<open>DriveClient\<close>

definition drive_base :: string where
  "drive_base = ''https://www.googleapis.com''"

definition FIELDS :: string where
  "FIELDS = ''id,name,mimeType,webViewLink,modifiedTime''"

definition search_files_request :: "json \<Rightarrow> string \<Rightarrow> int \<Rightarrow> http_request" where
  "search_files_request token q max_results = http_get (drive_base @ ''/drive/v3/files'') (auth_header token)
     [(''q'', q), (''pageSize'', int_str max_results), (''fields'', ''files('' @ FIELDS @ '')'')]"

definition search_files :: "'s net \<Rightarrow> int \<Rightarrow> json \<Rightarrow> string \<Rightarrow> int \<Rightarrow> ('s, json) prog" where
  "search_files N max_retries token q max_results = n_retrying N max_retries is_retryable
     (bindM (fetch N (search_files_request token q max_results)) (\<lambda>resp.
      bindM (lift_res (resp_json resp)) (\<lambda>body. lift_res (j_get_default body ''files'' (JArr [])))))"

text \<open>\<open>x.startswith(p)\<close> on a value read from a document: only a string has it.\<close>

definition j_startswith :: "json \<Rightarrow> string \<Rightarrow> bool res" where
  "j_startswith j p = (case j of JStr s \<Rightarrow> Inr (startswith s p) | _ \<Rightarrow> Inl AttributeError)"

definition get_file_content_attempt :: "'s net \<Rightarrow> json \<Rightarrow> string \<Rightarrow> ('s, json) prog" where
  "get_file_content_attempt N token file_id =
     bindM (fetch N (http_get (drive_base @ ''/drive/v3/files/'' @ file_id) (auth_header token) [(''fields'', ''id,name,mimeType'')])) (\<lambda>meta_resp.
     bindM (lift_res (resp_json meta_resp)) (\<lambda>meta.
     bindM (lift_res (bind_res (j_item meta ''mimeType'') (\<lambda>m. j_startswith m ''application/vnd.google-apps.''))) (\<lambda>native.
     bindM (fetch N (if native
         then http_get (drive_base @ ''/drive/v3/files/'' @ file_id @ ''/export'') (auth_header token) [(''mimeType'', ''text/plain'')]
         else http_get (drive_base @ ''/drive/v3/files/'' @ file_id) (auth_header token) [(''alt'', ''media'')])) (\<lambda>content_resp.
     bindM (lift_res (j_item meta ''id'')) (\<lambda>i.
     bindM (lift_res (j_item meta ''name'')) (\<lambda>n.
     bindM (lift_res (j_item meta ''mimeType'')) (\<lambda>m.
       ret (JObj [(''file_id'', i), (''name'', n), (''content'', JStr (hs_body content_resp)), (''mime_type'', m)]))))))))"

definition get_file_content :: "'s net \<Rightarrow> int \<Rightarrow> json \<Rightarrow> string \<Rightarrow> ('s, json) prog" where
  "get_file_content N max_retries token file_id = n_retrying N max_retries is_retryable (get_file_content_attempt N token file_id)"

definition export_file_request :: "json \<Rightarrow> string \<Rightarrow> string \<Rightarrow> http_request" where
  "export_file_request token file_id export_mime =
     http_get (drive_base @ ''/drive/v3/files/'' @ file_id @ ''/export'') (auth_header token) [(''mimeType'', export_mime)]"

definition export_file :: "'s net \<Rightarrow> int \<Rightarrow> json \<Rightarrow> string \<Rightarrow> string \<Rightarrow> ('s, json) prog" where
  "export_file N max_retries token file_id export_mime = n_retrying N max_retries is_retryable
     (bindM (fetch N (export_file_request token file_id export_mime)) (\<lambda>resp. ret (JStr (hs_body resp))))"

definition list_recent_request :: "json \<Rightarrow> string \<Rightarrow> int \<Rightarrow> http_request" where
  "list_recent_request token since max_results = http_get (drive_base @ ''/drive/v3/files'') (auth_header token)
     [(''q'', ''modifiedTime > '' @ [CHR 0x27] @ since @ [CHR 0x27]), (''pageSize'', int_str max_results),
      (''orderBy'', ''modifiedTime desc''), (''fields'', ''files('' @ FIELDS @ '')'')]"

definition list_recent :: "'s net \<Rightarrow> int \<Rightarrow> json \<Rightarrow> int \<Rightarrow> int \<Rightarrow> ('s, json) prog" where
  "list_recent N max_retries token days max_results = n_retrying N max_retries is_retryable
     (bindM (asks (n_time N)) (\<lambda>t.
      let since = strftime_seconds (dec_floor t - days * 86400) in
      bindM (fetch N (list_recent_request token since max_results)) (\<lambda>resp.
      bindM (lift_res (resp_json resp)) (\<lambda>body. lift_res (j_get_default body ''files'' (JArr []))))))"

section \<open>SlackClient\<close>

definition SLACK_API_BASE :: string where
  "SLACK_API_BASE = ''https://slack.com/api''"

text \<open>\<open>if not body.get("ok"): raise SlackAPIError(body.get("error", "unknown_error"))\<close>.\<close>

definition check_ok :: "json \<Rightarrow> unit res" where
  "check_ok body = bind_res (j_get body ''ok'') (\<lambda>ok.
     if (case ok of None \<Rightarrow> False | Some j \<Rightarrow> truthy j) then Inr ()
     else bind_res (j_get_default body ''error'' (JStr ''unknown_error'')) (\<lambda>err. Inl (SlackAPIError (py_str err))))"

definition post_message_request :: "json \<Rightarrow> string \<Rightarrow> string \<Rightarrow> http_request" where
  "post_message_request bot_token channel text =
     http_post (SLACK_API_BASE @ ''/chat.postMessage'') (auth_header bot_token) [(''channel'', channel), (''text'', text)]"

definition post_message :: "'s net \<Rightarrow> int \<Rightarrow> json \<Rightarrow> string \<Rightarrow> string \<Rightarrow> ('s, json) prog" where
  "post_message N max_retries bot_token channel text = n_retrying N max_retries is_retryable
     (bindM (fetch N (post_message_request bot_token channel text)) (\<lambda>resp.
      bindM (lift_res (resp_json resp)) (\<lambda>body.
      bindM (lift_res (check_ok body)) (\<lambda>_.
      bindM (lift_res (j_item body ''channel'')) (\<lambda>c.
      bindM (lift_res (j_item body ''ts'')) (\<lambda>t.
        ret (JObj [(''ok'', JBool True), (''channel'', c), (''ts'', t)])))))))"

definition search_messages_request :: "json \<Rightarrow> string \<Rightarrow> int \<Rightarrow> http_request" where
  "search_messages_request user_token query cnt =
     http_get (SLACK_API_BASE @ ''/search.messages'') (auth_header user_token) [(''query'', query), (''count'', int_str cnt)]"

definition search_messages :: "'s net \<Rightarrow> int \<Rightarrow> json \<Rightarrow> string \<Rightarrow> int \<Rightarrow> ('s, json) prog" where
  "search_messages N max_retries user_token query cnt = n_retrying N max_retries is_retryable
     (bindM (fetch N (search_messages_request user_token query cnt)) (\<lambda>resp.
      bindM (lift_res (resp_json resp)) (\<lambda>body.
      bindM (lift_res (check_ok body)) (\<lambda>_.
      lift_res (bind_res (j_item body ''messages'') (\<lambda>m. j_item m ''matches''))))))"

section \<open>The requests of a method\<close>

text \<open>A request to one of the upstream services under the given token: nothing but the token identifies the caller.\<close>

definition drive_request :: "json \<Rightarrow> http_request \<Rightarrow> bool" where
  "drive_request token rq \<longleftrightarrow> hr_method rq = ''GET'' \<and> prefix (drive_base @ ''/drive/v3/files'') (hr_url rq)
     \<and> hr_headers rq = [(''Authorization'', ''Bearer '' @ py_str token)] \<and> hr_data rq = []"

definition slack_request :: "json \<Rightarrow> http_request \<Rightarrow> bool" where
  "slack_request token rq \<longleftrightarrow> hr_url rq \<in> {SLACK_API_BASE @ ''/chat.postMessage'', SLACK_API_BASE @ ''/search.messages''}
     \<and> hr_headers rq = [(''Authorization'', ''Bearer '' @ py_str token)]"

lemma drive_request_intros:
  "drive_request token (search_files_request token q n)" "drive_request token (export_file_request token i m)"
  "drive_request token (list_recent_request token d n)"
  "drive_request token (http_get (drive_base @ ''/drive/v3/files/'' @ x) (auth_header token) ps)"
  by (simp_all add: drive_request_def search_files_request_def export_file_request_def list_recent_request_def auth_header_def)

lemma slack_request_intros:
  "slack_request token (post_message_request token c t)" "slack_request token (search_messages_request token q n)"
  by (simp_all add: slack_request_def post_message_request_def search_messages_request_def auth_header_def)

lemma not_retryable_cancel [simp]: "\<not> is_retryable CancelledError"
  by simp

context network
begin

lemma fetch_sends: "P rq \<Longrightarrow> guarantees (sends sent P) (fetch N rq)"
  unfolding fetch_def by (intro sends.frame_rules send_sends)

lemma fetch_most: "sends_most sent 1 (fetch N rq)"
  unfolding fetch_def
  using sends_most_bindM [OF send_most sends_most_bindM [OF sends_most_lift [of sent 0] sends_most_ret [of sent 0]]] by simp

lemma fetch_then:
  assumes "\<And>x. quiet sent (f x)"
  shows "sent (snd (bindM (fetch N rq) f s)) = sent s @ [rq]"
proof -
  obtain r s1 where send: "n_send N rq s = (r, s1)" by (cases "n_send N rq s")
  from send_logged [OF send] have log: "sent s1 = sent s @ [rq]" .
  have "sent (snd (f x s1)) = sent s1" for x using assms [of x] by (simp add: quiet_def guarantees_def)
  with send log show ?thesis by (auto simp: fetch_def bindM_def split: sum.splits prod.splits)
qed

lemma drive_client_sends:
  "guarantees (sends sent (drive_request token)) (search_files N n token q k)"
  "guarantees (sends sent (drive_request token)) (get_file_content N n token file_id)"
  "guarantees (sends sent (drive_request token)) (export_file N n token file_id mime)"
  "guarantees (sends sent (drive_request token)) (list_recent N n token d k)"
proof -
  note rules = sends.frame_rules fetch_sends retrying_sends drive_request_intros
  show "guarantees (sends sent (drive_request token)) (search_files N n token q k)"
    unfolding search_files_def by (intro rules)
  show "guarantees (sends sent (drive_request token)) (export_file N n token file_id mime)"
    unfolding export_file_def by (intro rules)
  show "guarantees (sends sent (drive_request token)) (list_recent N n token d k)"
    unfolding list_recent_def Let_def by (intro rules)
  show "guarantees (sends sent (drive_request token)) (get_file_content N n token file_id)"
    unfolding get_file_content_def get_file_content_attempt_def
    by (intro rules) (auto simp: drive_request_def auth_header_def)
qed

lemma slack_client_sends:
  "guarantees (sends sent (slack_request token)) (post_message N n token c t)"
  "guarantees (sends sent (slack_request token)) (search_messages N n token q k)"
proof -
  note rules = sends.frame_rules fetch_sends retrying_sends slack_request_intros
  show "guarantees (sends sent (slack_request token)) (post_message N n token c t)"
    unfolding post_message_def by (intro rules)
  show "guarantees (sends sent (slack_request token)) (search_messages N n token q k)"
    unfolding search_messages_def by (intro rules)
qed

end

context network
begin

lemma get_file_content_attempt_most: "sends_most sent 2 (get_file_content_attempt N token file_id)"
proof -
  note rules = sends_most_bindM sends_most_lift [of sent 0] sends_most_ret [of sent 0] fetch_most
  have "sends_most sent (1 + (0 + (0 + (1 + (0 + (0 + (0 + 0))))))) (get_file_content_attempt N token file_id)"
    unfolding get_file_content_attempt_def by (intro rules)
  then show ?thesis by (simp add: numeral_2_eq_2)
qed

lemma fetch_success:
  assumes "n_send N rq s = (Inr rp, s')" "200 \<le> hs_status rp" "hs_status rp < 300"
  shows "fetch N rq s = (Inr rp, s')"
  using assms by (simp add: fetch_def bindM_def status_ok)

lemma quiet_lift: "quiet sent (lift_res r)" "quiet sent (ret x)" "quiet sent (asks g)"
  by (simp_all add: quiet_def guarantees_def)

lemma quiet_bindM: "quiet sent m \<Longrightarrow> (\<And>x. quiet sent (f x)) \<Longrightarrow> quiet sent (bindM m f)"
  unfolding quiet_def guarantees_def bindM_def by (auto split: prod.splits sum.splits) (metis snd_conv)+

lemma post_message_exact:
  assumes "0 < n" "post_message N n token c t s = (r, s')"
  shows "\<exists>j. sent s' = sent s @ replicate j (post_message_request token c t) \<and> 1 \<le> j \<and> j \<le> nat n
    \<and> (\<forall>e. r = Inl e \<longrightarrow> is_retryable e \<longrightarrow> j = nat n)"
  using assms(2) unfolding post_message_def
  by (rule retrying_exact [rotated -1]) (auto intro!: fetch_then quiet_bindM quiet_lift assms(1))

end

section \<open>Properties\<close>


definition sample_world :: "http_response res list \<Rightarrow> world" where
  "sample_world script = \<lparr>w_redis = \<lparr>rs_now = 0, rs_db = []\<rparr>, w_now = Dec 1709210096 0, w_sent = [], w_script = script, w_files = [], w_uuid = 0\<rparr>"


text \<open>
  C30: the retry policy, on the method with a side effect. \<open>post_message\<close> sends the same request at least
  once and at most \<open>max_retries\<close> times; and when it ends in one of the statuses that are retried
  (429, 500, 502, 503) it has used all its attempts.
\<close>

theorem post_message_retries:
  assumes "network N sent" "0 < n" "post_message N n token c t s = (r, s')"
  shows "\<exists>j. sent s' = sent s @ replicate j (post_message_request token c t) \<and> 1 \<le> j \<and> j \<le> nat n
    \<and> (\<forall>e. r = Inl e \<longrightarrow> is_retryable e \<longrightarrow> j = nat n)"
  using network.post_message_exact [OF assms] .

theorem post_message_retries_witness:
  "\<exists>s'. post_message world_net 2 (JStr ''tok'') ''C1'' ''hi'' (sample_world [Inr \<lparr>hs_status = 503, hs_body = []\<rparr>, Inr \<lparr>hs_status = 500, hs_body = []\<rparr>]) = (Inl (HTTPStatusError 500), s')
    \<and> w_sent s' = replicate 2 (post_message_request (JStr ''tok'') ''C1'' ''hi'')"
proof -
  let ?w = "sample_world [Inr \<lparr>hs_status = 503, hs_body = []\<rparr>, Inr \<lparr>hs_status = 500, hs_body = []\<rparr>]"
  obtain s' where run: "post_message world_net 2 (JStr ''tok'') ''C1'' ''hi'' ?w = (Inl (HTTPStatusError 500), s')"
    by (simp add: post_message_def fetch_def tryM_def bindM_def world_send_def world_raise_for_status_def world_pause_def sample_world_def)
  from post_message_retries [OF world_network.network_axioms _ run] have "w_sent s' = w_sent ?w @ replicate 2 (post_message_request (JStr ''tok'') ''C1'' ''hi'')"
    by (auto simp: numeral_2_eq_2 le_Suc_eq)
  with run show ?thesis by (simp add: sample_world_def)
qed

text \<open>
  Reading a file. When the metadata request and the content request both succeed, the result pairs
  the metadata of the first with the text of the second; the second is an export to plain text
  exactly for the native Google types, and a download otherwise; and nothing is retried.
\<close>

theorem get_file_content_result:
  assumes "network N sent"
    and meta: "n_send N (http_get (drive_base @ ''/drive/v3/files/'' @ file_id) (auth_header token) [(''fields'', ''id,name,mimeType'')]) s = (Inr rp1, s1)"
      "200 \<le> hs_status rp1" "hs_status rp1 < 300" "resp_json rp1 = Inr (JObj m)"
      "dict_get m ''mimeType'' = Some (JStr mt)" "dict_get m ''id'' = Some i" "dict_get m ''name'' = Some nm"
    and content: "n_send N (if prefix ''application/vnd.google-apps.'' mt
        then http_get (drive_base @ ''/drive/v3/files/'' @ file_id @ ''/export'') (auth_header token) [(''mimeType'', ''text/plain'')]
        else http_get (drive_base @ ''/drive/v3/files/'' @ file_id) (auth_header token) [(''alt'', ''media'')]) s1 = (Inr rp2, s2)"
      "200 \<le> hs_status rp2" "hs_status rp2 < 300"
  shows "get_file_content N n token file_id s =
    (Inr (JObj [(''file_id'', i), (''name'', nm), (''content'', JStr (hs_body rp2)), (''mime_type'', JStr mt)]), s2)"
  unfolding get_file_content_def
proof (rule network.retrying_once [OF assms(1)])
  note f1 = network.fetch_success [OF assms(1) meta(1-3)] and f2 = network.fetch_success [OF assms(1) content]
  show "get_file_content_attempt N token file_id s =
    (Inr (JObj [(''file_id'', i), (''name'', nm), (''content'', JStr (hs_body rp2)), (''mime_type'', JStr mt)]), s2)"
    using meta(4-7) f1 f2 by (simp add: get_file_content_attempt_def bindM_def dict_item_def j_startswith_def)
qed simp

theorem get_file_content_result_witness:
  "\<exists>s2. get_file_content world_net 3 (JStr ''tok'') ''F1''
      (sample_world [Inr \<lparr>hs_status = 200, hs_body = dumps (JObj [(''id'', JStr ''F1''), (''name'', JStr ''n''), (''mimeType'', JStr ''text/plain'')])\<rparr>,
        Inr \<lparr>hs_status = 200, hs_body = ''hello''\<rparr>])
    = (Inr (JObj [(''file_id'', JStr ''F1''), (''name'', JStr ''n''), (''content'', JStr ''hello''), (''mime_type'', JStr ''text/plain'')]), s2)"
proof -
  let ?m = "[(''id'', JStr ''F1''), (''name'', JStr ''n''), (''mimeType'', JStr ''text/plain'')]"
  let ?rp1 = "\<lparr>hs_status = 200, hs_body = dumps (JObj ?m)\<rparr>" and ?rp2 = "\<lparr>hs_status = 200, hs_body = ''hello''\<rparr>"
  let ?w = "sample_world [Inr ?rp1, Inr ?rp2]"
  let ?r1 = "http_get (drive_base @ ''/drive/v3/files/'' @ ''F1'') (auth_header (JStr ''tok'')) [(''fields'', ''id,name,mimeType'')]"
  let ?r2 = "http_get (drive_base @ ''/drive/v3/files/'' @ ''F1'') (auth_header (JStr ''tok'')) [(''alt'', ''media'')]"
  have wf: "wf_json (JObj ?m)" by simp
  have 1: "n_send world_net ?r1 ?w = (Inr ?rp1, ?w\<lparr>w_sent := [?r1], w_script := [Inr ?rp2]\<rparr>)"
    by (simp add: world_send_def sample_world_def)
  have 2: "n_send world_net ?r2 (?w\<lparr>w_sent := [?r1], w_script := [Inr ?rp2]\<rparr>) = (Inr ?rp2, ?w\<lparr>w_sent := [?r1, ?r2], w_script := []\<rparr>)"
    by (simp add: world_send_def sample_world_def)
  have "resp_json ?rp1 = Inr (JObj ?m)" using loads_dumps [OF wf] by (simp add: resp_json_def)
  with get_file_content_result [OF world_network.network_axioms 1, of ?m "''text/plain''" "JStr ''F1''" "JStr ''n''" ?rp2
      "?w\<lparr>w_sent := [?r1, ?r2], w_script := []\<rparr>" 3] 2
  show ?thesis by simp
qed

end
