(* ===== verification/Token_Stores.thy ===== *)
theory Token_Stores
  imports Upstream_Clients
begin

text \<open>
  The upstream credentials at rest: \<open>app/integrations/google/token_store.py\<close> and
  \<open>app/integrations/slack/token_store.py\<close>. The cipher (Fernet) is a parameter; \<open>f_encrypt\<close> and
  \<open>f_decrypt\<close> are its methods together with the \<open>encode\<close> and \<open>decode\<close> around them.
\<close>

record 's fernet =
  f_encrypt :: "string \<Rightarrow> ('s, string) prog"
  f_decrypt :: "string \<Rightarrow> string res"

section \<open>Google\<close>

definition GOOGLE_TOKEN_URL :: string where
  "GOOGLE_TOKEN_URL = ''https://oauth2.googleapis.com/token''"

definition GOOGLE_SHARED_USER :: string where
  "GOOGLE_SHARED_USER = ''google:shared''"

record google_app =
  g_client_id :: string
  g_client_secret :: string

text \<open>Numbers in a document; anything else raises in arithmetic.\<close>

fun num_of :: "json \<Rightarrow> pyfloat res" where
  "num_of (JInt i) = Inr (Fin (dec_of_int i))"
| "num_of (JBool b) = Inr (Fin (dec_of_int (if b then 1 else 0)))"
| "num_of (JFloat x) = Inr x"
| "num_of _ = Inl TypeError"

text \<open>\<open>data["expires_at"] - 60 > time.time()\<close>.\<close>

definition still_valid :: "json \<Rightarrow> dec \<Rightarrow> bool res" where
  "still_valid expires_at t = bind_res (num_of expires_at) (\<lambda>x.
     Inr (case x of Fin d \<Rightarrow> dec_less t (dec_sub d (dec_of_int 60)) | PosInf \<Rightarrow> True | _ \<Rightarrow> False))"

text \<open>\<open>time.time() + tokens.get("expires_in", 3600)\<close>.\<close>

definition new_expiry :: "dec \<Rightarrow> json \<Rightarrow> json res" where
  "new_expiry t tokens = bind_res (j_get_default tokens ''expires_in'' (JInt 3600)) (\<lambda>e.
     bind_res (num_of e) (\<lambda>x. Inr (JFloat (case x of Fin d \<Rightarrow> Fin (float_form (dec_add t d)) | _ \<Rightarrow> x))))"

text \<open>\<open>x.encode()\<close>: only a string has it.\<close>

definition j_encode :: "json \<Rightarrow> string res" where
  "j_encode j = (case j of JStr s \<Rightarrow> Inr s | _ \<Rightarrow> Inl AttributeError)"

definition refresh_request :: "google_app \<Rightarrow> string \<Rightarrow> http_request" where
  "refresh_request app refresh_token = http_post GOOGLE_TOKEN_URL []
     [(''grant_type'', ''refresh_token''), (''refresh_token'', refresh_token),
      (''client_id'', g_client_id app), (''client_secret'', g_client_secret app)]"

text \<open>The inspection of a 400 or 401 answer; a body that is no JSON is passed over.\<close>

definition check_revoked :: "http_response \<Rightarrow> unit res" where
  "check_revoked resp =
     (if hs_status resp \<in> {400, 401} then
        (case resp_json resp of
           Inl e \<Rightarrow> (case e of KeyError _ \<Rightarrow> Inr () | _ \<Rightarrow> if is_value_error e then Inr () else Inl e)
         | Inr body \<Rightarrow> bind_res (j_get body ''error'') (\<lambda>err.
             if err = Some (JStr ''invalid_grant'') \<or> err = Some (JStr ''token_revoked'')
             then Inl (OAuthRefreshError ''Google refresh token revoked'') else Inr ()))
      else Inr ())"

text \<open>\<open>data[key] = value\<close> on a document.\<close>

definition j_put :: "json \<Rightarrow> string \<Rightarrow> json \<Rightarrow> json res" where
  "j_put j k v = (case j of JObj kvs \<Rightarrow> Inr (JObj (dict_set k v kvs)) | _ \<Rightarrow> Inl TypeError)"

text \<open>What happens with the answer: store the new access token with its expiry.\<close>

definition accept_refresh :: "'s net \<Rightarrow> 's store \<Rightarrow> string \<Rightarrow> json \<Rightarrow> http_response \<Rightarrow> ('s, json) prog" where
  "accept_refresh N S user_id data resp =
     bindM (lift_res (check_revoked resp)) (\<lambda>_.
     bindM (lift_res (n_raise_for_status N resp)) (\<lambda>_.
     bindM (lift_res (resp_json resp)) (\<lambda>tokens.
     bindM (lift_res (j_item tokens ''access_token'')) (\<lambda>access.
     bindM (lift_res (j_put data ''access_token'' access)) (\<lambda>data1.
     bindM (asks (n_time N)) (\<lambda>t.
     bindM (lift_res (bind_res (new_expiry t tokens) (j_put data1 ''expires_at''))) (\<lambda>data2.
     bindM (st_set S user_id (dumps data2) None) (\<lambda>_.
       ret access))))))))"

definition refresh_google_token :: "'s net \<Rightarrow> 's store \<Rightarrow> 's fernet \<Rightarrow> google_app \<Rightarrow> string \<Rightarrow> json \<Rightarrow> ('s, json) prog" where
  "refresh_google_token N S F app user_id data =
     bindM (lift_res (bind_res (j_item data ''refresh_token_enc'') j_encode)) (\<lambda>enc.
     bindM (lift_res (f_decrypt F enc)) (\<lambda>refresh_token.
     bindM (n_send N (refresh_request app refresh_token)) (accept_refresh N S user_id data)))"

definition get_valid_google_token :: "'s net \<Rightarrow> 's store \<Rightarrow> 's fernet \<Rightarrow> google_app \<Rightarrow> string \<Rightarrow> ('s, json) prog" where
  "get_valid_google_token N S F app user_id =
     bindM (st_get S user_id) (\<lambda>raw. case raw of
       None \<Rightarrow> raise (OAuthTokenNotFoundError ''User has not authorized Google'')
     | Some text \<Rightarrow>
         bindM (lift_res (loads text)) (\<lambda>data.
         bindM (lift_res (j_item data ''expires_at'')) (\<lambda>expires_at.
         bindM (asks (n_time N)) (\<lambda>t.
         bindM (lift_res (still_valid expires_at t)) (\<lambda>valid.
           if valid then lift_res (j_item data ''access_token'')
           else refresh_google_token N S F app user_id data)))))"

definition seed_refresh_token :: "'s store \<Rightarrow> 's fernet \<Rightarrow> string \<Rightarrow> ('s, unit) prog" where
  "seed_refresh_token S F refresh_token =
     bindM (f_encrypt F refresh_token) (\<lambda>enc.
       st_set S GOOGLE_SHARED_USER
         (dumps (JObj [(''access_token'', JStr []), (''refresh_token_enc'', JStr enc), (''expires_at'', JInt 0)])) None)"

definition seed_shared_token_if_absent :: "'s store \<Rightarrow> 's fernet \<Rightarrow> string option \<Rightarrow> ('s, unit) prog" where
  "seed_shared_token_if_absent S F refresh_token =
     (case refresh_token of None \<Rightarrow> ret ()
      | Some rt \<Rightarrow> if rt = [] then ret ()
          else bindM (st_get S GOOGLE_SHARED_USER) (\<lambda>old. if old \<noteq> None then ret () else seed_refresh_token S F rt))"

section \<open>Slack\<close>

definition SLACK_SHARED_USER :: string where
  "SLACK_SHARED_USER = ''shared''"

text \<open>\<open>key in data\<close>: a dictionary asks its keys, a list its elements, a string its substrings.\<close>

definition j_contains :: "json \<Rightarrow> string \<Rightarrow> bool res" where
  "j_contains j k = (case j of JObj kvs \<Rightarrow> Inr (dict_get kvs k \<noteq> None) | JArr xs \<Rightarrow> Inr (JStr k \<in> set xs)
     | JStr s \<Rightarrow> Inr (str_in k s) | _ \<Rightarrow> Inl TypeError)"

definition get_valid_slack_token :: "'s store \<Rightarrow> 's fernet \<Rightarrow> string \<Rightarrow> string \<Rightarrow> ('s, string) prog" where
  "get_valid_slack_token S F user_id token_type =
     bindM (st_get S user_id) (\<lambda>raw. case raw of
       None \<Rightarrow> raise (SlackTokenNotFoundError ''User has not authorized Slack'')
     | Some text \<Rightarrow>
         bindM (lift_res (loads text)) (\<lambda>data.
         bindM (if token_type = ''bot'' then ret ''bot_token_enc''
                else if token_type = ''user'' then ret ''user_token_enc''
                else raise (ValueError (''Unknown token_type: '' @ repr_string token_type @ ''. Expected '' @ repr_string ''bot'' @ '' or '' @ repr_string ''user'' @ ''.''))) (\<lambda>key.
         bindM (lift_res (j_contains data key)) (\<lambda>present.
           if \<not> present then raise (SlackTokenNotFoundError (''Slack '' @ token_type @ '' token not provisioned''))
           else lift_res (bind_res (j_item data key) (\<lambda>j. bind_res (j_encode j) (f_decrypt F)))))))"

definition encrypt_if_given :: "'s fernet \<Rightarrow> string \<Rightarrow> string option \<Rightarrow> (string, json) dict \<Rightarrow> ('s, (string, json) dict) prog" where
  "encrypt_if_given F key token data =
     (if truthy_opt token then bindM (f_encrypt F (the token)) (\<lambda>enc. ret (dict_set key (JStr enc) data)) else ret data)"

definition seed_shared_slack_tokens_if_absent :: "'s store \<Rightarrow> 's fernet \<Rightarrow> string option \<Rightarrow> string option \<Rightarrow> ('s, unit) prog" where
  "seed_shared_slack_tokens_if_absent S F bot_token user_token =
     (if \<not> truthy_opt bot_token \<and> \<not> truthy_opt user_token then ret ()
      else bindM (st_get S SLACK_SHARED_USER) (\<lambda>old.
        if old \<noteq> None then ret ()
        else bindM (encrypt_if_given F ''bot_token_enc'' bot_token [(''team_id'', JStr [])]) (\<lambda>d1.
             bindM (encrypt_if_given F ''user_token_enc'' user_token d1) (\<lambda>d2.
               st_set S SLACK_SHARED_USER (dumps (JObj d2)) None))))"

section \<open>What the cipher promises\<close>

text \<open>A ciphertext decrypts to what was encrypted; encrypting touches neither Redis nor the network.\<close>

locale cipher =
  fixes F :: "'s fernet" and view :: "'s \<Rightarrow> 'v"
  assumes decrypt_encrypt: "f_encrypt F x s = (Inr c, s') \<Longrightarrow> f_decrypt F c = Inr x"
    and encrypt_view: "f_encrypt F x s = (r, s') \<Longrightarrow> view s' = view s"

text \<open>A cipher for the concrete world: a marked reversal.\<close>

definition world_fernet :: "world fernet" where
  "world_fernet = \<lparr>f_encrypt = (\<lambda>x w. (Inr (''g'' @ rev x), w)),
     f_decrypt = (\<lambda>c. case c of [] \<Rightarrow> Inl InvalidToken | g # y \<Rightarrow> if g = CHR ''g'' then Inr (rev y) else Inl InvalidToken)\<rparr>"

interpretation wcipher: cipher world_fernet view for view
  by unfold_locales (auto simp: world_fernet_def)

section \<open>The stored document after a call\<close>

lemma j_item_Inr: "j_item j k = Inr v \<longleftrightarrow> (\<exists>kvs. j = JObj kvs \<and> dict_get kvs k = Some v)"
  by (auto simp: j_item_def dict_item_def split: json.splits option.splits)

lemma wf_member: "wf_json (JObj kvs) \<Longrightarrow> dict_get kvs k = Some v \<Longrightarrow> wf_json v"
  by (auto simp: list_all_iff dest!: map_of_SomeD)

lemma wf_dict_set: "wf_json (JObj d) \<Longrightarrow> wf_json v \<Longrightarrow> wf_json (JObj (dict_set k v d))"
  by (simp add: dict_set_keys dict_set_all)

lemma new_expiry_wf: "new_expiry t tokens = Inr e \<Longrightarrow> wf_json e"
proof -
  assume "new_expiry t tokens = Inr e"
  then obtain x where "e = JFloat (case x of Fin d \<Rightarrow> Fin (float_form (dec_add t d)) | _ \<Rightarrow> x)"
    by (auto simp: new_expiry_def bind_res_def split: sum.splits)
  then show ?thesis by (cases x) (simp_all del: wf_json.simps(1) add: float_form_wf, simp_all)
qed

text \<open>What a successful refresh did: one request with the stored refresh token, and the new token stored.\<close>

lemma refresh_InrE:
  assumes "refresh_google_token N S F app u (JObj d) s = (Inr tok, s')"
  obtains enc rt resp s1 tokens e where
    "dict_get d ''refresh_token_enc'' = Some (JStr enc)" "f_decrypt F enc = Inr rt"
    "n_send N (refresh_request app rt) s = (Inr resp, s1)" "resp_json resp = Inr (JObj tokens)"
    "dict_get tokens ''access_token'' = Some tok" "new_expiry (n_time N s1) (JObj tokens) = Inr e"
    "st_set S u (dumps (JObj (dict_set ''expires_at'' e (dict_set ''access_token'' tok d)))) None s1 = (Inr (), s')"
  using assms unfolding refresh_google_token_def accept_refresh_def
  by (elim bindM_InrE)
    (auto simp: bind_res_def j_encode_def j_put_def j_item_Inr dict_item_def split: sum.splits json.splits option.splits
      elim!: bindM_InrE simp del: dumps.simps)

lemma get_valid_InrE:
  assumes "get_valid_google_token N S F app u s = (Inr tok, s')"
  obtains raw s1 d e v where "st_get S u s = (Inr (Some raw), s1)" "loads raw = Inr (JObj d)"
    "dict_get d ''expires_at'' = Some e" "still_valid e (n_time N s1) = Inr v"
    "v \<Longrightarrow> s' = s1 \<and> dict_get d ''access_token'' = Some tok"
    "\<not> v \<Longrightarrow> refresh_google_token N S F app u (JObj d) s1 = (Inr tok, s')"
proof -
  from assms obtain raw s1 where get: "st_get S u s = (Inr raw, s1)"
    and rest: "(case raw of None \<Rightarrow> raise (OAuthTokenNotFoundError ''User has not authorized Google'')
     | Some text \<Rightarrow> bindM (lift_res (loads text)) (\<lambda>data. bindM (lift_res (j_item data ''expires_at'')) (\<lambda>expires_at.
         bindM (asks (n_time N)) (\<lambda>t. bindM (lift_res (still_valid expires_at t)) (\<lambda>valid.
           if valid then lift_res (j_item data ''access_token'') else refresh_google_token N S F app u data))))) s1 = (Inr tok, s')"
    unfolding get_valid_google_token_def by (elim bindM_InrE)
  show thesis
  proof (cases raw)
    case (Some str)
    with rest obtain data e v where doc: "loads str = Inr data" "j_item data ''expires_at'' = Inr e" "still_valid e (n_time N s1) = Inr v"
      and fin: "(if v then lift_res (j_item data ''access_token'') else refresh_google_token N S F app u data) s1 = (Inr tok, s')"
      by (simp add: bindM_def split: sum.splits)
    from doc(2) obtain d where d: "data = JObj d" "dict_get d ''expires_at'' = Some e" by (auto simp: j_item_Inr)
    show thesis
    proof (rule that [of str s1 d e v])
      show "v \<Longrightarrow> s' = s1 \<and> dict_get d ''access_token'' = Some tok"
        using fin d by (auto simp: dict_item_def split: option.splits)
    qed (use get Some doc d fin in simp_all)
  qed (use rest in simp)
qed

context gateway_world
begin

lemmas store_get = rstore.get_live rstore.get_other
lemmas store_set = rstore.set_live

lemma quiet_RedisStore: "quiet sent (st_get (RedisStore R pfx) k)" "quiet sent (st_set (RedisStore R pfx) k v ttl)"
proof -
  show "quiet sent (st_get (RedisStore R pfx) k)" by (simp add: RedisStore_def RedisStore_get_def quiet_redis)
  show "quiet sent (st_set (RedisStore R pfx) k v ttl)"
    by (auto simp: RedisStore_def RedisStore_set_def quiet_lift intro!: quiet_bindM quiet_redis split: option.splits)
qed

lemma token_stored:
  assumes run: "get_valid_google_token N (RedisStore R pfx) F app u s = (Inr tok, s')"
  shows "\<exists>raw d. live_str (\<alpha> s') (pfx @ u) = Some raw \<and> loads raw = Inr (JObj d)
    \<and> dict_get d ''access_token'' = Some tok"
proof -
  from run obtain str s1 d v where get: "st_get (RedisStore R pfx) u s = (Inr (Some str), s1)"
    and doc: "loads str = Inr (JObj d)" and hit: "v \<Longrightarrow> s' = s1 \<and> dict_get d ''access_token'' = Some tok"
    and miss: "\<not> v \<Longrightarrow> refresh_google_token N (RedisStore R pfx) F app u (JObj d) s1 = (Inr tok, s')"
    by (rule get_valid_InrE) blast
  show ?thesis
  proof (cases v)
    case True
    then have "live_str (\<alpha> s') (pfx @ u) = Some str" using store_get(1) [OF get] hit by (metis (mono_tags))
    then show ?thesis using doc hit True by blast
  next
    case False
    from miss [OF this] obtain resp s2 tokens e' where new: "resp_json resp = Inr (JObj tokens)" "dict_get tokens ''access_token'' = Some tok"
      "new_expiry (n_time N s2) (JObj tokens) = Inr e'"
      "st_set (RedisStore R pfx) u (dumps (JObj (dict_set ''expires_at'' e' (dict_set ''access_token'' tok d)))) None s2 = (Inr (), s')"
      by (elim refresh_InrE)
    let ?d2 = "dict_set ''expires_at'' e' (dict_set ''access_token'' tok d)"
    have "wf_json tok" using new(2) by (rule wf_member [OF loads_wf [OF new(1) [unfolded resp_json_def]]])
    then have "wf_json (JObj ?d2)"
      using loads_wf [OF doc] new_expiry_wf [OF new(3)] by (blast intro: wf_dict_set)
    then have "loads (dumps (JObj ?d2)) = Inr (JObj ?d2)" by (rule loads_dumps)
    moreover have "live_str (\<alpha> s') (pfx @ u) = Some (dumps (JObj ?d2))"
      using fun_cong [OF store_set [OF new(4)], of u] by simp
    moreover have "dict_get ?d2 ''access_token'' = Some tok" by simp
    ultimately show ?thesis by blast
  qed
qed

lemma get_valid_hit:
  assumes "st_get (RedisStore R pfx) u t = (Inr x, t1)" "live_str (\<alpha> t) (pfx @ u) = Some raw"
    and "loads raw = Inr (JObj d)" "dict_get d ''expires_at'' = Some e" "still_valid e (n_time N t1) = Inr True"
    and "dict_get d ''access_token'' = Some tok"
  shows "get_valid_google_token N (RedisStore R pfx) F app u t = (Inr tok, t1)"
proof -
  from store_get(1) [OF assms(1)] assms(2) have "x = Some raw" by (metis (mono_tags))
  with assms show ?thesis by (simp add: get_valid_google_token_def bindM_def dict_item_def)
qed

lemma get_sent: "st_get (RedisStore R pfx) u t = (r, t1) \<Longrightarrow> sent t1 = sent t"
  using quiet_RedisStore(1) [of pfx u] unfolding quiet_def by (rule guaranteesD)

lemma set_sent: "st_set (RedisStore R pfx) u v ttl t = (r, t1) \<Longrightarrow> sent t1 = sent t"
  using quiet_RedisStore(2) [of pfx u v ttl] unfolding quiet_def by (rule guaranteesD)

text \<open>A refresh that gets as far as decrypting sends one request, whatever comes of it.\<close>

lemma refresh_sent:
  assumes "dict_get d ''refresh_token_enc'' = Some (JStr enc)" "f_decrypt F enc = Inr rt"
  shows "sent (snd (refresh_google_token N (RedisStore R pfx) F app u (JObj d) s)) = sent s @ [refresh_request app rt]"
proof -
  obtain r s1 where send: "n_send N (refresh_request app rt) s = (r, s1)" by (cases "n_send N (refresh_request app rt) s")
  have "quiet sent (accept_refresh N (RedisStore R pfx) u (JObj d) resp)" for resp
    unfolding accept_refresh_def by (intro quiet_bindM quiet_lift quiet_RedisStore)
  then have "sent (snd (accept_refresh N (RedisStore R pfx) u (JObj d) resp s1)) = sent s1" for resp
    by (simp add: quiet_def guarantees_def)
  then show ?thesis
    using assms send send_logged [OF send]
    by (cases r) (simp_all add: refresh_google_token_def bindM_def dict_item_def j_encode_def)
qed

lemma refresh_sent_none:
  assumes "\<nexists>enc rt. dict_get d ''refresh_token_enc'' = Some (JStr enc) \<and> f_decrypt F enc = Inr rt"
  shows "sent (snd (refresh_google_token N (RedisStore R pfx) F app u (JObj d) s)) = sent s"
  using assms by (auto simp: refresh_google_token_def bindM_def dict_item_def j_encode_def bind_res_def split: option.splits sum.splits json.splits)

lemma get_valid_run:
  "get_valid_google_token N S F app u s = (case st_get S u s of
     (Inl e, s1) \<Rightarrow> (Inl e, s1)
   | (Inr None, s1) \<Rightarrow> (Inl (OAuthTokenNotFoundError ''User has not authorized Google''), s1)
   | (Inr (Some str), s1) \<Rightarrow> (case bind_res (loads str) (\<lambda>data. bind_res (j_item data ''expires_at'') (\<lambda>e.
         bind_res (still_valid e (n_time N s1)) (\<lambda>v. Inr (data, v)))) of
         Inl e \<Rightarrow> (Inl e, s1)
       | Inr (data, v) \<Rightarrow> if v then (j_item data ''access_token'', s1) else refresh_google_token N S F app u data s1))"
  by (auto simp: get_valid_google_token_def bindM_def bind_res_def split: prod.splits sum.splits option.splits)

lemma get_valid_sent:
  "sent (snd (get_valid_google_token N (RedisStore R pfx) F app u s)) = sent s
   \<or> (\<exists>raw d enc rt. live_str (\<alpha> s) (pfx @ u) = Some raw \<and> loads raw = Inr (JObj d)
        \<and> dict_get d ''refresh_token_enc'' = Some (JStr enc) \<and> f_decrypt F enc = Inr rt
        \<and> sent (snd (get_valid_google_token N (RedisStore R pfx) F app u s)) = sent s @ [refresh_request app rt])"
proof -
  obtain r s1 where get: "st_get (RedisStore R pfx) u s = (r, s1)" by (cases "st_get (RedisStore R pfx) u s")
  note quiet = get_sent [OF get]
  consider (stop) "snd (get_valid_google_token N (RedisStore R pfx) F app u s) = s1"
    | (refresh) str d where "r = Inr (Some str)" "loads str = Inr (JObj d)"
        "snd (get_valid_google_token N (RedisStore R pfx) F app u s) = snd (refresh_google_token N (RedisStore R pfx) F app u (JObj d) s1)"
  proof (cases "\<exists>str. r = Inr (Some str)")
    case True
    then obtain str where r: "r = Inr (Some str)" by blast
    show thesis
    proof (cases "bind_res (loads str) (\<lambda>data. bind_res (j_item data ''expires_at'') (\<lambda>e.
         bind_res (still_valid e (n_time N s1)) (\<lambda>v. Inr (data, v))))")
      case (Inl e)
      then show thesis using stop by (simp add: get_valid_run get r)
    next
      case (Inr dv)
      obtain data v where dv: "dv = (data, v)" by (cases dv)
      with Inr obtain d where d: "data = JObj d" "loads str = Inr (JObj d)"
        by (auto simp: bind_res_def j_item_Inr split: sum.splits)
      show thesis using stop refresh [OF r d(2)] Inr dv d(1) by (cases v) (simp_all add: get_valid_run get r)
    qed
  next
    case False
    then show thesis using stop by (auto simp: get_valid_run get split: sum.splits option.splits)
  qed
  then show ?thesis
  proof cases
    case (refresh str d)
    from store_get(1) [of pfx u s "Some str" s1] get refresh(1) have "live_str (\<alpha> s) (pfx @ u) = Some str" by simp
    with refresh quiet refresh_sent [of d _ F] refresh_sent_none [of d F] show ?thesis by metis
  qed (use quiet in simp)
qed

lemma seed_refresh_token_stores:
  assumes c: "cipher F (\<lambda>s. (\<alpha> s, sent s))" and run: "seed_refresh_token (RedisStore R pfx) F rt s = (Inr (), s')"
  shows "\<exists>enc. f_decrypt F enc = Inr rt \<and> sent s' = sent s \<and> live_str (\<alpha> s') (pfx @ GOOGLE_SHARED_USER) =
    Some (dumps (JObj [(''access_token'', JStr []), (''refresh_token_enc'', JStr enc), (''expires_at'', JInt 0)]))"
proof -
  from run obtain enc s1 where enc: "f_encrypt F rt s = (Inr enc, s1)" and set: "st_set (RedisStore R pfx) GOOGLE_SHARED_USER
      (dumps (JObj [(''access_token'', JStr []), (''refresh_token_enc'', JStr enc), (''expires_at'', JInt 0)])) None s1 = (Inr (), s')"
    unfolding seed_refresh_token_def by (elim bindM_InrE)
  from cipher.encrypt_view [OF c enc] have "sent s1 = sent s" by simp
  then show ?thesis
    using cipher.decrypt_encrypt [OF c enc] fun_cong [OF store_set [OF set], of GOOGLE_SHARED_USER] set_sent [OF set]
    by (intro exI [of _ enc]) (simp del: dumps.simps)
qed

lemma seed_google:
  assumes c: "cipher F (\<lambda>s. (\<alpha> s, sent s))" and rt: "rt \<noteq> []"
    and run: "seed_shared_token_if_absent (RedisStore R pfx) F (Some rt) s = (Inr (), s')"
  shows "sent s' = sent s"
    and "live_str (\<alpha> s) (pfx @ GOOGLE_SHARED_USER) \<noteq> None \<Longrightarrow> live_str (\<alpha> s') (pfx @ k) = live_str (\<alpha> s) (pfx @ k)"
    and "live_str (\<alpha> s) (pfx @ GOOGLE_SHARED_USER) = None \<Longrightarrow> \<exists>enc. f_decrypt F enc = Inr rt \<and> live_str (\<alpha> s') (pfx @ GOOGLE_SHARED_USER) =
      Some (dumps (JObj [(''access_token'', JStr []), (''refresh_token_enc'', JStr enc), (''expires_at'', JInt 0)]))"
proof -
  from run rt obtain old s1 where get: "st_get (RedisStore R pfx) GOOGLE_SHARED_USER s = (Inr old, s1)"
    and rest: "(if old \<noteq> None then ret () else seed_refresh_token (RedisStore R pfx) F rt) s1 = (Inr (), s')"
    unfolding seed_shared_token_if_absent_def by (simp del: not_None_eq) (elim bindM_InrE)
  have old: "old = live_str (\<alpha> s) (pfx @ GOOGLE_SHARED_USER)" and same: "(\<lambda>k. live_str (\<alpha> s1) (pfx @ k)) = (\<lambda>k. live_str (\<alpha> s) (pfx @ k))"
    using store_get(1) [OF get] by simp_all
  have seeded: "\<exists>enc. f_decrypt F enc = Inr rt \<and> sent s' = sent s1 \<and> live_str (\<alpha> s') (pfx @ GOOGLE_SHARED_USER) =
    Some (dumps (JObj [(''access_token'', JStr []), (''refresh_token_enc'', JStr enc), (''expires_at'', JInt 0)]))" if "old = None"
    using seed_refresh_token_stores [OF c] rest that by simp
  show "sent s' = sent s" using rest seeded get_sent [OF get] by (cases old) auto
  show "live_str (\<alpha> s') (pfx @ k) = live_str (\<alpha> s) (pfx @ k)" if "live_str (\<alpha> s) (pfx @ GOOGLE_SHARED_USER) \<noteq> None"
    using rest old that fun_cong [OF same, of k] by auto
  show "\<exists>enc. f_decrypt F enc = Inr rt \<and> live_str (\<alpha> s') (pfx @ GOOGLE_SHARED_USER) =
      Some (dumps (JObj [(''access_token'', JStr []), (''refresh_token_enc'', JStr enc), (''expires_at'', JInt 0)]))"
    if "live_str (\<alpha> s) (pfx @ GOOGLE_SHARED_USER) = None"
    using seeded old that by auto
qed

lemma first_use_refreshes:
  assumes "live_str (\<alpha> s) (pfx @ u) = Some (dumps (JObj [(''access_token'', JStr []), (''refresh_token_enc'', JStr enc), (''expires_at'', JInt 0)]))"
    and "f_decrypt F enc = Inr rt" "st_get (RedisStore R pfx) u s = (Inr x, s1)" "dec_less (dec_of_int (-60)) (n_time N s1)"
  shows "sent (snd (get_valid_google_token N (RedisStore R pfx) F app u s)) = sent s @ [refresh_request app rt]"
proof -
  let ?d = "[(''access_token'', JStr []), (''refresh_token_enc'', JStr enc), (''expires_at'', JInt 0)]"
  have "wf_json (JObj ?d)" by simp
  then have parse: "loads (dumps (JObj ?d)) = Inr (JObj ?d)" by (rule loads_dumps)
  have "x = Some (dumps (JObj ?d))" using store_get(1) [OF assms(3)] assms(1) by simp
  moreover have "still_valid (JInt 0) (n_time N s1) = Inr False"
    using assms(4) by (simp add: still_valid_def dec_less_val)
  ultimately have "get_valid_google_token N (RedisStore R pfx) F app u s = refresh_google_token N (RedisStore R pfx) F app u (JObj ?d) s1"
    using assms(3) parse by (simp add: get_valid_run dict_item_def del: dumps.simps)
  then show ?thesis using refresh_sent [of ?d enc F rt pfx app u s1] assms(2) get_sent [OF assms(3)] by simp
qed

end

section \<open>Slack tokens\<close>

lemma encrypt_if_given_run:
  assumes "cipher F v" "encrypt_if_given F key tok d s = (Inr d', s')"
  shows "v s' = v s" "truthy_opt tok \<Longrightarrow> \<exists>enc. f_decrypt F enc = Inr (the tok) \<and> d' = dict_set key (JStr enc) d"
    "\<not> truthy_opt tok \<Longrightarrow> d' = d"
  using assms(2) cipher.decrypt_encrypt [OF assms(1)] cipher.encrypt_view [OF assms(1)]
  by (auto simp: encrypt_if_given_def bindM_def split: if_splits prod.splits sum.splits) blast

definition slack_key :: "string \<Rightarrow> string" where
  "slack_key token_type = token_type @ ''_token_enc''"

context gateway_world
begin

lemma get_slack:
  assumes "live_str (\<alpha> s) (pfx @ u) = Some (dumps (JObj d))" "wf_json (JObj d)"
    and "st_get (RedisStore R pfx) u s = (Inr x, s1)" "token_type \<in> {''bot'', ''user''}"
  shows "dict_get d (slack_key token_type) = None \<Longrightarrow> get_valid_slack_token (RedisStore R pfx) F u token_type s =
      (Inl (SlackTokenNotFoundError (''Slack '' @ token_type @ '' token not provisioned'')), s1)"
    and "dict_get d (slack_key token_type) = Some (JStr enc) \<Longrightarrow> get_valid_slack_token (RedisStore R pfx) F u token_type s = (f_decrypt F enc, s1)"
proof -
  have "x = Some (dumps (JObj d))" using store_get(1) [OF assms(3)] assms(1) by simp
  with assms(3) have get: "st_get (RedisStore R pfx) u s = (Inr (Some (dumps (JObj d))), s1)" by simp
  show "dict_get d (slack_key token_type) = None \<Longrightarrow> get_valid_slack_token (RedisStore R pfx) F u token_type s =
      (Inl (SlackTokenNotFoundError (''Slack '' @ token_type @ '' token not provisioned'')), s1)"
    using assms(4) loads_dumps [OF assms(2)] get
    by (auto simp: get_valid_slack_token_def bindM_def j_contains_def slack_key_def simp del: dumps.simps)
  show "dict_get d (slack_key token_type) = Some (JStr enc) \<Longrightarrow> get_valid_slack_token (RedisStore R pfx) F u token_type s = (f_decrypt F enc, s1)"
    using assms(4) loads_dumps [OF assms(2)] get
    by (auto simp: get_valid_slack_token_def bindM_def j_contains_def slack_key_def dict_item_def j_encode_def simp del: dumps.simps)
qed

lemma seed_slack:
  assumes c: "cipher F (\<lambda>s. (\<alpha> s, sent s))" and some: "truthy_opt bt \<or> truthy_opt usr"
    and none: "live_str (\<alpha> s) (pfx @ SLACK_SHARED_USER) = None"
    and run: "seed_shared_slack_tokens_if_absent (RedisStore R pfx) F bt usr s = (Inr (), s')"
  shows "\<exists>d. live_str (\<alpha> s') (pfx @ SLACK_SHARED_USER) = Some (dumps (JObj d)) \<and> wf_json (JObj d)
    \<and> (if truthy_opt bt then \<exists>enc. dict_get d (slack_key ''bot'') = Some (JStr enc) \<and> f_decrypt F enc = Inr (the bt)
       else dict_get d (slack_key ''bot'') = None)
    \<and> (if truthy_opt usr then \<exists>enc. dict_get d (slack_key ''user'') = Some (JStr enc) \<and> f_decrypt F enc = Inr (the usr)
       else dict_get d (slack_key ''user'') = None)"
proof -
  have outer: "\<not> (\<not> truthy_opt bt \<and> \<not> truthy_opt usr)" using some by simp
  from run obtain old s1 where get: "st_get (RedisStore R pfx) SLACK_SHARED_USER s = (Inr old, s1)"
    and rest: "(if old \<noteq> None then ret () else bindM (encrypt_if_given F ''bot_token_enc'' bt [(''team_id'', JStr [])]) (\<lambda>d1.
             bindM (encrypt_if_given F ''user_token_enc'' usr d1) (\<lambda>d2. st_set (RedisStore R pfx) SLACK_SHARED_USER (dumps (JObj d2)) None))) s1 = (Inr (), s')"
    unfolding seed_shared_slack_tokens_if_absent_def if_not_P [OF outer] by (elim bindM_InrE)
  have "old = None" using store_get(1) [OF get] none by simp
  with rest obtain d1 s2 d2 s3 where e1: "encrypt_if_given F ''bot_token_enc'' bt [(''team_id'', JStr [])] s1 = (Inr d1, s2)"
    and e2: "encrypt_if_given F ''user_token_enc'' usr d1 s2 = (Inr d2, s3)"
    and set: "st_set (RedisStore R pfx) SLACK_SHARED_USER (dumps (JObj d2)) None s3 = (Inr (), s')"
    by (simp del: dumps.simps) (elim bindM_InrE)
  note r1 = encrypt_if_given_run(2,3) [OF c e1] and r2 = encrypt_if_given_run(2,3) [OF c e2]
  have "wf_json (JObj d1)" using r1 by (cases "truthy_opt bt") (auto intro!: wf_dict_set)
  then have "wf_json (JObj d2)" using r2 by (cases "truthy_opt usr") (auto intro!: wf_dict_set simp del: wf_json.simps(3))
  moreover have "live_str (\<alpha> s') (pfx @ SLACK_SHARED_USER) = Some (dumps (JObj d2))"
    using fun_cong [OF store_set [OF set], of SLACK_SHARED_USER] by simp
  ultimately show ?thesis using r1 r2
    by (intro exI [of _ d2]) (auto simp: slack_key_def simp del: dumps.simps wf_json.simps)
qed

lemma seed_slack_present:
  assumes "live_str (\<alpha> s) (pfx @ SLACK_SHARED_USER) \<noteq> None"
    and run: "seed_shared_slack_tokens_if_absent (RedisStore R pfx) F bt usr s = (Inr (), s')"
  shows "live_str (\<alpha> s') (pfx @ k) = live_str (\<alpha> s) (pfx @ k)"
proof (cases "\<not> truthy_opt bt \<and> \<not> truthy_opt usr")
  case True
  with run show ?thesis by (simp add: seed_shared_slack_tokens_if_absent_def)
next
  case False
  from run obtain old s1 where get: "st_get (RedisStore R pfx) SLACK_SHARED_USER s = (Inr old, s1)"
    and rest: "(if old \<noteq> None then ret () else bindM (encrypt_if_given F ''bot_token_enc'' bt [(''team_id'', JStr [])]) (\<lambda>d1.
             bindM (encrypt_if_given F ''user_token_enc'' usr d1) (\<lambda>d2. st_set (RedisStore R pfx) SLACK_SHARED_USER (dumps (JObj d2)) None))) s1 = (Inr (), s')"
    unfolding seed_shared_slack_tokens_if_absent_def if_not_P [OF False] by (elim bindM_InrE)
  have "old \<noteq> None" and same: "(\<lambda>k. live_str (\<alpha> s1) (pfx @ k)) = (\<lambda>k. live_str (\<alpha> s) (pfx @ k))"
    using store_get(1) [OF get] assms(1) by simp_all
  with rest fun_cong [OF same, of k] show ?thesis by auto
qed

end

section \<open>Properties\<close>

text \<open>
  C21: an access token is used until shortly before it expires. After a call that returned a token, as
  long as the stored document is the one that call left and its expiry is more than a minute away,
  the next call returns the same token and sends nothing.
\<close>

theorem google_token_reused:
  assumes "gateway_world R \<alpha> N sent"
    and "get_valid_google_token N (google_token_store R) F app u s = (Inr tok, s')"
    and "live_str (\<alpha> t) (''token:'' @ u) = live_str (\<alpha> s') (''token:'' @ u)"
    and "st_get (google_token_store R) u t = (Inr x, t1)"
    and "live_str (\<alpha> t) (''token:'' @ u) = Some raw" "loads raw = Inr (JObj d)"
      "dict_get d ''expires_at'' = Some e" "still_valid e (n_time N t1) = Inr True"
  shows "get_valid_google_token N (google_token_store R) F app u t = (Inr tok, t1) \<and> sent t1 = sent t"
proof
  note defs = google_token_store_def [of R]
  from gateway_world.token_stored [OF assms(1) assms(2) [unfolded defs]] assms(3,5,6)
  have "dict_get d ''access_token'' = Some tok" by auto
  from gateway_world.get_valid_hit [OF assms(1) assms(4) [unfolded defs] assms(5-8) this]
  show "get_valid_google_token N (google_token_store R) F app u t = (Inr tok, t1)" by (simp add: defs)
  show "sent t1 = sent t" using gateway_world.get_sent [OF assms(1) assms(4) [unfolded defs]] .
qed

abbreviation sample_app :: google_app where
  "sample_app \<equiv> \<lparr>g_client_id = ''id'', g_client_secret = ''secret''\<rparr>"

abbreviation sample_doc :: "int \<Rightarrow> (string, json) dict" where
  "sample_doc e \<equiv> [(''access_token'', JStr ''tok''), (''refresh_token_enc'', JStr ''gtr''), (''expires_at'', JInt e)]"

definition token_world :: "int \<Rightarrow> world" where
  "token_world e = (sample_world [])\<lparr>w_redis := \<lparr>rs_now = 0, rs_db = [(''token:u1'', (RStr (dumps (JObj (sample_doc e))), None))]\<rparr>\<rparr>"

lemma token_world_facts:
  "live_str (w_redis (token_world e)) ''token:u1'' = Some (dumps (JObj (sample_doc e)))"
  "st_get (google_token_store world_redis) ''u1'' (token_world e) = (Inr (Some (dumps (JObj (sample_doc e)))), token_world e)"
  "w_now (token_world e) = Dec 1709210096 0" "w_sent (token_world e) = []"
  "loads (dumps (JObj (sample_doc e))) = Inr (JObj (sample_doc e))"
proof -
  have "wf_json (JObj (sample_doc e))" by simp
  then show "loads (dumps (JObj (sample_doc e))) = Inr (JObj (sample_doc e))" by (rule loads_dumps)
qed (simp_all add: token_world_def sample_world_def live_str_def rs_find_def google_token_store_def RedisStore_def
    RedisStore_get_def world_redis_def on_redis_def rs_get_def del: dumps.simps)

theorem google_token_reused_witness:
  "get_valid_google_token world_net (google_token_store world_redis) world_fernet sample_app ''u1'' (token_world 2000000000)
    = (Inr (JStr ''tok''), token_world 2000000000) \<and> w_sent (token_world 2000000000) = []"
proof -
  have valid: "still_valid (JInt 2000000000) (n_time world_net (token_world 2000000000)) = Inr True"
    by (simp add: token_world_facts still_valid_def dec_less_val)
  have first: "get_valid_google_token world_net (google_token_store world_redis) world_fernet sample_app ''u1'' (token_world 2000000000)
      = (Inr (JStr ''tok''), token_world 2000000000)"
    using world.get_valid_hit [of "''token:''" "''u1''" "token_world 2000000000" _ "token_world 2000000000" _ "sample_doc 2000000000" "JInt 2000000000" "JStr ''tok''"]
      token_world_facts [of 2000000000] valid by (simp add: google_token_store_def del: dumps.simps)
  from google_token_reused [OF world.gateway_world_axioms first, of "token_world 2000000000"] valid token_world_facts [of 2000000000]
  show ?thesis by (simp del: dumps.simps)
qed

text \<open>
  What a token lookup may send. A call sends nothing, or exactly one request: the refresh grant with
  the refresh token that the stored document holds in encrypted form, to Google's token endpoint.
\<close>

theorem google_token_requests:
  assumes "gateway_world R \<alpha> N sent"
    and "get_valid_google_token N (google_token_store R) F app u s = (r, s')"
  shows "sent s' = sent s \<or> (\<exists>raw d enc rt. live_str (\<alpha> s) (''token:'' @ u) = Some raw \<and> loads raw = Inr (JObj d)
      \<and> dict_get d ''refresh_token_enc'' = Some (JStr enc) \<and> f_decrypt F enc = Inr rt
      \<and> sent s' = sent s @ [refresh_request app rt])"
  using gateway_world.get_valid_sent [OF assms(1), of "''token:''" F app u s] assms(2) by (simp add: google_token_store_def)

theorem google_token_requests_witness:
  "w_sent (snd (get_valid_google_token world_net (google_token_store world_redis) world_fernet sample_app ''u1'' (token_world 0))) \<in>
    {[], [refresh_request sample_app ''rt'']}"
proof -
  have "f_decrypt world_fernet ''gtr'' = Inr ''rt''" by (simp add: world_fernet_def)
  moreover obtain r s' where "get_valid_google_token world_net (google_token_store world_redis) world_fernet sample_app ''u1'' (token_world 0) = (r, s')"
    by fastforce
  ultimately show ?thesis
    using google_token_requests [OF world.gateway_world_axioms, of world_fernet sample_app "''u1''" "token_world 0" r s'] token_world_facts [of 0]
    by (auto simp del: dumps.simps)
qed

text \<open>
  C22: seeding is safe to repeat and starts the rotation. With a token already stored, seeding changes no
  key of the store and sends nothing. With none stored, it stores the given refresh token encrypted,
  so that the first use refreshes against Google with exactly that token.
\<close>

theorem google_seed_rotation_safe:
  assumes "gateway_world R \<alpha> N sent" "cipher F (\<lambda>s. (\<alpha> s, sent s))" "rt \<noteq> []"
    and run: "seed_shared_token_if_absent (google_token_store R) F (Some rt) s = (Inr (), s')"
  shows "sent s' = sent s
    \<and> (live_str (\<alpha> s) ''token:google:shared'' \<noteq> None \<longrightarrow> (\<forall>k. live_str (\<alpha> s') (''token:'' @ k) = live_str (\<alpha> s) (''token:'' @ k)))
    \<and> (live_str (\<alpha> s) ''token:google:shared'' = None \<longrightarrow> st_get (google_token_store R) GOOGLE_SHARED_USER s' = (Inr x, s1)
        \<longrightarrow> dec_less (dec_of_int (-60)) (n_time N s1)
        \<longrightarrow> sent (snd (get_valid_google_token N (google_token_store R) F app GOOGLE_SHARED_USER s')) = sent s @ [refresh_request app rt])"
proof -
  note defs = google_token_store_def [of R] and key = GOOGLE_SHARED_USER_def
  note seed = gateway_world.seed_google [OF assms(1-3) run [unfolded defs]]
  have first: "sent (snd (get_valid_google_token N (google_token_store R) F app GOOGLE_SHARED_USER s')) = sent s @ [refresh_request app rt]"
    if none: "live_str (\<alpha> s) ''token:google:shared'' = None" and get: "st_get (google_token_store R) GOOGLE_SHARED_USER s' = (Inr x, s1)"
      and time: "dec_less (dec_of_int (-60)) (n_time N s1)"
  proof -
    from none seed(3) obtain enc where enc: "f_decrypt F enc = Inr rt" "live_str (\<alpha> s') (''token:'' @ GOOGLE_SHARED_USER) =
        Some (dumps (JObj [(''access_token'', JStr []), (''refresh_token_enc'', JStr enc), (''expires_at'', JInt 0)]))"
      by (auto simp: key)
    from gateway_world.first_use_refreshes [OF assms(1) enc(2,1) get [unfolded defs] time] seed(1) show ?thesis by (simp add: defs)
  qed
  have "live_str (\<alpha> s') (''token:'' @ k) = live_str (\<alpha> s) (''token:'' @ k)" if "live_str (\<alpha> s) ''token:google:shared'' \<noteq> None" for k
    using seed(2) that by (simp add: key)
  with first seed(1) show ?thesis by blast
qed

theorem google_seed_rotation_safe_witness:
  "\<exists>s'. seed_shared_token_if_absent (google_token_store world_redis) world_fernet (Some ''rt'') (sample_world []) = (Inr (), s')
    \<and> w_sent (snd (get_valid_google_token world_net (google_token_store world_redis) world_fernet sample_app GOOGLE_SHARED_USER s'))
        = [refresh_request sample_app ''rt'']"
proof -
  note defs = google_token_store_def RedisStore_def RedisStore_get_def RedisStore_set_def world_redis_def on_redis_def
    rs_get_def rs_set_def rs_find_def sample_world_def bindM_def
  obtain s' where run: "seed_shared_token_if_absent (google_token_store world_redis) world_fernet (Some ''rt'') (sample_world []) = (Inr (), s')"
    and now: "w_now s' = Dec 1709210096 0"
    by (simp add: seed_shared_token_if_absent_def seed_refresh_token_def world_fernet_def defs del: dumps.simps)
  have none: "live_str (w_redis (sample_world [])) ''token:google:shared'' = None"
    by (simp add: live_str_def rs_find_def sample_world_def)
  obtain x s1 where get: "st_get (google_token_store world_redis) GOOGLE_SHARED_USER s' = (Inr x, s1)" "w_now s1 = w_now s'"
    using run by (simp add: seed_shared_token_if_absent_def seed_refresh_token_def world_fernet_def defs alive_def del: dumps.simps)
      (auto simp: rs_put_def alive_def)
  from google_seed_rotation_safe [OF world.gateway_world_axioms wcipher.cipher_axioms _ run, of x s1 sample_app] get none now
  have "w_sent (snd (get_valid_google_token world_net (google_token_store world_redis) world_fernet sample_app GOOGLE_SHARED_USER s'))
        = w_sent (sample_world []) @ [refresh_request sample_app ''rt'']"
    by (simp add: dec_less_val)
  with run show ?thesis by (auto simp: sample_world_def)
qed

text \<open>
  Slack tokens round trip. Seeding an empty store with a bot token, a user token or both makes
  exactly those available: a lookup of a seeded kind gives the token that was seeded, a lookup of
  the other kind says that it is not provisioned. A store that holds tokens already is not changed.
\<close>

theorem slack_seed_round_trip:
  assumes "gateway_world R \<alpha> N sent" "cipher F (\<lambda>s. (\<alpha> s, sent s))" "truthy_opt bt \<or> truthy_opt usr"
    and run: "seed_shared_slack_tokens_if_absent (slack_token_store R) F bt usr s = (Inr (), s')"
    and get: "st_get (slack_token_store R) SLACK_SHARED_USER s' = (Inr x, s1)"
  shows "(live_str (\<alpha> s) ''slack:token:shared'' \<noteq> None \<longrightarrow> (\<forall>k. live_str (\<alpha> s') (''slack:token:'' @ k) = live_str (\<alpha> s) (''slack:token:'' @ k)))
    \<and> (live_str (\<alpha> s) ''slack:token:shared'' = None \<longrightarrow>
        get_valid_slack_token (slack_token_store R) F SLACK_SHARED_USER ''bot'' s' =
          (if truthy_opt bt then Inr (the bt) else Inl (SlackTokenNotFoundError ''Slack bot token not provisioned''), s1)
      \<and> get_valid_slack_token (slack_token_store R) F SLACK_SHARED_USER ''user'' s' =
          (if truthy_opt usr then Inr (the usr) else Inl (SlackTokenNotFoundError ''Slack user token not provisioned''), s1))"
proof (intro conjI impI allI)
  note defs = slack_token_store_def [of R]
  have key: "''slack:token:'' @ SLACK_SHARED_USER = ''slack:token:shared''" by (simp add: SLACK_SHARED_USER_def)
  show "live_str (\<alpha> s') (''slack:token:'' @ k) = live_str (\<alpha> s) (''slack:token:'' @ k)"
    if "live_str (\<alpha> s) ''slack:token:shared'' \<noteq> None" for k
    using gateway_world.seed_slack_present [OF assms(1) _ run [unfolded defs], unfolded key] that by blast
  assume none: "live_str (\<alpha> s) ''slack:token:shared'' = None"
  from gateway_world.seed_slack [OF assms(1-3) _ run [unfolded defs], unfolded key, OF none] obtain d where
    d: "live_str (\<alpha> s') (''slack:token:'' @ SLACK_SHARED_USER) = Some (dumps (JObj d))" "wf_json (JObj d)"
    and b: "if truthy_opt bt then \<exists>enc. dict_get d (slack_key ''bot'') = Some (JStr enc) \<and> f_decrypt F enc = Inr (the bt) else dict_get d (slack_key ''bot'') = None"
    and u: "if truthy_opt usr then \<exists>enc. dict_get d (slack_key ''user'') = Some (JStr enc) \<and> f_decrypt F enc = Inr (the usr) else dict_get d (slack_key ''user'') = None"
    unfolding key by blast
  note look = gateway_world.get_slack [OF assms(1) d get [unfolded defs], where F = F]
  show "get_valid_slack_token (slack_token_store R) F SLACK_SHARED_USER ''bot'' s' =
      (if truthy_opt bt then Inr (the bt) else Inl (SlackTokenNotFoundError ''Slack bot token not provisioned''), s1)"
    using b look [of "''bot''"] by (auto simp: defs)
  show "get_valid_slack_token (slack_token_store R) F SLACK_SHARED_USER ''user'' s' =
      (if truthy_opt usr then Inr (the usr) else Inl (SlackTokenNotFoundError ''Slack user token not provisioned''), s1)"
    using u look [of "''user''"] by (auto simp: defs)
qed

theorem slack_seed_round_trip_witness:
  "\<exists>s' s1. seed_shared_slack_tokens_if_absent (slack_token_store world_redis) world_fernet (Some ''xoxb'') None (sample_world []) = (Inr (), s')
    \<and> get_valid_slack_token (slack_token_store world_redis) world_fernet SLACK_SHARED_USER ''bot'' s' = (Inr ''xoxb'', s1)
    \<and> get_valid_slack_token (slack_token_store world_redis) world_fernet SLACK_SHARED_USER ''user'' s'
        = (Inl (SlackTokenNotFoundError ''Slack user token not provisioned''), s1)"
proof -
  note defs = slack_token_store_def RedisStore_def RedisStore_get_def RedisStore_set_def world_redis_def on_redis_def
    rs_get_def rs_set_def rs_find_def sample_world_def bindM_def
  obtain s' where run: "seed_shared_slack_tokens_if_absent (slack_token_store world_redis) world_fernet (Some ''xoxb'') None (sample_world []) = (Inr (), s')"
    by (simp add: seed_shared_slack_tokens_if_absent_def encrypt_if_given_def world_fernet_def defs del: dumps.simps)
  have none: "live_str (w_redis (sample_world [])) ''slack:token:shared'' = None"
    by (simp add: live_str_def rs_find_def sample_world_def)
  obtain x s1 where get: "st_get (slack_token_store world_redis) SLACK_SHARED_USER s' = (Inr x, s1)"
    using run by (simp add: seed_shared_slack_tokens_if_absent_def encrypt_if_given_def world_fernet_def defs alive_def del: dumps.simps)
      (auto simp: rs_put_def alive_def)
  from slack_seed_round_trip [OF world.gateway_world_axioms wcipher.cipher_axioms _ run get] none run show ?thesis by auto
qed

end
