(* ===== verification/Usage.thy ===== *)
theory Usage
  imports Http_Client Py_Format
begin

text \<open>
  Usage accounting: the decorator of \<open>app/shared/usage.py\<close> that records the tokens of a tool call, and the
  admin endpoint of \<open>app/api/usage_router.py\<close> that adds them up. The token counter (tiktoken) is a
  parameter.
\<close>

section \<open>Tool results and tools\<close>

text \<open>A \<open>CallToolResult\<close> with the texts of its content blocks.\<close>

record tool_result =
  tr_error :: bool
  tr_texts :: "string list"
  tr_structured :: "json option"

definition tool_error :: "string \<Rightarrow> tool_result" where
  "tool_error message = \<lparr>tr_error = True, tr_texts = [message], tr_structured = None\<rparr>"

text \<open>\<open>_ok(data)\<close>: a string is the text itself, anything else its JSON form.\<close>

definition tool_ok :: "json \<Rightarrow> tool_result" where
  "tool_ok data = \<lparr>tr_error = False, tr_texts = [case data of JStr s \<Rightarrow> s | _ \<Rightarrow> dumps data], tr_structured = None\<rparr>"

type_synonym arguments = "(string, json) dict"
type_synonym 's tool = "ctx \<Rightarrow> arguments \<Rightarrow> ('s, tool_result) prog"

section \<open>Recording\<close>

definition count_tokens :: "(string \<Rightarrow> ('s, nat) prog) \<Rightarrow> string \<Rightarrow> ('s, nat) prog" where
  "count_tokens encode s = encode s"

definition usage_fields :: "dec \<Rightarrow> string \<Rightarrow> nat \<Rightarrow> nat \<Rightarrow> fields" where
  "usage_fields t tool in_tokens out_tokens =
     [(''ts'', dec_str t), (''tool'', tool), (''in_tokens'', int_str (int in_tokens)), (''out_tokens'', int_str (int out_tokens))]"

definition record_usage :: "'s redis \<Rightarrow> 's net \<Rightarrow> string \<Rightarrow> string \<Rightarrow> nat \<Rightarrow> nat \<Rightarrow> ('s, unit) prog" where
  "record_usage R N user_id tool in_tokens out_tokens =
     bindM (asks (n_time N)) (\<lambda>t.
     bindM (r_xadd R (''usage:'' @ user_id) (usage_fields t tool in_tokens out_tokens)) (\<lambda>_. ret ()))"

definition result_text :: "tool_result \<Rightarrow> string" where
  "result_text result = concat (filter (\<lambda>t. t \<noteq> []) (tr_texts result))"

definition record_call :: "'s redis option \<Rightarrow> 's net \<Rightarrow> (string \<Rightarrow> ('s, nat) prog) \<Rightarrow> string \<Rightarrow> ctx \<Rightarrow> arguments \<Rightarrow> tool_result \<Rightarrow> ('s, unit) prog" where
  "record_call redis N encode tool_name ctx arguments result =
     (let user_id = (case current_user_id ctx of None \<Rightarrow> [] | Some u \<Rightarrow> u) in
      case redis of None \<Rightarrow> ret ()
      | Some R \<Rightarrow> if user_id = [] then ret ()
          else bindM (count_tokens encode (dumps (JObj arguments))) (\<lambda>in_tokens.
               bindM (count_tokens encode (result_text result)) (\<lambda>out_tokens.
                 record_usage R N user_id tool_name in_tokens out_tokens)))"

definition track_usage :: "'s redis option \<Rightarrow> 's net \<Rightarrow> (string \<Rightarrow> ('s, nat) prog) \<Rightarrow> string \<Rightarrow> 's tool \<Rightarrow> 's tool" where
  "track_usage redis N encode tool_name handler ctx arguments =
     bindM (handler ctx arguments) (\<lambda>result.
     bindM (tryM (record_call redis N encode tool_name ctx arguments result)
              (\<lambda>e. if is_exception e then ret () else raise e)) (\<lambda>_.
       ret result))"

section \<open>The admin endpoint\<close>

definition ADMIN_SCOPE :: string where
  "ADMIN_SCOPE = ''mcp:admin:read''"

definition require_admin_scope :: "request \<Rightarrow> unit res" where
  "require_admin_scope request =
     (let scopes = (case rq_user request of None \<Rightarrow> [] | Some u \<Rightarrow> u_scopes u)
      in if ADMIN_SCOPE \<notin> set scopes then Inl (HTTPException 403 ''Missing scope: mcp:admin:read'') else Inr ())"

definition before_cutoff :: "pyfloat \<Rightarrow> dec \<Rightarrow> bool" where
  "before_cutoff ts cutoff = (case ts of Fin d \<Rightarrow> dec_less d cutoff | NegInf \<Rightarrow> True | _ \<Rightarrow> False)"

definition field_float :: "fields \<Rightarrow> string \<Rightarrow> pyfloat res" where
  "field_float fs k = bind_res (dict_item fs k) (\<lambda>s. case py_float s of None \<Rightarrow> Inl (ValueError s) | Some x \<Rightarrow> Inr x)"

definition field_int :: "fields \<Rightarrow> string \<Rightarrow> int res" where
  "field_int fs k = bind_res (dict_item fs k) (\<lambda>s. case py_int s of None \<Rightarrow> Inl (ValueError s) | Some x \<Rightarrow> Inr x)"

text \<open>The loop over the entries, with the events so far and the two totals.\<close>

fun usage_loop :: "dec \<Rightarrow> entry list \<Rightarrow> json list \<Rightarrow> int \<Rightarrow> int \<Rightarrow> (json list \<times> int \<times> int) res" where
  "usage_loop cutoff [] events total_in total_out = Inr (events, total_in, total_out)"
| "usage_loop cutoff ((_, fs) # rest) events total_in total_out =
     bind_res (field_float fs ''ts'') (\<lambda>ts.
       if before_cutoff ts cutoff then usage_loop cutoff rest events total_in total_out
       else bind_res (field_int fs ''in_tokens'') (\<lambda>in_tokens.
            bind_res (field_int fs ''out_tokens'') (\<lambda>out_tokens.
            bind_res (dict_item fs ''tool'') (\<lambda>tool.
              usage_loop cutoff rest
                (events @ [JObj [(''ts'', JFloat ts), (''tool'', JStr tool), (''in_tokens'', JInt in_tokens), (''out_tokens'', JInt out_tokens)]])
                (total_in + in_tokens) (total_out + out_tokens)))))"

definition get_usage :: "'s redis \<Rightarrow> 's net \<Rightarrow> request \<Rightarrow> string \<Rightarrow> int \<Rightarrow> ('s, json) prog" where
  "get_usage R N request user_id hours =
     bindM (lift_res (require_admin_scope request)) (\<lambda>_.
     bindM (asks (n_time N)) (\<lambda>t.
     bindM (r_xrange R (''usage:'' @ user_id)) (\<lambda>entries.
     bindM (lift_res (usage_loop (dec_sub t (dec_of_int (hours * 3600))) entries [] 0 0)) (\<lambda>(events, total_in, total_out).
       ret (JObj [(''user_id'', JStr user_id), (''hours'', JInt hours), (''count'', JInt (int (length events))),
         (''total_in_tokens'', JInt total_in), (''total_out_tokens'', JInt total_out), (''events'', JArr events)])))))"

section \<open>The log of a user\<close>

text \<open>The calls recorded for a user: time, tool and the two counts.\<close>

type_synonym call = "dec \<times> string \<times> nat \<times> nat"

definition usage_log :: "rstate \<Rightarrow> string \<Rightarrow> call list \<Rightarrow> bool" where
  "usage_log st u calls \<longleftrightarrow> map snd (s_entries (rs_stream st (''usage:'' @ u))) = map (\<lambda>(t, tool, i, n). usage_fields t tool i n) calls"

definition recent :: "dec \<Rightarrow> int \<Rightarrow> call list \<Rightarrow> call list" where
  "recent now hours calls = filter (\<lambda>(t, _). dec_val now - of_int (hours * 3600) \<le> dec_val t) calls"

lemma usage_loop_calls:
  assumes "map snd es = map (\<lambda>(t, tool, i, n). usage_fields t tool i n) calls"
  shows "\<exists>ev. usage_loop (dec_sub now (dec_of_int (hours * 3600))) es events ti tn =
    Inr (events @ ev, ti + sum_list (map (\<lambda>(_, _, i, _). int i) (recent now hours calls)),
      tn + sum_list (map (\<lambda>(_, _, _, n). int n) (recent now hours calls)))
    \<and> length ev = length (recent now hours calls)"
  using assms
proof (induction calls arbitrary: es events ti tn)
  case Nil
  then show ?case by (simp add: recent_def)
next
  case (Cons c calls)
  obtain t tool i n where c: "c = (t, tool, i, n)" by (cases c)
  from Cons.prems obtain x rest where es: "es = (x, usage_fields t tool i n) # rest"
    and rest: "map snd rest = map (\<lambda>(t, tool, i, n). usage_fields t tool i n) calls"
    by (cases es) (auto simp: c)
  obtain d where d: "py_float (dec_str t) = Some (Fin d)" "dec_val d = dec_val t" using py_float_dec_str_val by blast
  have f: "field_float (usage_fields t tool i n) ''ts'' = Inr (Fin d)" "dict_item (usage_fields t tool i n) ''tool'' = Inr tool"
    "field_int (usage_fields t tool i n) ''in_tokens'' = Inr (int i)" "field_int (usage_fields t tool i n) ''out_tokens'' = Inr (int n)"
    using d(1) by (simp_all add: field_float_def field_int_def usage_fields_def dict_item_def del: dec_str.simps)
  have cut: "before_cutoff (Fin d) (dec_sub now (dec_of_int (hours * 3600))) \<longleftrightarrow> \<not> dec_val now - of_int (hours * 3600) \<le> dec_val t"
    by (simp add: before_cutoff_def dec_less_val d(2) not_le)
  show ?case
  proof (cases "dec_val now - of_int (hours * 3600) \<le> dec_val t")
    case True
    let ?e = "JObj [(''ts'', JFloat (Fin d)), (''tool'', JStr tool), (''in_tokens'', JInt (int i)), (''out_tokens'', JInt (int n))]"
    from Cons.IH [OF rest, of "events @ [?e]" "ti + int i" "tn + int n"] show ?thesis
      using True cut f by (auto simp: es c recent_def add.assoc)
  next
    case False
    from Cons.IH [OF rest, of events ti tn] show ?thesis using False cut f by (simp add: es c recent_def)
  qed
qed

lemma xadd_log:
  assumes "rs_xadd (''usage:'' @ u) (usage_fields t tool i n) st = (Inr k, st')"
  shows "usage_log st u calls \<Longrightarrow> usage_log st' u (calls @ [(t, tool, i, n)])"
    and "u' \<noteq> u \<Longrightarrow> usage_log st u' calls' \<Longrightarrow> usage_log st' u' calls'"
  using rs_xadd_effect(1) [OF assms] rs_xadd_effect(3) [OF assms, of "''usage:'' @ u'"]
  by (simp_all add: usage_log_def rs_stream_def)

context redis_server
begin

lemma record_usage_xadd:
  assumes "record_usage R N u tool i n s = (Inr x, s')"
  shows "\<exists>k. rs_xadd (''usage:'' @ u) (usage_fields (n_time N s) tool i n) (\<alpha> s) = (Inr k, \<alpha> s')"
  using assms unfolding record_usage_def by (auto elim!: bindM_InrE dest!: simulatesD_Inr [OF sim_xadd])

lemma get_usage_returns:
  assumes "get_usage R N rq u hours s = (Inr j, s')" "usage_log (\<alpha> s) u calls"
  shows "\<exists>ev. j = JObj [(''user_id'', JStr u), (''hours'', JInt hours), (''count'', JInt (int (length ev))),
      (''total_in_tokens'', JInt (sum_list (map (\<lambda>(_, _, i, _). int i) (recent (n_time N s) hours calls)))),
      (''total_out_tokens'', JInt (sum_list (map (\<lambda>(_, _, _, n). int n) (recent (n_time N s) hours calls)))),
      (''events'', JArr ev)] \<and> length ev = length (recent (n_time N s) hours calls)"
proof -
  from assms(1) obtain es s1 evs ti tn where es: "r_xrange R (''usage:'' @ u) s = (Inr es, s1)"
    and loop: "usage_loop (dec_sub (n_time N s) (dec_of_int (hours * 3600))) es [] 0 0 = Inr (evs, ti, tn)"
    and j: "j = JObj [(''user_id'', JStr u), (''hours'', JInt hours), (''count'', JInt (int (length evs))),
         (''total_in_tokens'', JInt ti), (''total_out_tokens'', JInt tn), (''events'', JArr evs)]"
    unfolding get_usage_def by (auto elim!: bindM_InrE split: prod.splits)
  from simulatesD_Inr [OF sim_xrange es] have "es = s_entries (rs_stream (\<alpha> s) (''usage:'' @ u))"
    by (auto simp: rs_xrange_def split: if_splits)
  with assms(2) have "map snd es = map (\<lambda>(t, tool, i, n). usage_fields t tool i n) calls" by (simp add: usage_log_def)
  from usage_loop_calls [OF this, of "n_time N s" hours "[]" 0 0] loop j show ?thesis by auto
qed

end

section \<open>Properties\<close>

text \<open>
  C27: accounting never changes a tool. Whatever Redis or the token counter does, the wrapped tool gives
  the outcome of the tool itself: an exception of the tool passes through with nothing recorded, and a
  result is returned as it is, unless the task is cancelled while the call is recorded.
\<close>

theorem usage_tracking_transparent:
  assumes "handler ctx args s = (r, s1)"
  shows "case r of
      Inl e \<Rightarrow> track_usage redis N encode tool handler ctx args s = (Inl e, s1)
    | Inr x \<Rightarrow> fst (track_usage redis N encode tool handler ctx args s) \<in> {Inr x, Inl CancelledError}"
proof (cases r)
  case (Inl e)
  with assms show ?thesis by (simp add: track_usage_def bindM_def)
next
  case (Inr x)
  obtain q s2 where "record_call redis N encode tool ctx args x s1 = (q, s2)" by fastforce
  with Inr assms show ?thesis
    by (cases q) (auto simp: track_usage_def bindM_def tryM_def is_exception_def)
qed

abbreviation usage_world :: "(string, rval \<times> int option) dict \<Rightarrow> world" where
  "usage_world db \<equiv> \<lparr>w_redis = \<lparr>rs_now = 0, rs_db = db\<rparr>, w_now = Dec 95 1, w_sent = [], w_script = [], w_files = [], w_uuid = 0\<rparr>"

abbreviation usage_ctx :: ctx where
  "usage_ctx \<equiv> \<lparr>current_user_id = Some ''u1'', current_user_scopes = {}\<rparr>"

theorem usage_tracking_transparent_witness:
  "fst (track_usage (Some world_redis) world_net (\<lambda>s w. (Inr (length s), w)) ''t'' (\<lambda>c a w. (Inr (tool_error ''x''), w))
      usage_ctx [] (usage_world [(''usage:u1'', (RStr ''x'', None))])) \<in> {Inr (tool_error ''x''), Inl CancelledError}"
  using usage_tracking_transparent [of "\<lambda>c a w. (Inr (tool_error ''x''), w)" usage_ctx "[]"
      "usage_world [(''usage:u1'', (RStr ''x'', None))]" "Inr (tool_error ''x'')" "usage_world [(''usage:u1'', (RStr ''x'', None))]"
      "Some world_redis" world_net "\<lambda>s w. (Inr (length s), w)" "''t''"]
  by simp

text \<open>
  C24: the totals are the sums of what was recorded. Take a user with the recorded calls \<open>calls\<close>; record one
  more, then query. The log is the old one with the new call (and no other user's log changes), and
  the answer to an administrator counts exactly the calls within the window and adds up exactly their
  tokens. Anyone without the admin scope gets 403 and Redis is not asked.
\<close>

theorem usage_accounting:
  assumes "redis_server R \<alpha>" "usage_log (\<alpha> s) u calls" "record_usage R N u tool i n s = (Inr x, s1)"
    and "get_usage R N rq u hours s1 = (Inr j, s2)"
  shows "usage_log (\<alpha> s1) u (calls @ [(n_time N s, tool, i, n)])
    \<and> (\<forall>u' calls'. u' \<noteq> u \<longrightarrow> usage_log (\<alpha> s) u' calls' \<longrightarrow> usage_log (\<alpha> s1) u' calls')
    \<and> (let seen = recent (n_time N s1) hours (calls @ [(n_time N s, tool, i, n)]) in
        \<exists>ev. j = JObj [(''user_id'', JStr u), (''hours'', JInt hours), (''count'', JInt (int (length ev))),
          (''total_in_tokens'', JInt (sum_list (map (\<lambda>(_, _, i, _). int i) seen))),
          (''total_out_tokens'', JInt (sum_list (map (\<lambda>(_, _, _, n). int n) seen))), (''events'', JArr ev)] \<and> length ev = length seen)
    \<and> (\<forall>rq' u' h t. ADMIN_SCOPE \<notin> set (case rq_user rq' of None \<Rightarrow> [] | Some v \<Rightarrow> u_scopes v) \<longrightarrow>
        get_usage R N rq' u' h t = (Inl (HTTPException 403 ''Missing scope: mcp:admin:read''), t))"
proof -
  from redis_server.record_usage_xadd [OF assms(1,3)] obtain k where
    k: "rs_xadd (''usage:'' @ u) (usage_fields (n_time N s) tool i n) (\<alpha> s) = (Inr k, \<alpha> s1)" by blast
  note log = xadd_log(1) [OF k assms(2)]
  have "get_usage R N rq' u' h t = (Inl (HTTPException 403 ''Missing scope: mcp:admin:read''), t)"
    if "ADMIN_SCOPE \<notin> set (case rq_user rq' of None \<Rightarrow> [] | Some v \<Rightarrow> u_scopes v)" for rq' u' h t
    using that by (simp add: get_usage_def require_admin_scope_def bindM_def Let_def)
  with log xadd_log(2) [OF k] redis_server.get_usage_returns [OF assms(1,4) log] show ?thesis
    unfolding Let_def by blast
qed

theorem usage_accounting_witness:
  "\<exists>s1 j s2. record_usage world_redis world_net ''u1'' ''drive-search-files'' 12 34 (usage_world []) = (Inr (), s1)
    \<and> get_usage world_redis world_net (sample_request ''/admin/usage/u1'' [] (Some (sample_user ''a'' [''mcp:admin:read'']))) ''u1'' 24 s1 = (Inr j, s2)
    \<and> (\<exists>ev. j = JObj [(''user_id'', JStr ''u1''), (''hours'', JInt 24), (''count'', JInt (int (length ev))),
         (''total_in_tokens'', JInt 12), (''total_out_tokens'', JInt 34), (''events'', JArr ev)] \<and> length ev = 1)"
proof -
  let ?rq = "sample_request ''/admin/usage/u1'' [] (Some (sample_user ''a'' [''mcp:admin:read'']))"
  let ?s1 = "snd (record_usage world_redis world_net ''u1'' ''drive-search-files'' 12 34 (usage_world []))"
  have run: "record_usage world_redis world_net ''u1'' ''drive-search-files'' 12 34 (usage_world []) = (Inr (), ?s1)" by code_simp
  have now: "w_now ?s1 = Dec 95 1" by code_simp
  have "isl (fst (get_usage world_redis world_net ?rq ''u1'' 24 ?s1)) = False" by code_simp
  then obtain j s2 where q: "get_usage world_redis world_net ?rq ''u1'' 24 ?s1 = (Inr j, s2)"
    by (metis isl_def prod.collapse sum.exhaust)
  have log: "usage_log (w_redis (usage_world [])) ''u1'' []" by (simp add: usage_log_def rs_stream_def rs_find_def empty_stream_def)
  have seen: "recent (Dec 95 1) 24 [(Dec 95 1, ''drive-search-files'', 12, 34)] = [(Dec 95 1, ''drive-search-files'', 12, 34)]"
    by (simp add: recent_def)
  have net: "n_time world_net (usage_world []) = Dec 95 1" "n_time world_net ?s1 = Dec 95 1" using now by simp_all
  from usage_accounting [OF world.redis_server_axioms log run q] obtain ev where
    "j = JObj [(''user_id'', JStr ''u1''), (''hours'', JInt 24), (''count'', JInt (int (length ev))),
         (''total_in_tokens'', JInt 12), (''total_out_tokens'', JInt 34), (''events'', JArr ev)]" "length ev = 1"
    unfolding net append_Nil seen Let_def by auto
  with run q show ?thesis by blast
qed

end
