(* ===== verification/Drive_Query.thy ===== *)
theory Drive_Query
  imports Py_Numbers
begin

text \<open>
  The composition of a Google Drive query from structured filters, \<open>app/integrations/google/drive_query.py\<close>.
  The reference is a reader of the query grammar that the clauses use: string literals between single
  quotes with the backslash escapes, clauses joined by \<open>and\<close>. Whatever text the caller supplies, the
  reader finds exactly one clause per filter, with exactly that text as its literal.
\<close>

section \<open>The code\<close>

record date =
  d_year :: nat
  d_month :: nat
  d_day :: nat

definition isoformat :: "date \<Rightarrow> string" where
  "isoformat d = fixed_digits 4 (d_year d) @ ''-'' @ fixed_digits 2 (d_month d) @ ''-'' @ fixed_digits 2 (d_day d)"

definition backslash :: char where
  "backslash = CHR 0x5C"

definition quote1 :: char where
  "quote1 = CHR 0x27"

definition drive_escape :: "string \<Rightarrow> string" where
  "drive_escape literal = str_replace1 quote1 [backslash, quote1] (str_replace1 backslash [backslash, backslash] literal)"

record drive_filters =
  name_contains :: "string option"
  full_text :: "string option"
  mime_type :: "string option"
  in_folder :: "string option"
  modified_after :: "date option"
  include_trashed :: bool

text \<open>\<open>if x: clauses.append(f x)\<close> for an optional string: \<open>None\<close> and the empty string are both false.\<close>

definition when_given :: "string option \<Rightarrow> (string \<Rightarrow> 'a) \<Rightarrow> 'a list" where
  "when_given x f = (case x of None \<Rightarrow> [] | Some s \<Rightarrow> if s = [] then [] else [f s])"

definition build_drive_query :: "drive_filters \<Rightarrow> string" where
  "build_drive_query f = str_join '' and ''
     (when_given (name_contains f) (\<lambda>s. ''name contains '' @ [quote1] @ drive_escape s @ [quote1])
    @ when_given (full_text f) (\<lambda>s. ''fullText contains '' @ [quote1] @ drive_escape s @ [quote1])
    @ when_given (mime_type f) (\<lambda>s. ''mimeType = '' @ [quote1] @ drive_escape s @ [quote1])
    @ when_given (in_folder f) (\<lambda>s. [quote1] @ drive_escape s @ [quote1] @ '' in parents'')
    @ (case modified_after f of None \<Rightarrow> [] | Some d \<Rightarrow> [''modifiedTime > '' @ [quote1] @ isoformat d @ ''T00:00:00'' @ [quote1]])
    @ (if include_trashed f then [] else [''trashed = false'']))"

section \<open>Reading a query\<close>

datatype clause = NameContains string | FullText string | MimeType string | InParents string
  | ModifiedAfter string | NotTrashed

text \<open>The rest of a literal after its opening quote: its text and what follows the closing quote.\<close>

fun read_literal :: "string \<Rightarrow> (string \<times> string) option" where
  "read_literal [] = None"
| "read_literal (c # cs) =
     (if c = quote1 then Some ([], cs)
      else if c = backslash then
        (case cs of [] \<Rightarrow> None | e # rest \<Rightarrow>
           if e = quote1 \<or> e = backslash then map_option (\<lambda>(l, r). (e # l, r)) (read_literal rest) else None)
      else map_option (\<lambda>(l, r). (c # l, r)) (read_literal cs))"

definition cut_prefix :: "string \<Rightarrow> string \<Rightarrow> string option" where
  "cut_prefix p s = (if prefix p s then Some (drop (length p) s) else None)"

definition read_field :: "string \<Rightarrow> (string \<Rightarrow> clause) \<Rightarrow> string \<Rightarrow> (clause \<times> string) option" where
  "read_field p c s = Option.bind (cut_prefix (p @ [quote1]) s) (\<lambda>r. map_option (\<lambda>(l, rest). (c l, rest)) (read_literal r))"

definition read_clause :: "string \<Rightarrow> (clause \<times> string) option" where
  "read_clause s =
     (case read_field ''name contains '' NameContains s of Some x \<Rightarrow> Some x | None \<Rightarrow>
     (case read_field ''fullText contains '' FullText s of Some x \<Rightarrow> Some x | None \<Rightarrow>
     (case read_field ''mimeType = '' MimeType s of Some x \<Rightarrow> Some x | None \<Rightarrow>
     (case read_field ''modifiedTime > '' ModifiedAfter s of Some x \<Rightarrow> Some x | None \<Rightarrow>
     (case read_field [] InParents s of
        Some (c, rest) \<Rightarrow> map_option (\<lambda>r. (c, r)) (cut_prefix '' in parents'' rest)
      | None \<Rightarrow> map_option (\<lambda>r. (NotTrashed, r)) (cut_prefix ''trashed = false'' s))))))"

text \<open>Clauses joined by \<open>and\<close>; the number bounds the clauses read.\<close>

fun read_clauses :: "nat \<Rightarrow> string \<Rightarrow> clause list option" where
  "read_clauses 0 s = None"
| "read_clauses (Suc n) s = Option.bind (read_clause s) (\<lambda>(c, rest).
     if rest = [] then Some [c]
     else Option.bind (cut_prefix '' and '' rest) (\<lambda>r. map_option ((#) c) (read_clauses n r)))"

definition read_query :: "string \<Rightarrow> clause list option" where
  "read_query s = (if s = [] then Some [] else read_clauses (length s) s)"

definition clauses_of :: "drive_filters \<Rightarrow> clause list" where
  "clauses_of f = when_given (name_contains f) NameContains @ when_given (full_text f) FullText
     @ when_given (mime_type f) MimeType @ when_given (in_folder f) InParents
     @ (case modified_after f of None \<Rightarrow> [] | Some d \<Rightarrow> [ModifiedAfter (isoformat d @ ''T00:00:00'')])
     @ (if include_trashed f then [] else [NotTrashed])"

section \<open>Literals\<close>

lemma chars_differ [simp]: "backslash \<noteq> quote1" "quote1 \<noteq> backslash"
  by (simp_all add: backslash_def quote1_def)

lemma drive_escape_simps [simp]:
  "drive_escape [] = []"
  "drive_escape (c # s) = (if c = backslash \<or> c = quote1 then [backslash, c] else [c]) @ drive_escape s"
  by (auto simp: drive_escape_def)

lemma read_literal_escape: "read_literal (drive_escape s @ quote1 # rest) = Some (s, rest)"
  by (induction s) auto

lemma drive_escape_plain: "quote1 \<notin> set s \<Longrightarrow> backslash \<notin> set s \<Longrightarrow> drive_escape s = s"
  by (induction s) auto

lemma digits_plain: "list_all is_digit s \<Longrightarrow> quote1 \<notin> set s \<and> backslash \<notin> set s"
  by (induction s) (auto simp: is_digit_def code_point_def quote1_def backslash_def)

lemma timestamp_escape: "drive_escape (isoformat d @ ''T00:00:00'') = isoformat d @ ''T00:00:00''"
proof (rule drive_escape_plain)
  have "quote1 \<notin> set (fixed_digits k x) \<and> backslash \<notin> set (fixed_digits k x)" for k x
    by (rule digits_plain) simp
  then show "quote1 \<notin> set (isoformat d @ ''T00:00:00'')" "backslash \<notin> set (isoformat d @ ''T00:00:00'')"
    by (auto simp: isoformat_def) (simp_all add: quote1_def backslash_def)
qed

section \<open>Clauses\<close>

fun show_clause :: "clause \<Rightarrow> string" where
  "show_clause (NameContains s) = ''name contains '' @ [quote1] @ drive_escape s @ [quote1]"
| "show_clause (FullText s) = ''fullText contains '' @ [quote1] @ drive_escape s @ [quote1]"
| "show_clause (MimeType s) = ''mimeType = '' @ [quote1] @ drive_escape s @ [quote1]"
| "show_clause (InParents s) = [quote1] @ drive_escape s @ [quote1] @ '' in parents''"
| "show_clause (ModifiedAfter s) = ''modifiedTime > '' @ [quote1] @ drive_escape s @ [quote1]"
| "show_clause NotTrashed = ''trashed = false''"

lemma map_when_given: "map g (when_given x f) = when_given x (\<lambda>s. g (f s))"
  by (simp add: when_given_def split: option.split)

lemma build_drive_query_shows: "build_drive_query f = str_join '' and '' (map show_clause (clauses_of f))"
proof -
  have "map show_clause (case modified_after f of None \<Rightarrow> [] | Some d \<Rightarrow> [ModifiedAfter (isoformat d @ ''T00:00:00'')])
    = (case modified_after f of None \<Rightarrow> [] | Some d \<Rightarrow> [''modifiedTime > '' @ [quote1] @ isoformat d @ ''T00:00:00'' @ [quote1]])"
    using timestamp_escape by (simp split: option.split)
  moreover have "map show_clause (if include_trashed f then [] else [NotTrashed]) = (if include_trashed f then [] else [''trashed = false''])"
    by simp
  ultimately show ?thesis
    by (simp only: build_drive_query_def clauses_of_def map_append map_when_given show_clause.simps)
qed

lemma read_field_show: "read_field p c (p @ quote1 # drive_escape s @ quote1 # rest) = Some (c s, rest)"
  by (simp add: read_field_def cut_prefix_def read_literal_escape)

lemma read_field_other: "\<not> prefix (p @ [quote1]) s \<Longrightarrow> read_field p c s = None"
  by (simp add: read_field_def cut_prefix_def)

lemma quote1_not_letter:
  "quote1 \<noteq> CHR ''n''" "quote1 \<noteq> CHR ''f''" "quote1 \<noteq> CHR ''m''" "quote1 \<noteq> CHR ''t''"
  by (simp_all add: quote1_def)

lemmas read_field_shown =
  read_field_show [of "''name contains ''" NameContains, simplified append.simps]
  read_field_show [of "''fullText contains ''" FullText, simplified append.simps]
  read_field_show [of "''mimeType = ''" MimeType, simplified append.simps]
  read_field_show [of "''modifiedTime > ''" ModifiedAfter, simplified append.simps]
  read_field_show [of "[]" InParents, simplified append.simps]

lemma read_clause_show: "read_clause (show_clause c @ rest) = Some (c, rest)"
  by (cases c) (simp_all add: read_clause_def read_field_shown read_field_other quote1_not_letter
      quote1_not_letter [symmetric] cut_prefix_def del: drive_escape_simps)

lemma show_clause_not_empty: "show_clause c \<noteq> []"
  by (cases c) auto

lemma read_clauses_show:
  "cs \<noteq> [] \<Longrightarrow> length cs \<le> n \<Longrightarrow> read_clauses n (str_join '' and '' (map show_clause cs)) = Some cs"
proof (induction cs arbitrary: n rule: induct_list012)
  case (2 c)
  then show ?case using read_clause_show [of c "[]"] by (cases n) simp_all
next
  case (3 c c' cs)
  then obtain m where n: "n = Suc m" by (cases n) auto
  with 3 have "read_clauses m (str_join '' and '' (map show_clause (c' # cs))) = Some (c' # cs)" by simp
  then show ?case
    using read_clause_show [of c "'' and '' @ str_join '' and '' (map show_clause (c' # cs))"]
    by (simp add: n cut_prefix_def)
qed simp

lemma length_join: "list_all (\<lambda>x. x \<noteq> []) xs \<Longrightarrow> length xs \<le> length (str_join sep xs)"
proof (induction sep xs rule: str_join.induct)
  case (2 sep x)
  then show ?case by (cases x) auto
next
  case (3 sep x y ys)
  then show ?case by (cases x) auto
qed simp

lemma read_build_query: "read_query (build_drive_query f) = Some (clauses_of f)"
proof (cases "clauses_of f = []")
  case True
  then show ?thesis by (simp add: build_drive_query_shows read_query_def)
next
  case False
  let ?q = "str_join '' and '' (map show_clause (clauses_of f))"
  have len: "length (clauses_of f) \<le> length ?q"
    using length_join [of "map show_clause (clauses_of f)" "'' and ''"] by (simp add: list_all_iff show_clause_not_empty)
  with False have "?q \<noteq> []" by auto
  with read_clauses_show [OF False len] show ?thesis by (simp add: build_drive_query_shows read_query_def)
qed

section \<open>Properties\<close>

text \<open>
  C4: no query injection. Whatever strings the filters hold, quotes and backslashes included, the
  composed query read back by the grammar consists of exactly one clause per filter given, in order,
  each with exactly the given text, and of nothing else.
\<close>

theorem drive_query_faithful: "read_query (build_drive_query f) = Some (clauses_of f)"
  by (rule read_build_query)

end
