(* ===== verification/Tool_Types.thy ===== *)
theory Tool_Types
  imports Usage Drive_Query
begin

text \<open>
  What the MCP tools declare. An input or output model (a pydantic class) is its list of fields; the
  library that checks and converts arguments against such a list is a parameter (\<open>pydantic\<close>), with its
  documented promise as the locale \<open>pydantic_rules\<close>. A tool as it is published (\<open>types.Tool\<close>) carries
  its schemas as documents. Text outside Latin-1 stands for its UTF-8 bytes.
\<close>

section \<open>Models\<close>

datatype field_type = FStr | FInt | FBool | FOptStr | FOptDate

datatype py_value = VNone | VStr string | VInt int | VBool bool | VDate date

record field =
  fd_name :: string
  fd_type :: field_type
  fd_default :: "py_value option"
  fd_ge :: "int option"
  fd_le :: "int option"

text \<open>\<open>name: T\<close>, \<open>name: T = v\<close> and \<open>name: int = Field(default=v, ge=lo, le=hi)\<close>.\<close>

definition required_field :: "string \<Rightarrow> field_type \<Rightarrow> field" where
  "required_field n t = \<lparr>fd_name = n, fd_type = t, fd_default = None, fd_ge = None, fd_le = None\<rparr>"

definition default_field :: "string \<Rightarrow> field_type \<Rightarrow> py_value \<Rightarrow> field" where
  "default_field n t v = \<lparr>fd_name = n, fd_type = t, fd_default = Some v, fd_ge = None, fd_le = None\<rparr>"

definition ranged_field :: "string \<Rightarrow> int \<Rightarrow> int \<Rightarrow> int \<Rightarrow> field" where
  "ranged_field n v lo hi = \<lparr>fd_name = n, fd_type = FInt, fd_default = Some (VInt v), fd_ge = Some lo, fd_le = Some hi\<rparr>"

lemmas field_defs = required_field_def default_field_def ranged_field_def

type_synonym model = "(string, py_value) dict"

text \<open>
  \<open>p_validate fs args\<close> is \<open>Model(**args)\<close>, the checked attributes or an error; \<open>p_dump fs args\<close> is
  \<open>Model(**args).model_dump()\<close>.
\<close>

record pydantic =
  p_validate :: "field list \<Rightarrow> arguments \<Rightarrow> model res"
  p_dump :: "field list \<Rightarrow> (string, json) dict \<Rightarrow> json res"

fun has_type :: "field_type \<Rightarrow> py_value \<Rightarrow> bool" where
  "has_type FStr (VStr _) = True"
| "has_type FInt (VInt _) = True"
| "has_type FBool (VBool _) = True"
| "has_type FOptStr (VStr _) = True"
| "has_type FOptStr VNone = True"
| "has_type FOptDate (VDate _) = True"
| "has_type FOptDate VNone = True"
| "has_type _ _ = False"

definition in_range :: "field \<Rightarrow> py_value \<Rightarrow> bool" where
  "in_range f v = (case v of VInt i \<Rightarrow> (case fd_ge f of None \<Rightarrow> True | Some lo \<Rightarrow> lo \<le> i) \<and> (case fd_le f of None \<Rightarrow> True | Some hi \<Rightarrow> i \<le> hi)
     | _ \<Rightarrow> True)"

definition field_ok :: "field \<Rightarrow> py_value \<Rightarrow> bool" where
  "field_ok f v \<longleftrightarrow> has_type (fd_type f) v \<and> in_range f v"

definition default_ok :: "field \<Rightarrow> bool" where
  "default_ok f \<longleftrightarrow> (case fd_default f of None \<Rightarrow> True | Some v \<Rightarrow> field_ok f v)"

definition conforms :: "field list \<Rightarrow> model \<Rightarrow> bool" where
  "conforms fs m \<longleftrightarrow> list_all2 (\<lambda>f (k, v). k = fd_name f \<and> field_ok f v) fs m"

text \<open>Reading an attribute of a checked model.\<close>

definition m_str :: "model \<Rightarrow> string \<Rightarrow> string" where
  "m_str m k = (case dict_get m k of Some (VStr s) \<Rightarrow> s | _ \<Rightarrow> [])"

definition m_int :: "model \<Rightarrow> string \<Rightarrow> int" where
  "m_int m k = (case dict_get m k of Some (VInt i) \<Rightarrow> i | _ \<Rightarrow> 0)"

definition m_bool :: "model \<Rightarrow> string \<Rightarrow> bool" where
  "m_bool m k = (case dict_get m k of Some (VBool b) \<Rightarrow> b | _ \<Rightarrow> False)"

definition m_opt_str :: "model \<Rightarrow> string \<Rightarrow> string option" where
  "m_opt_str m k = (case dict_get m k of Some (VStr s) \<Rightarrow> Some s | _ \<Rightarrow> None)"

definition m_opt_date :: "model \<Rightarrow> string \<Rightarrow> date option" where
  "m_opt_date m k = (case dict_get m k of Some (VDate d) \<Rightarrow> Some d | _ \<Rightarrow> None)"

text \<open>
  Validation fails with \<open>ValidationError\<close> and nothing else. A model that passes has the declared
  attributes, each of its declared type and within its bounds; the library does not check defaults,
  so these have to be declared well.
\<close>

locale pydantic_rules =
  fixes P :: pydantic
  assumes validate_error: "p_validate P fs args = Inl e \<Longrightarrow> \<exists>loc msg. e = ValidationError loc msg"
    and validate_conforms: "list_all default_ok fs \<Longrightarrow> p_validate P fs args = Inr m \<Longrightarrow> conforms fs m"

lemma conforms_int:
  assumes "conforms fs m" "distinct (map fd_name fs)" "f \<in> set fs" "fd_type f = FInt"
  shows "in_range f (VInt (m_int m (fd_name f)))"
  using assms(1) [unfolded conforms_def] assms(2,3)
proof (induction rule: list_all2_induct)
  case (Cons g fs kv m)
  obtain k v where kv: "kv = (k, v)" by (cases kv)
  show ?case
  proof (cases "f = g")
    case True
    with Cons.hyps kv assms(4) have "k = fd_name f" "has_type FInt v" "in_range f v" by (auto simp: field_ok_def)
    then show ?thesis by (cases v) (simp_all add: m_int_def kv)
  next
    case False
    with Cons.prems have "f \<in> set fs" by simp
    moreover from this Cons.prems have "fd_name f \<noteq> fd_name g" by (metis distinct.simps(2) image_eqI list.map(2) list.set_map)
    ultimately show ?thesis using Cons kv by (simp add: m_int_def)
  qed
qed simp

section \<open>Published tools\<close>

record mcp_tool =
  tool_name :: string
  tool_description :: string
  tool_input_schema :: json
  tool_output_schema :: "json option"
  tool_read_only :: bool

text \<open>The dash of the source's texts.\<close>

definition em_dash :: string where
  "em_dash = [CHR '' '', CHR 0xE2, CHR 0x80, CHR 0x94, CHR '' '']"

text \<open>One property of a schema: its keys in the order of the source.\<close>

definition schema_prop :: "string \<Rightarrow> (string, json) dict \<Rightarrow> string \<times> json" where
  "schema_prop name rest = (name, JObj rest)"

definition string_prop :: "string \<Rightarrow> string \<Rightarrow> string \<times> json" where
  "string_prop name descr = (name, JObj [(''type'', JStr ''string''), (''description'', JStr descr)])"

definition ranged_prop :: "string \<Rightarrow> int \<Rightarrow> int \<Rightarrow> int \<Rightarrow> string \<times> json" where
  "ranged_prop name v lo hi = (name, JObj [(''type'', JStr ''integer''), (''default'', JInt v), (''minimum'', JInt lo), (''maximum'', JInt hi)])"

text \<open>
  What a property of a published schema says about an argument: its type, default and bounds; and
  what a field of a model accepts. An optional field has the default \<open>None\<close>, which a schema leaves out.
\<close>

definition schema_type :: "field_type \<Rightarrow> string" where
  "schema_type t = (case t of FInt \<Rightarrow> ''integer'' | FBool \<Rightarrow> ''boolean'' | _ \<Rightarrow> ''string'')"

definition value_json :: "py_value \<Rightarrow> json option" where
  "value_json v = (case v of VStr s \<Rightarrow> Some (JStr s) | VInt i \<Rightarrow> Some (JInt i) | VBool b \<Rightarrow> Some (JBool b) | _ \<Rightarrow> None)"

definition prop_matches :: "field \<Rightarrow> string \<times> json \<Rightarrow> bool" where
  "prop_matches f p = (case p of (name, JObj kvs) \<Rightarrow> name = fd_name f \<and> dict_get kvs ''type'' = Some (JStr (schema_type (fd_type f)))
     \<and> dict_get kvs ''default'' = Option.bind (fd_default f) value_json
     \<and> dict_get kvs ''minimum'' = map_option JInt (fd_ge f) \<and> dict_get kvs ''maximum'' = map_option JInt (fd_le f)
     \<and> (dict_get kvs ''format'' = Some (JStr ''date'') \<longleftrightarrow> fd_type f = FOptDate)
   | _ \<Rightarrow> False)"

definition schema_matches :: "field list \<Rightarrow> json \<Rightarrow> bool" where
  "schema_matches fs schema = (case schema of JObj kvs \<Rightarrow>
     dict_get kvs ''type'' = Some (JStr ''object'')
     \<and> (case dict_get kvs ''properties'' of Some (JObj ps) \<Rightarrow> list_all2 prop_matches fs ps | _ \<Rightarrow> False)
     \<and> dict_get_default kvs ''required'' (JArr []) = JArr (map (\<lambda>f. JStr (fd_name f)) (filter (\<lambda>f. fd_default f = None) fs))
   | _ \<Rightarrow> False)"

section \<open>A validator for the witnesses\<close>

text \<open>Strict: a value of the right JSON type, or the default.\<close>

definition sample_convert :: "field_type \<Rightarrow> json \<Rightarrow> py_value option" where
  "sample_convert t j = (case j of
     JStr s \<Rightarrow> if t = FStr \<or> t = FOptStr then Some (VStr s) else None
   | JInt i \<Rightarrow> if t = FInt then Some (VInt i) else None
   | JBool b \<Rightarrow> if t = FBool then Some (VBool b) else None
   | JNull \<Rightarrow> if t = FOptStr \<or> t = FOptDate then Some VNone else None
   | _ \<Rightarrow> None)"

definition sample_field :: "arguments \<Rightarrow> field \<Rightarrow> (string \<times> py_value) res" where
  "sample_field args f = (case dict_get args (fd_name f) of
     None \<Rightarrow> (case fd_default f of None \<Rightarrow> Inl (ValidationError (fd_name f) ''Field required'') | Some v \<Rightarrow> Inr (fd_name f, v))
   | Some j \<Rightarrow> (case sample_convert (fd_type f) j of
       None \<Rightarrow> Inl (ValidationError (fd_name f) ''Input should be of another type'')
     | Some v \<Rightarrow> if in_range f v then Inr (fd_name f, v) else Inl (ValidationError (fd_name f) ''Input out of range'')))"

definition sample_pydantic :: pydantic where
  "sample_pydantic = \<lparr>p_validate = (\<lambda>fs args. map_res (sample_field args) fs), p_dump = (\<lambda>fs kvs. Inr (JObj kvs))\<rparr>"

lemma sample_field_Inl: "sample_field args f = Inl e \<Longrightarrow> \<exists>loc msg. e = ValidationError loc msg"
  by (auto simp: sample_field_def split: option.splits if_splits)

lemma sample_field_Inr: "default_ok f \<Longrightarrow> sample_field args f = Inr (k, v) \<Longrightarrow> k = fd_name f \<and> field_ok f v"
  by (auto simp: sample_field_def default_ok_def field_ok_def sample_convert_def split: option.splits if_splits json.splits)

lemma map_res_Inl: "map_res f xs = Inl e \<Longrightarrow> \<exists>x \<in> set xs. f x = Inl e"
  by (induction xs) (auto split: sum.splits)

lemma map_res_Inr: "map_res f xs = Inr ys \<longleftrightarrow> list_all2 (\<lambda>x y. f x = Inr y) xs ys"
proof (induction xs arbitrary: ys)
  case (Cons x xs)
  show ?case
  proof (cases "f x")
    case (Inr y)
    then show ?thesis
      using Cons.IH by (cases ys; cases "map_res f xs") force+
  qed (auto simp: list_all2_Cons1)
qed auto

interpretation sample_pydantic: pydantic_rules sample_pydantic
proof unfold_locales
  show "p_validate sample_pydantic fs args = Inl e \<Longrightarrow> \<exists>loc msg. e = ValidationError loc msg" for fs args e
    by (auto simp: sample_pydantic_def dest!: map_res_Inl sample_field_Inl)
  show "conforms fs m" if "list_all default_ok fs" "p_validate sample_pydantic fs args = Inr m" for fs args m
    using that(2,1)
    by (auto simp: sample_pydantic_def map_res_Inr conforms_def list_all_iff dest: sample_field_Inr intro: list.rel_mono_strong)
qed

end
