(* ===== verification/Tools.thy ===== *)
theory Tools
  imports Token_Stores Tool_Types
begin

text \<open>
  The MCP tools of \<open>app/integrations/google/tools.py\<close> and \<open>app/integrations/slack/tools.py\<close>: the input and
  output models, the published tools, the handlers and the registries that wrap them with the usage
  accounting.
\<close>

section \<open>Inputs and outputs\<close>

definition DriveSearchInput_fields :: "field list" where
  "DriveSearchInput_fields =
     [default_field ''name_contains'' FOptStr VNone, default_field ''full_text'' FOptStr VNone,
      default_field ''mime_type'' FOptStr VNone, default_field ''in_folder'' FOptStr VNone,
      default_field ''modified_after'' FOptDate VNone, default_field ''include_trashed'' FBool (VBool False),
      ranged_field ''max_results'' 10 1 100]"

definition DriveGetFileInput :: "field list" where
  "DriveGetFileInput = [required_field ''file_id'' FStr]"

definition DriveListRecentInput :: "field list" where
  "DriveListRecentInput = [ranged_field ''days'' 7 1 90, ranged_field ''max_results'' 20 1 100]"

definition DriveFile :: "field list" where
  "DriveFile = map (\<lambda>n. required_field n FStr) [''file_id'', ''name'', ''mime_type'', ''web_view_link'', ''modified_time'']"

definition DriveFileContent :: "field list" where
  "DriveFileContent = map (\<lambda>n. required_field n FStr) [''file_id'', ''name'', ''content'', ''mime_type'']"

record drive_search_input = drive_filters +
  max_results :: int

definition search_input :: "model \<Rightarrow> drive_search_input" where
  "search_input m = \<lparr>name_contains = m_opt_str m ''name_contains'', full_text = m_opt_str m ''full_text'',
     mime_type = m_opt_str m ''mime_type'', in_folder = m_opt_str m ''in_folder'', modified_after = m_opt_date m ''modified_after'',
     include_trashed = m_bool m ''include_trashed'', max_results = m_int m ''max_results''\<rparr>"

definition has_filter :: "drive_search_input \<Rightarrow> bool" where
  "has_filter a \<longleftrightarrow> truthy_opt (name_contains a) \<or> truthy_opt (full_text a) \<or> truthy_opt (mime_type a)
     \<or> truthy_opt (in_folder a) \<or> modified_after a \<noteq> None"

definition DriveSearchInput :: "pydantic \<Rightarrow> arguments \<Rightarrow> drive_search_input res" where
  "DriveSearchInput P args = bind_res (p_validate P DriveSearchInput_fields args) (\<lambda>m.
     let a = search_input m in
     if has_filter a then Inr a else Inl (ValidationError [] ''Value error, provide at least one search filter''))"

definition invalid_input :: "string \<Rightarrow> string \<Rightarrow> tool_result" where
  "invalid_input loc msg = tool_error (''Invalid input: '' @ loc @ em_dash @ msg)"

text \<open>\<open>try: args = Model(**arguments) except ValidationError: return _error(...)\<close>, then the rest.\<close>

definition with_input :: "'i res \<Rightarrow> ('i \<Rightarrow> ('s, tool_result) prog) \<Rightarrow> ('s, tool_result) prog" where
  "with_input parsed body = (case parsed of
     Inl (ValidationError loc msg) \<Rightarrow> ret (invalid_input loc msg)
   | Inl e \<Rightarrow> raise e
   | Inr args \<Rightarrow> body args)"

definition ok_structured :: "json list \<Rightarrow> tool_result" where
  "ok_structured files = (let payload = JObj [(''files'', JArr files)]
     in \<lparr>tr_error = False, tr_texts = [dumps payload], tr_structured = Some payload\<rparr>)"

definition to_drive_file :: "pydantic \<Rightarrow> json \<Rightarrow> json res" where
  "to_drive_file P f =
     bind_res (j_item f ''id'') (\<lambda>i. bind_res (j_item f ''name'') (\<lambda>n. bind_res (j_item f ''mimeType'') (\<lambda>m.
     bind_res (j_get_default f ''webViewLink'' (JStr [])) (\<lambda>w. bind_res (j_get_default f ''modifiedTime'' (JStr [])) (\<lambda>t.
       p_dump P DriveFile [(''file_id'', i), (''name'', n), (''mime_type'', m), (''web_view_link'', w), (''modified_time'', t)])))))"

text \<open>\<open>[f(x) for x in xs]\<close> over a value read from a document.\<close>

definition j_map :: "(json \<Rightarrow> json res) \<Rightarrow> json \<Rightarrow> json list res" where
  "j_map f xs = bind_res (iterate xs) (map_res f)"

section \<open>The Drive tools\<close>

record 's google_deps =
  gd_net :: "'s net"
  gd_retries :: int
  gd_store :: "'s store"
  gd_fernet :: "'s fernet"
  gd_app :: google_app

definition drive_not_authorized :: string where
  "drive_not_authorized = ''Google Drive is not authorized. Provision a shared refresh token via GOOGLE_SHARED_REFRESH_TOKEN (see README).''"

text \<open>A token, or on the left the result that is returned instead.\<close>

definition get_drive_token :: "'s google_deps \<Rightarrow> ('s, tool_result + json) prog" where
  "get_drive_token D =
     tryM (bindM (get_valid_google_token (gd_net D) (gd_store D) (gd_fernet D) (gd_app D) GOOGLE_SHARED_USER) (\<lambda>t. ret (Inr t)))
       (\<lambda>e. case e of OAuthTokenNotFoundError _ \<Rightarrow> ret (Inl (tool_error drive_not_authorized)) | _ \<Rightarrow> raise e)"

definition with_token :: "('s, tool_result + 't) prog \<Rightarrow> ('t \<Rightarrow> ('s, tool_result) prog) \<Rightarrow> ('s, tool_result) prog" where
  "with_token get body = bindM get (\<lambda>t. case t of Inl result \<Rightarrow> ret result | Inr token \<Rightarrow> body token)"

definition handle_drive_search_files :: "pydantic \<Rightarrow> 's google_deps \<Rightarrow> arguments \<Rightarrow> ('s, tool_result) prog" where
  "handle_drive_search_files P D arguments =
     with_input (case DriveSearchInput P arguments of
         Inl (ValidationError loc msg) \<Rightarrow> Inl (ValidationError (if loc = [] then ''input'' else loc) msg) | r \<Rightarrow> r) (\<lambda>args.
     with_token (get_drive_token D) (\<lambda>token.
     let q = build_drive_query (drive_filters.truncate args) in
     with_token (tryM (bindM (search_files (gd_net D) (gd_retries D) token q (max_results args)) (\<lambda>files. ret (Inr files)))
          (\<lambda>e. case e of HTTPStatusError c \<Rightarrow> ret (Inl (tool_error (''Drive search failed: '' @ int_str c)))
             | _ \<Rightarrow> if is_request_error e then ret (Inl (tool_error ''Drive search failed: network error'')) else raise e)) (\<lambda>files.
     bindM (lift_res (j_map (to_drive_file P) files)) (\<lambda>fs. ret (ok_structured fs)))))"

definition handle_drive_get_file_content :: "pydantic \<Rightarrow> 's google_deps \<Rightarrow> arguments \<Rightarrow> ('s, tool_result) prog" where
  "handle_drive_get_file_content P D arguments =
     with_input (p_validate P DriveGetFileInput arguments) (\<lambda>args.
     with_token (get_drive_token D) (\<lambda>token.
     bindM (get_file_content (gd_net D) (gd_retries D) token (m_str args ''file_id'')) (\<lambda>file_data.
     bindM (lift_res (case file_data of JObj kvs \<Rightarrow> p_dump P DriveFileContent kvs | _ \<Rightarrow> Inl TypeError)) (\<lambda>data.
       ret (tool_ok data)))))"

definition handle_drive_list_recent :: "pydantic \<Rightarrow> 's google_deps \<Rightarrow> arguments \<Rightarrow> ('s, tool_result) prog" where
  "handle_drive_list_recent P D arguments =
     with_input (p_validate P DriveListRecentInput arguments) (\<lambda>args.
     with_token (get_drive_token D) (\<lambda>token.
     bindM (list_recent (gd_net D) (gd_retries D) token (m_int args ''days'') (m_int args ''max_results'')) (\<lambda>files.
     bindM (lift_res (j_map (to_drive_file P) files)) (\<lambda>fs. ret (tool_ok (JArr fs))))))"

definition DRIVE_REQUIRED_SCOPE :: string where
  "DRIVE_REQUIRED_SCOPE = ''mcp:google:read''"

definition drive_search_files_schema :: json where
  "drive_search_files_schema = JObj [(''type'', JStr ''object''), (''properties'', JObj
     [string_prop ''name_contains'' ''Match files whose name contains this text'',
      string_prop ''full_text'' ''Full-text search within file contents and metadata'',
      string_prop ''mime_type'' ''Filter by MIME type (e.g. 'application/pdf')'',
      string_prop ''in_folder'' ''Restrict to children of this Drive folder ID'',
      (''modified_after'', JObj [(''type'', JStr ''string''), (''format'', JStr ''date''),
         (''description'', JStr ''Only files modified after this date (YYYY-MM-DD)'')]),
      (''include_trashed'', JObj [(''type'', JStr ''boolean''), (''default'', JBool False)]),
      ranged_prop ''max_results'' 10 1 100])]"

definition drive_search_files_output :: json where
  "drive_search_files_output = JObj [(''type'', JStr ''object''), (''properties'', JObj
     [(''files'', JObj [(''type'', JStr ''array''), (''items'', JObj [(''type'', JStr ''object''), (''properties'', JObj
        (map (\<lambda>n. (n, JObj [(''type'', JStr ''string'')])) [''file_id'', ''name'', ''mime_type'', ''web_view_link'', ''modified_time'']))])])]),
     (''required'', JArr [JStr ''files''])]"

definition DRIVE_TOOLS :: "mcp_tool list" where
  "DRIVE_TOOLS =
     [\<lparr>tool_name = ''drive-search-files'',
       tool_description = ''Search the shared Google Drive using structured filters (name, full text, MIME type, '' @
         ''parent folder, modified-after date). At least one filter is required. The gateway '' @
         ''composes the Drive query safely'' @ em_dash @ ''callers never write Drive query syntax.'',
       tool_input_schema = drive_search_files_schema, tool_output_schema = Some drive_search_files_output, tool_read_only = True\<rparr>,
      \<lparr>tool_name = ''drive-get-file-content'',
       tool_description = ''Read the content of a file from Google Drive. Native Google Docs are exported as plain text.'',
       tool_input_schema = JObj [(''type'', JStr ''object''), (''required'', JArr [JStr ''file_id'']),
         (''properties'', JObj [string_prop ''file_id'' ''Google Drive file ID''])],
       tool_output_schema = None, tool_read_only = True\<rparr>,
      \<lparr>tool_name = ''drive-list-recent'',
       tool_description = ''List files modified in the last N days from the user's Google Drive.'',
       tool_input_schema = JObj [(''type'', JStr ''object''), (''properties'', JObj [ranged_prop ''days'' 7 1 90, ranged_prop ''max_results'' 20 1 100])],
       tool_output_schema = None, tool_read_only = True\<rparr>]"

definition track_all :: "'s redis \<Rightarrow> 's net \<Rightarrow> (string \<Rightarrow> ('s, nat) prog) \<Rightarrow> (string, 's tool) dict \<Rightarrow> (string, 's tool) dict" where
  "track_all R N encode handlers = map (\<lambda>(name, h). (name, track_usage (Some R) N encode name h)) handlers"

definition build_drive_registry :: "pydantic \<Rightarrow> 's google_deps \<Rightarrow> 's redis \<Rightarrow> (string \<Rightarrow> ('s, nat) prog) \<Rightarrow> (string, 's tool) dict" where
  "build_drive_registry P D R encode = track_all R (gd_net D) encode
     [(''drive-search-files'', \<lambda>ctx. handle_drive_search_files P D),
      (''drive-get-file-content'', \<lambda>ctx. handle_drive_get_file_content P D),
      (''drive-list-recent'', \<lambda>ctx. handle_drive_list_recent P D)]"

section \<open>The Slack tools\<close>

definition SlackSendInput :: "field list" where
  "SlackSendInput = [required_field ''channel'' FStr, required_field ''text'' FStr]"

definition SlackSearchInput :: "field list" where
  "SlackSearchInput = [required_field ''query'' FStr, ranged_field ''count'' 20 1 100]"

definition SlackSendResult :: "field list" where
  "SlackSendResult = [required_field ''ok'' FBool, required_field ''channel'' FStr, required_field ''ts'' FStr]"

definition SlackSearchMatch :: "field list" where
  "SlackSearchMatch = map (\<lambda>n. required_field n FStr) [''text'', ''channel'', ''user'', ''ts'', ''permalink'']"

record 's slack_deps =
  sd_net :: "'s net"
  sd_retries :: int
  sd_store :: "'s store"
  sd_fernet :: "'s fernet"

definition slack_not_authorized :: string where
  "slack_not_authorized = ''Slack is not authorized. Provision SLACK_SHARED_BOT_TOKEN / SLACK_SHARED_USER_TOKEN (see README).''"

definition get_slack_token :: "'s slack_deps \<Rightarrow> string \<Rightarrow> ('s, tool_result + json) prog" where
  "get_slack_token D token_type =
     tryM (bindM (get_valid_slack_token (sd_store D) (sd_fernet D) SLACK_SHARED_USER token_type) (\<lambda>t. ret (Inr (JStr t))))
       (\<lambda>e. case e of SlackTokenNotFoundError _ \<Rightarrow> ret (Inl (tool_error slack_not_authorized)) | _ \<Rightarrow> raise e)"

definition slack_call :: "('s, json) prog \<Rightarrow> ('s, tool_result + json) prog" where
  "slack_call m = tryM (bindM m (\<lambda>r. ret (Inr r)))
     (\<lambda>e. case e of SlackAPIError msg \<Rightarrow> ret (Inl (tool_error (''Slack error: '' @ msg))) | _ \<Rightarrow> raise e)"

definition handle_slack_send_message :: "pydantic \<Rightarrow> 's slack_deps \<Rightarrow> arguments \<Rightarrow> ('s, tool_result) prog" where
  "handle_slack_send_message P D arguments =
     with_input (p_validate P SlackSendInput arguments) (\<lambda>args.
     with_token (get_slack_token D ''bot'') (\<lambda>token.
     with_token (slack_call (post_message (sd_net D) (sd_retries D) token (m_str args ''channel'') (m_str args ''text''))) (\<lambda>result.
     bindM (lift_res (case result of JObj kvs \<Rightarrow> p_dump P SlackSendResult kvs | _ \<Rightarrow> Inl TypeError)) (\<lambda>data.
       ret (tool_ok data)))))"

definition to_match :: "pydantic \<Rightarrow> json \<Rightarrow> json res" where
  "to_match P m =
     bind_res (j_get_default m ''channel'' (JObj [])) (\<lambda>ch.
     bind_res (case ch of JObj kvs \<Rightarrow> Inr (dict_get_default kvs ''name'' (dict_get_default kvs ''id'' (JStr []))) | _ \<Rightarrow> Inr (JStr (py_str ch))) (\<lambda>channel.
     bind_res (j_get_default m ''text'' (JStr [])) (\<lambda>t. bind_res (j_get_default m ''user'' (JStr [])) (\<lambda>u.
     bind_res (j_get_default m ''ts'' (JStr [])) (\<lambda>ts. bind_res (j_get_default m ''permalink'' (JStr [])) (\<lambda>l.
       p_dump P SlackSearchMatch [(''text'', t), (''channel'', channel), (''user'', u), (''ts'', ts), (''permalink'', l)]))))))"

definition handle_slack_search_messages :: "pydantic \<Rightarrow> 's slack_deps \<Rightarrow> arguments \<Rightarrow> ('s, tool_result) prog" where
  "handle_slack_search_messages P D arguments =
     with_input (p_validate P SlackSearchInput arguments) (\<lambda>args.
     with_token (get_slack_token D ''user'') (\<lambda>token.
     with_token (slack_call (search_messages (sd_net D) (sd_retries D) token (m_str args ''query'') (m_int args ''count''))) (\<lambda>matches.
     bindM (lift_res (j_map (to_match P) matches)) (\<lambda>ms. ret (tool_ok (JArr ms))))))"

definition SLACK_REQUIRED_SCOPE :: string where
  "SLACK_REQUIRED_SCOPE = ''mcp:slack:read''"

definition SLACK_TOOLS :: "mcp_tool list" where
  "SLACK_TOOLS =
     [\<lparr>tool_name = ''slack-send-message'',
       tool_description = ''Post a message to a Slack channel as the bot. The bot must be a member of the channel.'',
       tool_input_schema = JObj [(''type'', JStr ''object''), (''required'', JArr [JStr ''channel'', JStr ''text'']),
         (''properties'', JObj [string_prop ''channel'' ''Channel ID (e.g. 'C0123ABCD') or name'', string_prop ''text'' ''Message text''])],
       tool_output_schema = None, tool_read_only = False\<rparr>,
      \<lparr>tool_name = ''slack-search-messages'',
       tool_description = ''Search messages across the user's Slack workspace using Slack search syntax.'',
       tool_input_schema = JObj [(''type'', JStr ''object''), (''required'', JArr [JStr ''query'']),
         (''properties'', JObj [string_prop ''query'' ''Search query (e.g. 'deploy in:#ops')'', ranged_prop ''count'' 20 1 100])],
       tool_output_schema = None, tool_read_only = True\<rparr>]"

definition build_slack_registry :: "pydantic \<Rightarrow> 's slack_deps \<Rightarrow> 's redis \<Rightarrow> (string \<Rightarrow> ('s, nat) prog) \<Rightarrow> (string, 's tool) dict" where
  "build_slack_registry P D R encode = track_all R (sd_net D) encode
     [(''slack-send-message'', \<lambda>ctx. handle_slack_send_message P D),
      (''slack-search-messages'', \<lambda>ctx. handle_slack_search_messages P D)]"

section \<open>Which credentials the requests of a tool carry\<close>

text \<open>
  \<open>runs_under sent get P s s'\<close>: the run from \<open>s\<close> to \<open>s'\<close> did nothing, or it first ran \<open>get\<close>; if that gave a
  token, only requests that satisfy \<open>P\<close> for this token followed, and if it raised, none did.
\<close>

definition runs_under :: "('s \<Rightarrow> http_request list) \<Rightarrow> ('s, 't) prog \<Rightarrow> ('t \<Rightarrow> http_request \<Rightarrow> bool) \<Rightarrow> 's \<Rightarrow> 's \<Rightarrow> bool" where
  "runs_under sent get P s s' \<longleftrightarrow> s' = s \<or> (case get s of
     (Inl e, s1) \<Rightarrow> sent s' = sent s1 | (Inr token, s1) \<Rightarrow> sends sent (P token) s1 s')"

lemma with_token_under:
  assumes get: "get' = tryM (bindM get (\<lambda>t. ret (Inr (f t)))) h"
    and h: "\<And>e s. \<exists>q. h e s = (q, s) \<and> (\<forall>t. q \<noteq> Inr (Inr t))"
    and body: "\<And>t. guarantees (sends sent (P t)) (body (f t))"
  shows "runs_under sent get P s (snd (with_token get' body s))"
proof -
  obtain r s1 where g: "get s = (r, s1)" by (cases "get s")
  show ?thesis
  proof (cases r)
    case (Inl e)
    obtain q where q: "h e s1 = (q, s1)" "\<forall>t. q \<noteq> Inr (Inr t)" using h by blast
    have "get' s = (q, s1)" using g Inl q by (simp add: get tryM_def bindM_def)
    then have "snd (with_token get' body s) = s1"
      using q(2) by (auto simp: with_token_def bindM_def split: sum.splits)
    then show ?thesis using g Inl by (simp add: runs_under_def)
  next
    case (Inr t)
    then have "get' s = (Inr (Inr (f t)), s1)" using g by (simp add: get tryM_def bindM_def)
    then have "snd (with_token get' body s) = snd (body (f t) s1)" by (simp add: with_token_def bindM_def)
    then show ?thesis using g Inr body [of t] by (simp add: runs_under_def guarantees_def)
  qed
qed

definition shared_google_token :: "'s google_deps \<Rightarrow> ('s, json) prog" where
  "shared_google_token D = get_valid_google_token (gd_net D) (gd_store D) (gd_fernet D) (gd_app D) ''google:shared''"

lemma drive_token_under:
  assumes "\<And>t. guarantees (sends sent (P t)) (body t)"
  shows "runs_under sent (shared_google_token D) P s (snd (with_token (get_drive_token D) body s))"
  by (rule with_token_under [where f = "\<lambda>t. t" and h = "\<lambda>e. case e of OAuthTokenNotFoundError _ \<Rightarrow> ret (Inl (tool_error drive_not_authorized)) | _ \<Rightarrow> raise e"])
    (auto simp: get_drive_token_def shared_google_token_def GOOGLE_SHARED_USER_def assms split: exn.splits)

lemma slack_token_under:
  assumes "\<And>t. guarantees (sends sent (P t)) (body (JStr t))"
  shows "runs_under sent (get_valid_slack_token (sd_store D) (sd_fernet D) ''shared'' kind) P s (snd (with_token (get_slack_token D kind) body s))"
  by (rule with_token_under [where f = JStr and h = "\<lambda>e. case e of SlackTokenNotFoundError _ \<Rightarrow> ret (Inl (tool_error slack_not_authorized)) | _ \<Rightarrow> raise e"])
    (auto simp: get_slack_token_def SLACK_SHARED_USER_def assms split: exn.splits)

lemma with_input_under:
  assumes "\<And>a. parsed = Inr a \<Longrightarrow> runs_under sent get P s (snd (body a s))"
  shows "runs_under sent get P s (snd (with_input parsed body s))"
proof (cases parsed)
  case (Inl e)
  then have "snd (with_input parsed body s) = s" by (simp add: with_input_def split: exn.split)
  then show ?thesis by (simp add: runs_under_def)
next
  case (Inr a)
  then show ?thesis using assms by (simp add: with_input_def)
qed

lemma sends_with_token:
  assumes "guarantees (sends sent P) get" "\<And>t. guarantees (sends sent P) (body t)"
  shows "guarantees (sends sent P) (with_token get body)"
  unfolding with_token_def by (rule sends.frame_bindM [OF assms(1)]) (auto intro: assms(2) sends.frame_ret split: sum.split)

lemma sends_slack_call: "guarantees (sends sent P) m \<Longrightarrow> guarantees (sends sent P) (slack_call m)"
  unfolding slack_call_def
  by (intro sends.frame_tryM sends.frame_bindM sends.frame_ret) (auto intro: sends.frame_ret sends.frame_raise split: exn.split)

context network
begin

lemma search_then_sends:
  assumes "\<And>tok. P tok (search_files_request tok q n)"
  shows "guarantees (sends sent (P tok)) (search_files N k tok q n)"
  unfolding search_files_def by (intro sends.frame_rules fetch_sends retrying_sends assms)

lemma drive_search_under:
  assumes N: "gd_net D = N"
    and P: "\<And>tok a. DriveSearchInput Py args = Inr a \<Longrightarrow> P tok (search_files_request tok (build_drive_query (drive_filters.truncate a)) (max_results a))"
  shows "runs_under sent (shared_google_token D) P s (snd (handle_drive_search_files Py D args s))"
  unfolding handle_drive_search_files_def Let_def
proof (intro with_input_under drive_token_under sends_with_token sends.frame_tryM sends.frame_bindM sends.frame_ret sends.frame_lift_res)
  fix a t
  assume "(case DriveSearchInput Py args of Inl (ValidationError loc msg) \<Rightarrow> Inl (ValidationError (if loc = [] then ''input'' else loc) msg)
    | Inl e \<Rightarrow> Inl e | Inr x \<Rightarrow> Inr x) = Inr a"
  then have "DriveSearchInput Py args = Inr a" by (auto split: sum.splits exn.splits)
  then show "guarantees (sends sent (P t)) (search_files (gd_net D) (gd_retries D) t (build_drive_query (drive_filters.truncate a)) (max_results a))"
    unfolding N by (intro search_then_sends P)
qed (auto intro: sends.frame_ret sends.frame_raise split: exn.split)

lemma drive_tools_under:
  assumes N: "gd_net D = N"
  shows "runs_under sent (shared_google_token D) drive_request s (snd (handle_drive_search_files Py D args s))"
    and "runs_under sent (shared_google_token D) drive_request s (snd (handle_drive_get_file_content Py D args s))"
    and "runs_under sent (shared_google_token D) drive_request s (snd (handle_drive_list_recent Py D args s))"
proof -
  show "runs_under sent (shared_google_token D) drive_request s (snd (handle_drive_search_files Py D args s))"
    by (rule drive_search_under [OF N]) (rule drive_request_intros)
  show "runs_under sent (shared_google_token D) drive_request s (snd (handle_drive_get_file_content Py D args s))"
    unfolding handle_drive_get_file_content_def N
    by (intro with_input_under drive_token_under sends.frame_rules drive_client_sends)
  show "runs_under sent (shared_google_token D) drive_request s (snd (handle_drive_list_recent Py D args s))"
    unfolding handle_drive_list_recent_def N
    by (intro with_input_under drive_token_under sends.frame_rules drive_client_sends)
qed

lemma slack_tools_under:
  assumes N: "sd_net D = N"
  shows "runs_under sent (get_valid_slack_token (sd_store D) (sd_fernet D) ''shared'' ''bot'') (\<lambda>t. slack_request (JStr t)) s (snd (handle_slack_send_message Py D args s))"
    and "runs_under sent (get_valid_slack_token (sd_store D) (sd_fernet D) ''shared'' ''user'') (\<lambda>t. slack_request (JStr t)) s (snd (handle_slack_search_messages Py D args s))"
proof -
  note rules = sends.frame_rules sends_with_token sends_slack_call slack_client_sends
  show "runs_under sent (get_valid_slack_token (sd_store D) (sd_fernet D) ''shared'' ''bot'') (\<lambda>t. slack_request (JStr t)) s (snd (handle_slack_send_message Py D args s))"
    unfolding handle_slack_send_message_def N by (intro with_input_under slack_token_under rules)
  show "runs_under sent (get_valid_slack_token (sd_store D) (sd_fernet D) ''shared'' ''user'') (\<lambda>t. slack_request (JStr t)) s (snd (handle_slack_search_messages Py D args s))"
    unfolding handle_slack_search_messages_def N by (intro with_input_under slack_token_under rules)
qed

end

lemma has_filter_clause: "has_filter a \<Longrightarrow> \<exists>c \<in> set (clauses_of (drive_filters.truncate a)). c \<noteq> NotTrashed"
  by (auto simp: has_filter_def truthy_opt_def clauses_of_def when_given_def drive_filters.truncate_def split: option.splits if_splits)

lemma search_input_facts:
  assumes "pydantic_rules P" "DriveSearchInput P args = Inr a"
  shows "has_filter a" and "1 \<le> max_results a" and "max_results a \<le> 100"
proof -
  obtain m where m: "p_validate P DriveSearchInput_fields args = Inr m" "a = search_input m" "has_filter a"
    using assms(2) by (auto simp: DriveSearchInput_def bind_res_def Let_def split: sum.splits if_splits)
  show "has_filter a" by (rule m(3))
  have "list_all default_ok DriveSearchInput_fields" by code_simp
  then have "conforms DriveSearchInput_fields m" by (rule pydantic_rules.validate_conforms [OF assms(1) _ m(1)])
  then have "in_range (ranged_field ''max_results'' 10 1 100) (VInt (m_int m (fd_name (ranged_field ''max_results'' 10 1 100))))"
    by (rule conforms_int) (simp_all add: DriveSearchInput_fields_def field_defs)
  then show "1 \<le> max_results a" "max_results a \<le> 100"
    by (simp_all add: m(2) search_input_def in_range_def field_defs)
qed

section \<open>Properties\<close>

text \<open>
  C15: no confused deputy. Whatever the arguments and whatever comes of it, a call of a Drive tool sends
  nothing, or it first looks up the one shared Google token and then sends only requests to the Drive
  API whose single credential is that token; when the lookup fails nothing follows. Nothing of the
  caller's identity or token goes out. The Slack tools do the same with the shared bot token (to post)
  and the shared user token (to search).
\<close>

theorem tools_use_shared_tokens_only:
  assumes "network N sent" "gd_net D = N" "sd_net D' = N"
    and "tool \<in> {handle_drive_search_files P D, handle_drive_get_file_content P D, handle_drive_list_recent P D}"
  shows "runs_under sent (shared_google_token D) drive_request s (snd (tool args s))
    \<and> runs_under sent (get_valid_slack_token (sd_store D') (sd_fernet D') ''shared'' ''bot'') (\<lambda>t. slack_request (JStr t)) s
        (snd (handle_slack_send_message P D' args s))
    \<and> runs_under sent (get_valid_slack_token (sd_store D') (sd_fernet D') ''shared'' ''user'') (\<lambda>t. slack_request (JStr t)) s
        (snd (handle_slack_search_messages P D' args s))"
  using network.drive_tools_under [OF assms(1,2)] network.slack_tools_under [OF assms(1,3)] assms(4) by blast

definition sample_google :: "world google_deps" where
  "sample_google = \<lparr>gd_net = world_net, gd_retries = 3, gd_store = google_token_store world_redis, gd_fernet = world_fernet, gd_app = sample_app\<rparr>"

definition sample_slack :: "world slack_deps" where
  "sample_slack = \<lparr>sd_net = world_net, sd_retries = 3, sd_store = slack_token_store world_redis, sd_fernet = world_fernet\<rparr>"

theorem tools_use_shared_tokens_only_witness:
  "runs_under w_sent (shared_google_token sample_google) drive_request (sample_world [])
      (snd (handle_drive_get_file_content sample_pydantic sample_google [(''file_id'', JStr ''F1'')] (sample_world [])))"
  using tools_use_shared_tokens_only [OF world_network.network_axioms, of sample_google sample_slack
      "handle_drive_get_file_content sample_pydantic sample_google" sample_pydantic "sample_world []" "[(''file_id'', JStr ''F1'')]"]
  by (simp add: sample_google_def sample_slack_def)

text \<open>
  C16: a search end to end. Every search request that the tool sends carries a query that reads back as
  exactly the filters of the validated input, at least one of them besides the trash filter, and the
  page size asked for, between 1 and 100: no text of the caller can add or change a clause.
\<close>

theorem drive_search_end_to_end:
  assumes "network N sent" "gd_net D = N" "pydantic_rules P"
  shows "runs_under sent (shared_google_token D) (\<lambda>tok rq. \<exists>a q. DriveSearchInput P args = Inr a \<and> rq = search_files_request tok q (max_results a)
      \<and> read_query q = Some (clauses_of (drive_filters.truncate a)) \<and> (\<exists>c \<in> set (clauses_of (drive_filters.truncate a)). c \<noteq> NotTrashed)
      \<and> 1 \<le> max_results a \<and> max_results a \<le> 100)
    s (snd (handle_drive_search_files P D args s))"
proof (rule network.drive_search_under [OF assms(1,2)])
  fix tok a
  assume a: "DriveSearchInput P args = Inr a"
  with read_build_query [of "drive_filters.truncate a"] has_filter_clause [of a] search_input_facts [OF assms(3) a]
  show "\<exists>a' q. DriveSearchInput P args = Inr a' \<and> search_files_request tok (build_drive_query (drive_filters.truncate a)) (max_results a)
        = search_files_request tok q (max_results a')
      \<and> read_query q = Some (clauses_of (drive_filters.truncate a')) \<and> (\<exists>c \<in> set (clauses_of (drive_filters.truncate a')). c \<noteq> NotTrashed)
      \<and> 1 \<le> max_results a' \<and> max_results a' \<le> 100"
    by blast
qed

theorem drive_search_end_to_end_witness:
  "runs_under w_sent (shared_google_token sample_google) (\<lambda>tok rq. \<exists>a q. DriveSearchInput sample_pydantic [(''name_contains'', JStr ''x' or 1'')] = Inr a
      \<and> rq = search_files_request tok q (max_results a) \<and> read_query q = Some (clauses_of (drive_filters.truncate a))
      \<and> (\<exists>c \<in> set (clauses_of (drive_filters.truncate a)). c \<noteq> NotTrashed) \<and> 1 \<le> max_results a \<and> max_results a \<le> 100)
    (sample_world []) (snd (handle_drive_search_files sample_pydantic sample_google [(''name_contains'', JStr ''x' or 1'')] (sample_world [])))"
  using drive_search_end_to_end [OF world_network.network_axioms _ sample_pydantic.pydantic_rules_axioms,
      of sample_google "[(''name_contains'', JStr ''x' or 1'')]" "sample_world []"]
  by (simp add: sample_google_def)

end
