(* ===== verification/Jobs.thy ===== *)
theory Jobs
  imports Tools
begin

text \<open>
  Asynchronous export jobs: the queue of \<open>app/integrations/google/jobs.py\<close> on a Redis stream with a
  consumer group, and the two tools of \<open>app/integrations/google/job_tools.py\<close>. The identifier that
  \<open>uuid4().hex\<close> draws is a parameter. The reference for the queue is an abstract one with jobs that
  wait, run and are done.
\<close>

section \<open>The queue\<close>

definition JOBS_STREAM :: string where
  "JOBS_STREAM = ''jobs:drive_export''"

definition GROUP :: string where
  "GROUP = ''exporters''"

definition RESULT_TTL_SECONDS :: int where
  "RESULT_TTL_SECONDS = 3600"

definition OWNER_TTL_SECONDS :: int where
  "OWNER_TTL_SECONDS = 3600"

definition EXPORT_FORMATS :: "(string, string \<times> string) dict" where
  "EXPORT_FORMATS = [(''pdf'', (''application/pdf'', ''pdf'')),
     (''docx'', (''application/vnd.openxmlformats-officedocument.wordprocessingml.document'', ''docx'')),
     (''txt'', (''text/plain'', ''txt''))]"

text \<open>Only an error that says BUSYGROUP means that the group is there already.\<close>

definition ensure_group :: "'s redis \<Rightarrow> ('s, unit) prog" where
  "ensure_group R = tryM (r_xgroup_create R JOBS_STREAM GROUP)
     (\<lambda>e. case e of ResponseError msg \<Rightarrow> if str_in ''BUSYGROUP'' msg then ret () else raise e | _ \<Rightarrow> raise e)"

definition owner_key :: "string \<Rightarrow> string" where
  "owner_key job_id = ''job:owner:'' @ job_id"

definition results_key :: "string \<Rightarrow> string" where
  "results_key job_id = ''results:'' @ job_id"

definition job_fields :: "string \<Rightarrow> string \<Rightarrow> string \<Rightarrow> string \<Rightarrow> dec \<Rightarrow> fields" where
  "job_fields job_id user_id file_id fmt t =
     [(''job_id'', job_id), (''user_id'', user_id), (''file_id'', file_id), (''format'', fmt), (''ts'', dec_str t)]"

definition enqueue_export_job :: "'s redis \<Rightarrow> 's net \<Rightarrow> ('s, string) prog \<Rightarrow> string \<Rightarrow> string \<Rightarrow> string \<Rightarrow> ('s, string) prog" where
  "enqueue_export_job R N uuid4_hex user_id file_id fmt =
     bindM uuid4_hex (\<lambda>job_id.
     bindM (r_set R (owner_key job_id) user_id (Some OWNER_TTL_SECONDS) False) (\<lambda>_.
     bindM (asks (n_time N)) (\<lambda>t.
     bindM (r_xadd R JOBS_STREAM (job_fields job_id user_id file_id fmt t)) (\<lambda>_.
       ret job_id))))"

definition job_owner :: "'s redis \<Rightarrow> string \<Rightarrow> ('s, string option) prog" where
  "job_owner R job_id = r_get R (owner_key job_id)"

definition read_result :: "'s redis \<Rightarrow> string \<Rightarrow> int \<Rightarrow> ('s, fields option) prog" where
  "read_result R job_id timeout_ms = bindM (r_xread R (results_key job_id) timeout_ms) (\<lambda>entries.
     ret (case entries of [] \<Rightarrow> None | (_, flds) # _ \<Rightarrow> Some flds))"

section \<open>The tools\<close>

definition ExportInput :: "field list" where
  "ExportInput = [required_field ''file_id'' FStr, default_field ''format'' FStr (VStr ''pdf'')]"

definition WaitInput :: "field list" where
  "WaitInput = [required_field ''job_id'' FStr, ranged_field ''timeout_seconds'' 30 1 120]"

text \<open>\<open>current_user_id.get()\<close>: the variable has no default.\<close>

definition get_current_user :: "ctx \<Rightarrow> string res" where
  "get_current_user c = (case current_user_id c of None \<Rightarrow> Inl LookupError | Some u \<Rightarrow> Inr u)"

definition handle_drive_export_large_file :: "pydantic \<Rightarrow> 's redis \<Rightarrow> 's net \<Rightarrow> ('s, string) prog \<Rightarrow> 's tool" where
  "handle_drive_export_large_file P R N uuid4_hex ctx arguments =
     with_input (p_validate P ExportInput arguments) (\<lambda>args.
     let fmt = m_str args ''format'' in
     if dict_get EXPORT_FORMATS fmt = None
     then ret (tool_error (''Unsupported format '' @ [CHR 0x27] @ fmt @ [CHR 0x27] @ ''. Supported: '' @ str_join '', '' (map fst EXPORT_FORMATS)))
     else with_token
        (tryM (bindM (lift_res (get_current_user ctx)) (\<lambda>user_id.
               bindM (enqueue_export_job R N uuid4_hex user_id (m_str args ''file_id'') fmt) (\<lambda>job_id. ret (Inr job_id))))
          (\<lambda>e. if is_exception e then ret (Inl (tool_error (''Could not enqueue export job'' @ em_dash @ ''try again later.''))) else raise e))
        (\<lambda>job_id. ret (tool_ok (JObj [(''job_id'', JStr job_id), (''status'', JStr ''queued'')]))))"

definition handle_wait_for_job :: "pydantic \<Rightarrow> 's redis \<Rightarrow> 's tool" where
  "handle_wait_for_job P R ctx arguments =
     with_input (p_validate P WaitInput arguments) (\<lambda>args.
     let job_id = m_str args ''job_id'' in
     bindM (job_owner R job_id) (\<lambda>owner.
     bindM (case owner of None \<Rightarrow> ret False | Some o' \<Rightarrow> lift_res (bind_res (get_current_user ctx) (\<lambda>u. Inr (o' = u)))) (\<lambda>mine.
     if \<not> mine then ret (tool_error ''job not found'')
     else bindM (read_result R job_id (m_int args ''timeout_seconds'' * 1000)) (\<lambda>result.
       ret (case result of
         None \<Rightarrow> tool_ok (JObj [(''job_id'', JStr job_id), (''status'', JStr ''pending'')])
       | Some flds \<Rightarrow> tool_ok (JObj (map (\<lambda>(k, v). (k, JStr v)) flds)))))))"

definition JOB_REQUIRED_SCOPE :: string where
  "JOB_REQUIRED_SCOPE = ''mcp:google:read''"

definition JOB_TOOLS :: "mcp_tool list" where
  "JOB_TOOLS =
     [\<lparr>tool_name = ''drive-export-large-file'',
       tool_description = ''Start an asynchronous export of a Google Drive file to pdf, docx, or '' @
         ''txt. Returns a job_id immediately; poll with wait-for-job.'',
       tool_input_schema = JObj [(''type'', JStr ''object''), (''required'', JArr [JStr ''file_id'']), (''properties'', JObj
         [string_prop ''file_id'' ''Google Drive file ID to export'',
          (''format'', JObj [(''type'', JStr ''string''), (''enum'', JArr [JStr ''pdf'', JStr ''docx'', JStr ''txt'']), (''default'', JStr ''pdf'')])])],
       tool_output_schema = None, tool_read_only = False\<rparr>,
      \<lparr>tool_name = ''wait-for-job'',
       tool_description = ''Block until an export job finishes (or timeout). Returns the job '' @
         ''result, or status 'pending' on timeout. Only the user who created the '' @ ''job may read it.'',
       tool_input_schema = JObj [(''type'', JStr ''object''), (''required'', JArr [JStr ''job_id'']), (''properties'', JObj
         [(''job_id'', JObj [(''type'', JStr ''string'')]), ranged_prop ''timeout_seconds'' 30 1 120])],
       tool_output_schema = None, tool_read_only = True\<rparr>]"

definition build_job_registry :: "pydantic \<Rightarrow> 's redis \<Rightarrow> 's net \<Rightarrow> ('s, string) prog \<Rightarrow> (string \<Rightarrow> ('s, nat) prog) \<Rightarrow> (string, 's tool) dict" where
  "build_job_registry P R N uuid4_hex encode = track_all R N encode
     [(''drive-export-large-file'', handle_drive_export_large_file P R N uuid4_hex),
      (''wait-for-job'', handle_wait_for_job P R)]"

section \<open>Who may read a job\<close>

text \<open>The answer to the owner of a job: the first published record, or that there is none yet.\<close>

definition job_answer :: "rstate \<Rightarrow> string \<Rightarrow> tool_result" where
  "job_answer st job_id = (case s_entries (rs_stream st (results_key job_id)) of
     [] \<Rightarrow> tool_ok (JObj [(''job_id'', JStr job_id), (''status'', JStr ''pending'')])
   | (_, flds) # _ \<Rightarrow> tool_ok (JObj (map (\<lambda>(k, v). (k, JStr v)) flds)))"

definition owns :: "rstate \<Rightarrow> ctx \<Rightarrow> string \<Rightarrow> bool" where
  "owns st ctx job_id \<longleftrightarrow> (\<exists>u. live_str st (owner_key job_id) = Some u \<and> current_user_id ctx = Some u)"

lemma rs_get_live: "rs_get k st = (Inr v, st') \<Longrightarrow> v = live_str st k \<and> st' = st"
  by (auto simp: rs_get_def live_str_def split: option.splits rval.splits prod.splits)

context redis_server
begin

lemma read_result_run:
  assumes "read_result R j ms s = (Inr x, s')"
  shows "x = (case s_entries (rs_stream (\<alpha> s') (results_key j)) of [] \<Rightarrow> None | (_, flds) # _ \<Rightarrow> Some flds)"
proof -
  from assms obtain es where "r_xread R (results_key j) ms s = (Inr es, s')" and x: "x = (case es of [] \<Rightarrow> None | (_, flds) # _ \<Rightarrow> Some flds)"
    unfolding read_result_def by (elim bindM_InrE) simp
  from xread_answer [OF this(1)] have "es = s_entries (rs_stream (\<alpha> s') (results_key j))"
    by (auto simp: rs_xread_def rs_xrange_def split: if_splits)
  with x show ?thesis by simp
qed

lemma wait_for_job_run:
  assumes run: "handle_wait_for_job P R ctx args s = (Inr res, s')" and m: "p_validate P WaitInput args = Inr m"
  shows "res = (if owns (\<alpha> s) ctx (m_str m ''job_id'') then job_answer (\<alpha> s') (m_str m ''job_id'') else tool_error ''job not found'')"
proof -
  let ?j = "m_str m ''job_id''"
  from run m obtain owner s1 mine where own: "r_get R (owner_key ?j) s = (Inr owner, s1)"
    and mine: "(case owner of None \<Rightarrow> Inr False | Some o' \<Rightarrow> bind_res (get_current_user ctx) (\<lambda>u. Inr (o' = u))) = Inr mine"
    and rest: "(if \<not> mine then ret (tool_error ''job not found'')
     else bindM (read_result R ?j (m_int m ''timeout_seconds'' * 1000)) (\<lambda>result. ret (case result of
         None \<Rightarrow> tool_ok (JObj [(''job_id'', JStr ?j), (''status'', JStr ''pending'')])
       | Some flds \<Rightarrow> tool_ok (JObj (map (\<lambda>(k, v). (k, JStr v)) flds))))) s1 = (Inr res, s')"
    by (auto simp: handle_wait_for_job_def with_input_def Let_def job_owner_def elim!: bindM_InrE split: option.splits simp del: not_None_eq)
  have "owner = live_str (\<alpha> s) (owner_key ?j)"
    using rs_get_live [OF simulatesD_Inr [OF sim_get own]] by simp
  then have mine_iff: "mine \<longleftrightarrow> owns (\<alpha> s) ctx ?j"
    using mine by (auto simp: owns_def get_current_user_def bind_res_def split: option.splits sum.splits)
  show ?thesis
  proof (cases mine)
    case True
    with rest obtain x where x: "read_result R ?j (m_int m ''timeout_seconds'' * 1000) s1 = (Inr x, s')"
      and res: "res = (case x of None \<Rightarrow> tool_ok (JObj [(''job_id'', JStr ?j), (''status'', JStr ''pending'')])
       | Some flds \<Rightarrow> tool_ok (JObj (map (\<lambda>(k, v). (k, JStr v)) flds)))"
      by (auto elim!: bindM_InrE)
    from read_result_run [OF x] res have "res = job_answer (\<alpha> s') ?j"
      by (simp add: job_answer_def split: list.splits prod.splits)
    with True mine_iff show ?thesis by simp
  qed (use rest mine_iff in simp)
qed

end

section \<open>Properties of the tools\<close>

text \<open>
  C9: a job is its owner's. Whatever other user asks for it, and whether or not the job exists, has
  finished or has expired, the answer is the same \<open>job not found\<close>; the owner gets the first record
  published for the job, or \<open>pending\<close>.
\<close>

theorem wait_for_job_owner_only:
  assumes "redis_server R \<alpha>" "p_validate P WaitInput args = Inr m"
    and "handle_wait_for_job P R ctx args s = (Inr res, s')"
  shows "res = (if \<exists>u. live_str (\<alpha> s) (''job:owner:'' @ m_str m ''job_id'') = Some u \<and> current_user_id ctx = Some u
     then job_answer (\<alpha> s') (m_str m ''job_id'') else tool_error ''job not found'')"
  using redis_server.wait_for_job_run [OF assms(1,3,2)] by (simp add: owns_def owner_key_def)

definition user_ctx :: "string \<Rightarrow> ctx" where
  "user_ctx u = \<lparr>current_user_id = Some u, current_user_scopes = {}\<rparr>"

definition sample_jobs :: rstate where
  "sample_jobs = \<lparr>rs_now = 0, rs_db = [(''job:owner:j1'', (RStr ''alice'', Some 3600000)),
     (''results:j1'', (RStream \<lparr>s_entries = [(SID 1 0, [(''status'', ''completed'')])], s_last = SID 1 0, s_groups = []\<rparr>, Some 3600000))]\<rparr>"

theorem wait_for_job_owner_only_witness:
  "handle_wait_for_job sample_pydantic spec_redis (user_ctx ''alice'') [(''job_id'', JStr ''j1'')] sample_jobs
     = (Inr (tool_ok (JObj [(''status'', JStr ''completed'')])), sample_jobs)
   \<and> handle_wait_for_job sample_pydantic spec_redis (user_ctx ''bob'') [(''job_id'', JStr ''j1'')] sample_jobs
     = (Inr (tool_error ''job not found''), sample_jobs)"
proof -
  let ?m = "[(''job_id'', VStr ''j1''), (''timeout_seconds'', VInt 30)]"
  have m: "p_validate sample_pydantic WaitInput [(''job_id'', JStr ''j1'')] = Inr ?m" "m_str ?m ''job_id'' = ''j1''" by code_simp+
  obtain ra where ra: "handle_wait_for_job sample_pydantic spec_redis (user_ctx ''alice'') [(''job_id'', JStr ''j1'')] sample_jobs = (Inr ra, sample_jobs)"
    by (simp add: handle_wait_for_job_def with_input_def m Let_def job_owner_def read_result_def rs_xread_def rs_xrange_def
        get_current_user_def user_ctx_def sample_jobs_def owner_key_def results_key_def rs_get_def rs_find_def alive_def bindM_def is_string_key_def rs_stream_def)
  obtain rb where rb: "handle_wait_for_job sample_pydantic spec_redis (user_ctx ''bob'') [(''job_id'', JStr ''j1'')] sample_jobs = (Inr rb, sample_jobs)"
    by (simp add: handle_wait_for_job_def with_input_def m Let_def job_owner_def
        get_current_user_def user_ctx_def sample_jobs_def owner_key_def rs_get_def rs_find_def alive_def bindM_def)
  note fin = live_str_def rs_find_def sample_jobs_def user_ctx_def job_answer_def results_key_def rs_stream_def alive_def
  from wait_for_job_owner_only [OF spec.redis_server_axioms m(1) ra] wait_for_job_owner_only [OF spec.redis_server_axioms m(1) rb] ra rb
  show ?thesis by (simp add: m(2) fin)
qed

end
