(* ===== verification/Job_Queue.thy ===== *)
theory Job_Queue
  imports Jobs
begin

text \<open>
  The export queue against its abstract specification. The commands that the gateway issues on the
  stream of jobs (append, read as a group, acknowledge, reclaim, create the group) and everything that
  happens elsewhere on the server are the steps of a relation on the keyspace; the specification is a
  queue with a list of waiting jobs, a set of running jobs and a set of closed ones. Every step keeps
  the invariant of the stream and is a step of the queue or changes nothing in it.
\<close>

section \<open>The specification\<close>

record queue =
  q_waiting :: "entry list"
  q_running :: "entry set"
  q_closed :: "entry set"

inductive queue_step :: "queue \<Rightarrow> queue \<Rightarrow> bool" where
  put: "queue_step q (q\<lparr>q_waiting := q_waiting q @ [e]\<rparr>)"
| take: "q_waiting q = e # rest \<Longrightarrow> queue_step q (q\<lparr>q_waiting := rest, q_running := insert e (q_running q)\<rparr>)"
| close: "e \<in> q_running q \<Longrightarrow> queue_step q (q\<lparr>q_running := q_running q - {e}, q_closed := insert e (q_closed q)\<rparr>)"

definition q_jobs :: "queue \<Rightarrow> entry set" where
  "q_jobs q = set (q_waiting q) \<union> q_running q \<union> q_closed q"

text \<open>Jobs are never dropped, and a closed job stays closed.\<close>

lemma queue_step_keeps: "queue_step q q' \<Longrightarrow> q_jobs q \<subseteq> q_jobs q' \<and> q_closed q \<subseteq> q_closed q'"
  by (induction rule: queue_step.induct) (auto simp: q_jobs_def)

lemma queue_steps_keep: "queue_step\<^sup>*\<^sup>* q q' \<Longrightarrow> q_jobs q \<subseteq> q_jobs q' \<and> q_closed q \<subseteq> q_closed q'"
  by (induction rule: rtranclp_induct) (auto dest!: queue_step_keeps)

section \<open>The stream as a queue\<close>

definition ids :: "entry list \<Rightarrow> stream_id list" where
  "ids es = map fst es"

definition pending_ids :: "group \<Rightarrow> stream_id set" where
  "pending_ids gr = fst ` set (g_pending gr)"

text \<open>The ids grow, nothing lies beyond the last one, and what is pending was delivered.\<close>

definition stream_ok :: "stream \<Rightarrow> group \<Rightarrow> bool" where
  "stream_ok x gr \<longleftrightarrow> sorted_wrt (<) (ids (s_entries x)) \<and> (\<forall>i \<in> set (ids (s_entries x)). i \<le> s_last x)
     \<and> g_delivered gr \<le> s_last x \<and> (\<forall>i \<in> pending_ids gr. i \<le> g_delivered gr \<and> i \<in> set (ids (s_entries x)))"

definition queue_of :: "stream \<Rightarrow> group \<Rightarrow> queue" where
  "queue_of x gr = \<lparr>q_waiting = undelivered x gr,
     q_running = {e \<in> set (s_entries x). fst e \<in> pending_ids gr},
     q_closed = {e \<in> set (s_entries x). fst e \<le> g_delivered gr \<and> fst e \<notin> pending_ids gr}\<rparr>"

definition holds_queue :: "rstate \<Rightarrow> queue \<Rightarrow> bool" where
  "holds_queue st q \<longleftrightarrow> (\<exists>x gr. rs_find st JOBS_STREAM = Some (RStream x, None) \<and> map_of (s_groups x) GROUP = Some gr
     \<and> stream_ok x gr \<and> q = queue_of x gr)"

lemma next_id_greater: "l < next_id now l"
  by (auto simp: next_id_def less_stream_id_def)

lemma sorted_append_next:
  assumes "stream_ok x gr" "i = next_id now (s_last x)"
  shows "stream_ok (x\<lparr>s_entries := s_entries x @ [(i, fs)], s_last := i\<rparr>) gr"
    and "queue_of (x\<lparr>s_entries := s_entries x @ [(i, fs)], s_last := i\<rparr>) gr
      = (queue_of x gr)\<lparr>q_waiting := q_waiting (queue_of x gr) @ [(i, fs)]\<rparr>"
proof -
  have new: "s_last x < i" using assms(2) next_id_greater by simp
  have "g_delivered gr < i" using assms(1) new by (auto simp: stream_ok_def)
  moreover have "i \<notin> pending_ids gr" using assms(1) new by (force simp: stream_ok_def)
  ultimately show "queue_of (x\<lparr>s_entries := s_entries x @ [(i, fs)], s_last := i\<rparr>) gr
      = (queue_of x gr)\<lparr>q_waiting := q_waiting (queue_of x gr) @ [(i, fs)]\<rparr>"
    by (auto simp: queue_of_def undelivered_def)
  show "stream_ok (x\<lparr>s_entries := s_entries x @ [(i, fs)], s_last := i\<rparr>) gr"
    using assms(1) new by (fastforce simp: stream_ok_def ids_def sorted_wrt_append)
qed

text \<open>The undelivered entries are a suffix of the stream: handing out the first moves the mark to it.\<close>

lemma deliver_first:
  assumes ok: "stream_ok x gr" and w: "undelivered x gr = e # rest"
    and gr': "gr' = gr\<lparr>g_delivered := fst e, g_pending := g_pending gr @ [(fst e, c, t)]\<rparr>"
  shows "stream_ok x gr'"
    and "queue_of x gr' = (queue_of x gr)\<lparr>q_waiting := rest, q_running := insert e (q_running (queue_of x gr))\<rparr>"
proof -
  have pend: "pending_ids gr' = insert (fst e) (pending_ids gr)" by (auto simp: gr' pending_ids_def)
  have mark: "g_delivered gr' = fst e" by (simp add: gr')
  have sorted: "sorted_wrt (\<lambda>a b. fst a < fst b) (s_entries x)" using ok by (simp add: stream_ok_def ids_def sorted_wrt_map)
  then have "sorted_wrt (\<lambda>a b. fst a < fst b) (e # rest)" unfolding w [symmetric] undelivered_def by (rule sorted_wrt_filter)
  then have later: "\<forall>d \<in> set rest. fst e < fst d" by simp
  have mem: "d \<in> set (s_entries x) \<and> g_delivered gr < fst d \<longleftrightarrow> d = e \<or> d \<in> set rest" for d
    using arg_cong [OF w, of set] by (auto simp: undelivered_def)
  from mem [of e] have e: "e \<in> set (s_entries x)" "g_delivered gr < fst e" by blast+
  then have le: "fst e \<le> s_last x" using ok by (force simp: stream_ok_def ids_def)
  show "stream_ok x gr'"
    unfolding stream_ok_def pend mark using ok e le by (auto simp: stream_ok_def ids_def intro: order_trans less_imp_le)
  have below: "fst d \<le> fst e \<longleftrightarrow> d = e \<or> fst d \<le> g_delivered gr" if "d \<in> set (s_entries x)" for d
    using that mem [of d] later e(2) by (auto simp: not_le not_less leD)
  have uniq: "fst d = fst e \<Longrightarrow> d = e" if "d \<in> set (s_entries x)" for d
    using that below [of d] e(2) by auto
  have wait: "filter (\<lambda>d. fst e < fst d) (s_entries x) = rest"
  proof -
    have "filter (\<lambda>d. fst e < fst d) (s_entries x) = filter (\<lambda>d. fst e < fst d) (filter (\<lambda>d. g_delivered gr < fst d) (s_entries x))"
      using e(2) by (auto intro!: filter_cong)
    also have "\<dots> = filter (\<lambda>d. fst e < fst d) (e # rest)" using w by (simp add: undelivered_def)
    also have "\<dots> = rest" using later by simp
    finally show ?thesis .
  qed
  have "{d \<in> set (s_entries x). fst d \<in> pending_ids gr'} = insert e {d \<in> set (s_entries x). fst d \<in> pending_ids gr}"
    using e(1) uniq by (auto simp: pend)
  moreover have "{d \<in> set (s_entries x). fst d \<le> fst e \<and> fst d \<notin> pending_ids gr'}
      = {d \<in> set (s_entries x). fst d \<le> g_delivered gr \<and> fst d \<notin> pending_ids gr}"
    using e below by (auto simp: pend)
  ultimately show "queue_of x gr' = (queue_of x gr)\<lparr>q_waiting := rest, q_running := insert e (q_running (queue_of x gr))\<rparr>"
    by (simp add: queue_of_def undelivered_def mark wait)
qed

text \<open>An acknowledgement closes the running job with that id, if there is one.\<close>

lemma acknowledge_id:
  assumes ok: "stream_ok x gr" and gr': "gr' = gr\<lparr>g_pending := filter (\<lambda>p. fst p \<noteq> i) (g_pending gr)\<rparr>"
  shows "stream_ok x gr'"
    and "queue_of x gr' = (queue_of x gr)\<lparr>q_running := {e \<in> q_running (queue_of x gr). fst e \<noteq> i},
       q_closed := q_closed (queue_of x gr) \<union> {e \<in> q_running (queue_of x gr). fst e = i}\<rparr>"
proof -
  have pend: "pending_ids gr' = pending_ids gr - {i}" by (auto simp: gr' pending_ids_def)
  have mark: "g_delivered gr' = g_delivered gr" by (simp add: gr')
  show "stream_ok x gr'" using ok by (auto simp: stream_ok_def pend mark)
  have "\<forall>j \<in> pending_ids gr. j \<le> g_delivered gr" using ok by (simp add: stream_ok_def)
  then show "queue_of x gr' = (queue_of x gr)\<lparr>q_running := {e \<in> q_running (queue_of x gr). fst e \<noteq> i},
       q_closed := q_closed (queue_of x gr) \<union> {e \<in> q_running (queue_of x gr). fst e = i}\<rparr>"
    by (auto simp: queue_of_def undelivered_def pend mark)
qed

lemma acknowledge_step:
  fixes i :: stream_id
  assumes ok: "stream_ok x gr"
  defines "q \<equiv> queue_of x gr"
  defines "q' \<equiv> q\<lparr>q_running := {e \<in> q_running q. fst e \<noteq> i}, q_closed := q_closed q \<union> {e \<in> q_running q. fst e = i}\<rparr>"
  shows "queue_step\<^sup>*\<^sup>* q q'"
proof (cases "{e \<in> q_running q. fst e = i} = {}")
  case True
  then have "{e \<in> q_running q. fst e \<noteq> i} = q_running q" by auto
  then have "q' = q" unfolding q'_def True by simp
  then show ?thesis by simp
next
  case False
  then obtain e where e: "e \<in> q_running q" "fst e = i" by blast
  have "sorted_wrt (\<lambda>a b. fst a < fst b) (s_entries x)" using ok by (simp add: stream_ok_def ids_def sorted_wrt_map)
  then have "distinct (map fst (s_entries x))" by (metis ids_def ok stream_ok_def strict_sorted_iff)
  then have "{d \<in> q_running q. fst d = i} = {e}" using e by (auto simp: q_def queue_of_def) (metis eq_key_imp_eq_value prod.collapse)
  moreover from this have "{d \<in> q_running q. fst d \<noteq> i} = q_running q - {e}" by blast
  ultimately have "q' = q\<lparr>q_running := q_running q - {e}, q_closed := insert e (q_closed q)\<rparr>" by (simp add: q'_def)
  with e(1) show ?thesis by (auto intro: queue_step.close)
qed

lemma reclaim_ids:
  assumes "stream_ok x gr" and "gr' = gr\<lparr>g_pending := map (\<lambda>(i, c, t). if i \<in> S then (i, c', t') else (i, c, t)) (g_pending gr)\<rparr>"
  shows "stream_ok x gr' \<and> queue_of x gr' = queue_of x gr"
proof -
  have "pending_ids gr' = pending_ids gr" using assms(2) by (force simp: pending_ids_def image_iff)
  then show ?thesis using assms by (simp add: stream_ok_def queue_of_def undelivered_def)
qed

section \<open>The steps of the server\<close>

inductive jobs_step :: "rstate \<Rightarrow> rstate \<Rightarrow> bool" where
  enqueue: "rs_xadd JOBS_STREAM flds st = (r, st') \<Longrightarrow> jobs_step st st'"
| deliver: "rs_xreadgroup JOBS_STREAM GROUP consumer 1 block st = (r, st') \<Longrightarrow> jobs_step st st'"
| acknowledge: "rs_xack JOBS_STREAM GROUP i st = (r, st') \<Longrightarrow> jobs_step st st'"
| reclaim: "rs_xautoclaim JOBS_STREAM GROUP consumer idle n st = (r, st') \<Longrightarrow> jobs_step st st'"
| join: "rs_xgroup_create JOBS_STREAM GROUP st = (r, st') \<Longrightarrow> jobs_step st st'"
| elsewhere: "map_of (rs_db st') JOBS_STREAM = map_of (rs_db st) JOBS_STREAM \<Longrightarrow> jobs_step st st'"

lemma holds_queueE:
  assumes "holds_queue st q"
  obtains x gr where "rs_find st JOBS_STREAM = Some (RStream x, None)" "map_of (s_groups x) GROUP = Some gr"
    "stream_ok x gr" "q = queue_of x gr" "rs_stream st JOBS_STREAM = x" "deadline st JOBS_STREAM = None"
    "\<not> is_string_key st JOBS_STREAM"
  using assms by (auto simp: holds_queue_def rs_stream_def deadline_def is_string_key_def)

lemma holds_put:
  assumes "deadline st JOBS_STREAM = None" "map_of (s_groups x) GROUP = Some gr" "stream_ok x gr"
  shows "holds_queue (rs_put_stream JOBS_STREAM x st) (queue_of x gr)"
  using assms by (auto simp: holds_queue_def)

text \<open>What each command does to the queue.\<close>

lemma queue_xadd:
  assumes "holds_queue st q" "rs_xadd JOBS_STREAM flds st = (r, st')"
  shows "\<exists>i. r = Inr i \<and> holds_queue st' (q\<lparr>q_waiting := q_waiting q @ [(i, flds)]\<rparr>)"
proof -
  from assms(1) obtain x gr where x: "map_of (s_groups x) GROUP = Some gr" "stream_ok x gr" "q = queue_of x gr"
    "rs_stream st JOBS_STREAM = x" "deadline st JOBS_STREAM = None" "\<not> is_string_key st JOBS_STREAM"
    by (rule holds_queueE)
  define i where "i = next_id (rs_now st) (s_last x)"
  let ?x = "x\<lparr>s_entries := s_entries x @ [(i, flds)], s_last := i\<rparr>"
  have run: "r = Inr i" "st' = rs_put_stream JOBS_STREAM ?x st"
    using assms(2) x by (simp_all add: rs_xadd_def i_def Let_def)
  have "map_of (s_groups ?x) GROUP = Some gr" by (simp add: x(1))
  from holds_put [OF x(5) this] sorted_append_next [OF x(2) i_def] run x(3) show ?thesis by simp
qed

lemma queue_xreadgroup:
  assumes "holds_queue st q" "rs_xreadgroup JOBS_STREAM GROUP c 1 b st = (r, st')"
  shows "case q_waiting q of [] \<Rightarrow> r = Inr [] \<and> st' = st
     | e # rest \<Rightarrow> r = Inr [e] \<and> holds_queue st' (q\<lparr>q_waiting := rest, q_running := insert e (q_running q)\<rparr>)"
proof -
  from assms(1) obtain x gr where x: "map_of (s_groups x) GROUP = Some gr" "stream_ok x gr" "q = queue_of x gr"
    "rs_stream st JOBS_STREAM = x" "deadline st JOBS_STREAM = None"
    by (rule holds_queueE)
  have w: "q_waiting q = undelivered x gr" by (simp add: x(3) queue_of_def)
  show ?thesis
  proof (cases "undelivered x gr")
    case Nil
    with assms(2) x w show ?thesis by (simp add: rs_xreadgroup_def Let_def)
  next
    case (Cons e rest)
    define gr' where "gr' = gr\<lparr>g_delivered := fst e, g_pending := g_pending gr @ [(fst e, c, rs_now st)]\<rparr>"
    let ?x = "x\<lparr>s_groups := dict_set GROUP gr' (s_groups x)\<rparr>"
    have run: "r = Inr [e]" "st' = rs_put_stream JOBS_STREAM ?x st"
      using assms(2) x Cons by (simp_all add: rs_xreadgroup_def Let_def gr'_def)
    have same: "stream_ok ?x gr' = stream_ok x gr'" "queue_of ?x gr' = queue_of x gr'"
      by (simp_all add: stream_ok_def queue_of_def undelivered_def)
    have "map_of (s_groups ?x) GROUP = Some gr'" by simp
    from holds_put [OF x(5) this] deliver_first [OF x(2) Cons gr'_def] run x(3) Cons w same show ?thesis by simp
  qed
qed

lemma queue_xack:
  assumes "holds_queue st q" "rs_xack JOBS_STREAM GROUP i st = (r, st')"
  shows "holds_queue st' (q\<lparr>q_running := {e \<in> q_running q. fst e \<noteq> i}, q_closed := q_closed q \<union> {e \<in> q_running q. fst e = i}\<rparr>)"
proof -
  from assms(1) obtain x gr where x: "map_of (s_groups x) GROUP = Some gr" "stream_ok x gr" "q = queue_of x gr"
    "rs_stream st JOBS_STREAM = x" "deadline st JOBS_STREAM = None"
    by (rule holds_queueE)
  define gr' where "gr' = gr\<lparr>g_pending := filter (\<lambda>p. fst p \<noteq> i) (g_pending gr)\<rparr>"
  let ?x = "x\<lparr>s_groups := dict_set GROUP gr' (s_groups x)\<rparr>"
  have run: "st' = rs_put_stream JOBS_STREAM ?x st"
    using assms(2) x by (simp add: rs_xack_def Let_def gr'_def)
  have same: "stream_ok ?x gr' = stream_ok x gr'" "queue_of ?x gr' = queue_of x gr'"
    by (simp_all add: stream_ok_def queue_of_def undelivered_def)
  have "map_of (s_groups ?x) GROUP = Some gr'" by simp
  from holds_put [OF x(5) this] acknowledge_id [OF x(2) gr'_def] run x(3) same show ?thesis by simp
qed

lemma queue_xautoclaim:
  assumes "holds_queue st q" "rs_xautoclaim JOBS_STREAM GROUP c idle n st = (r, st')"
  shows "\<exists>es. r = Inr es \<and> set es \<subseteq> q_running q \<and> holds_queue st' q"
proof -
  from assms(1) obtain x gr where x: "map_of (s_groups x) GROUP = Some gr" "stream_ok x gr" "q = queue_of x gr"
    "rs_stream st JOBS_STREAM = x" "deadline st JOBS_STREAM = None"
    by (rule holds_queueE)
  define S where "S = set (map fst (take n (filter (\<lambda>(i, c, t). idle \<le> rs_now st - t) (g_pending gr))))"
  define gr' where "gr' = gr\<lparr>g_pending := map (\<lambda>(i, c', t). if i \<in> S then (i, c, rs_now st) else (i, c', t)) (g_pending gr)\<rparr>"
  let ?x = "x\<lparr>s_groups := dict_set GROUP gr' (s_groups x)\<rparr>"
  have run: "r = Inr (filter (\<lambda>e. fst e \<in> S) (s_entries x))" "st' = rs_put_stream JOBS_STREAM ?x st"
    using assms(2) x by (simp_all add: rs_xautoclaim_def Let_def gr'_def S_def)
  have "S \<subseteq> pending_ids gr" by (auto simp: S_def pending_ids_def dest!: in_set_takeD)
  then have "set (filter (\<lambda>e. fst e \<in> S) (s_entries x)) \<subseteq> q_running q" by (auto simp: x(3) queue_of_def)
  moreover have same: "stream_ok ?x gr' = stream_ok x gr'" "queue_of ?x gr' = queue_of x gr'"
    by (simp_all add: stream_ok_def queue_of_def undelivered_def)
  have "map_of (s_groups ?x) GROUP = Some gr'" by simp
  from holds_put [OF x(5) this] reclaim_ids [OF x(2) gr'_def] run x(3) same have "holds_queue st' q" by simp
  ultimately show ?thesis using run by blast
qed

lemma queue_join:
  assumes "holds_queue st q" "rs_xgroup_create JOBS_STREAM GROUP st = (r, st')"
  shows "st' = st"
  using assms by (auto simp: rs_xgroup_create_def Let_def elim!: holds_queueE)

lemma queue_elsewhere:
  assumes "holds_queue st q" "map_of (rs_db st') JOBS_STREAM = map_of (rs_db st) JOBS_STREAM"
  shows "holds_queue st' q"
proof -
  have "rs_find st' JOBS_STREAM = Some (RStream x, None)" if "rs_find st JOBS_STREAM = Some (RStream x, None)" for x
    using that assms(2) by (auto simp: rs_find_def alive_def split: option.splits if_splits)
  then show ?thesis using assms(1) by (auto simp: holds_queue_def)
qed

lemma jobs_step_refines:
  assumes "jobs_step st st'" "holds_queue st q"
  shows "\<exists>q'. queue_step\<^sup>*\<^sup>* q q' \<and> holds_queue st' q'"
  using assms
proof (induction rule: jobs_step.induct)
  case (enqueue flds st r st')
  from queue_xadd [OF enqueue(2,1)] show ?case by (metis put r_into_rtranclp)
next
  case (deliver consumer block st r st')
  show ?case
  proof (cases "q_waiting q")
    case Nil
    then show ?thesis using queue_xreadgroup [OF deliver(2,1)] deliver(2) by auto
  next
    case (Cons e rest)
    then show ?thesis using queue_xreadgroup [OF deliver(2,1)] queue_step.take [OF Cons] by auto
  qed
next
  case (acknowledge i st r st')
  from acknowledge(2) obtain x gr where "stream_ok x gr" "q = queue_of x gr" by (rule holds_queueE)
  then show ?case using queue_xack [OF acknowledge(2,1)] acknowledge_step [of x gr i] by auto
next
  case (reclaim consumer idle n st r st')
  then show ?case using queue_xautoclaim by (metis rtranclp.rtrancl_refl)
next
  case (join st r st')
  then show ?case using queue_join by (metis rtranclp.rtrancl_refl)
next
  case (elsewhere st' st)
  then show ?case using queue_elsewhere by (metis rtranclp.rtrancl_refl)
qed

lemma jobs_steps_refine:
  assumes "jobs_step\<^sup>*\<^sup>* st st'" "holds_queue st q"
  shows "\<exists>q'. queue_step\<^sup>*\<^sup>* q q' \<and> holds_queue st' q'"
  using assms
proof (induction rule: rtranclp_induct)
  case (step st1 st2)
  then show ?case using jobs_step_refines by (meson rtranclp_trans)
qed blast

lemma closed_disjoint:
  assumes "holds_queue st q" "e \<in> q_closed q"
  shows "e \<notin> set (q_waiting q)" "e \<notin> q_running q"
  using assms by (auto simp: holds_queue_def queue_of_def undelivered_def)

text \<open>A job that is closed is handed out no more, neither to a reader nor to a reclaim.\<close>

lemma closed_never_again:
  assumes "holds_queue st q" "e \<in> q_closed q" "jobs_step\<^sup>*\<^sup>* st st'"
  shows "rs_xreadgroup JOBS_STREAM GROUP c 1 b st' = (Inr es, st'') \<Longrightarrow> e \<notin> set es"
    and "rs_xautoclaim JOBS_STREAM GROUP c t n st' = (Inr es, st'') \<Longrightarrow> e \<notin> set es"
proof -
  from jobs_steps_refine [OF assms(3,1)] obtain q' where q': "queue_step\<^sup>*\<^sup>* q q'" "holds_queue st' q'" by blast
  with assms(2) queue_steps_keep have "e \<in> q_closed q'" by blast
  note off = closed_disjoint [OF q'(2) this]
  show "e \<notin> set es" if "rs_xreadgroup JOBS_STREAM GROUP c 1 b st' = (Inr es, st'')"
    using queue_xreadgroup [OF q'(2) that] off(1) by (auto split: list.splits)
  show "e \<notin> set es" if "rs_xautoclaim JOBS_STREAM GROUP c t n st' = (Inr es, st'')"
    using queue_xautoclaim [OF q'(2) that] off(2) by auto
qed

end
