(* ===== verification/Job_Worker.thy ===== *)
theory Job_Worker
  imports Job_Queue
begin

text \<open>
  The background worker of \<open>app/integrations/google/job_worker.py\<close>: it reads export jobs as a member of
  the consumer group, exports the file, writes it below the export directory, publishes a record and
  acknowledges the job. The operating system (directories, files, sleeping) and the text of an
  exception (\<open>str(exc)\<close>) are parameters. The worker and the token store talk to one Redis server.
\<close>

section \<open>The code\<close>

record 's os =
  os_makedirs :: "string \<Rightarrow> nat \<Rightarrow> ('s, unit) prog"
  os_chmod :: "string \<Rightarrow> nat \<Rightarrow> ('s, unit) prog"
  os_write_bytes :: "string \<Rightarrow> string \<Rightarrow> ('s, unit) prog"
  os_sleep :: "dec \<Rightarrow> ('s, unit) prog"

record 's job_worker =
  jw_redis :: "'s redis"
  jw_net :: "'s net"
  jw_retries :: int
  jw_store :: "'s store"
  jw_fernet :: "'s fernet"
  jw_app :: google_app
  jw_os :: "'s os"
  jw_str :: "exn \<Rightarrow> string"
  jw_export_dir :: string
  jw_consumer :: string

definition RECLAIM_IDLE_MS :: int where
  "RECLAIM_IDLE_MS = 60000"

definition IDLE_SLEEP_SECONDS :: dec where
  "IDLE_SLEEP_SECONDS = Dec 1 1"

text \<open>\<open>os.getenv('HOSTNAME') or socket.gethostname()\<close> and the process id.\<close>

definition consumer_name :: "string option \<Rightarrow> string \<Rightarrow> int \<Rightarrow> string" where
  "consumer_name hostname gethostname pid =
     ''worker-'' @ (if truthy_opt hostname then the hostname else gethostname) @ ''-'' @ int_str pid"

definition publish :: "'s job_worker \<Rightarrow> string \<Rightarrow> fields \<Rightarrow> ('s, unit) prog" where
  "publish W job_id rec =
     bindM (r_xadd (jw_redis W) (results_key job_id) rec) (\<lambda>_.
     bindM (r_expire (jw_redis W) (results_key job_id) RESULT_TTL_SECONDS) (\<lambda>_.
     bindM (r_expire (jw_redis W) (owner_key job_id) RESULT_TTL_SECONDS) (\<lambda>_. ret ())))"

text \<open>The body of the \<open>try\<close> up to the record that is published.\<close>

definition export_job :: "'s job_worker \<Rightarrow> string \<Rightarrow> fields \<Rightarrow> ('s, fields) prog" where
  "export_job W job_id flds =
     bindM (lift_res (bind_res (dict_item flds ''format'') (dict_item EXPORT_FORMATS))) (\<lambda>(export_mime, ext).
     bindM (lift_res (dict_item flds ''user_id'')) (\<lambda>user_id.
     bindM (get_valid_google_token (jw_net W) (jw_store W) (jw_fernet W) (jw_app W) user_id) (\<lambda>token.
     bindM (lift_res (dict_item flds ''file_id'')) (\<lambda>file_id.
     bindM (export_file (jw_net W) (jw_retries W) token file_id export_mime) (\<lambda>content.
     let data = (case content of JStr b \<Rightarrow> b | _ \<Rightarrow> []);
         path = path_join (jw_export_dir W) (job_id @ ''.'' @ ext) in
     bindM (os_write_bytes (jw_os W) path data) (\<lambda>_.
     bindM (os_chmod (jw_os W) path 384) (\<lambda>_.
     bindM (asks (n_time (jw_net W))) (\<lambda>t.
       ret [(''status'', ''completed''), (''path'', path), (''size_bytes'', int_str (int (length data))), (''mime'', export_mime),
            (''user_id'', user_id), (''ts'', dec_str t)]))))))))"

definition failed_record :: "'s job_worker \<Rightarrow> fields \<Rightarrow> exn \<Rightarrow> ('s, fields) prog" where
  "failed_record W flds e =
     bindM (lift_res (dict_item flds ''user_id'')) (\<lambda>user_id.
     bindM (asks (n_time (jw_net W))) (\<lambda>t.
       ret [(''status'', ''failed''), (''error'', jw_str W e), (''user_id'', user_id), (''ts'', dec_str t)]))"

definition process :: "'s job_worker \<Rightarrow> stream_id \<Rightarrow> fields \<Rightarrow> ('s, unit) prog" where
  "process W entry_id flds =
     bindM (lift_res (dict_item flds ''job_id'')) (\<lambda>job_id.
       finallyM
         (tryM (bindM (export_job W job_id flds) (publish W job_id))
            (\<lambda>e. if is_exception e then bindM (failed_record W flds e) (publish W job_id) else raise e))
         (r_xack (jw_redis W) JOBS_STREAM GROUP entry_id))"

definition reclaim_entries :: "'s job_worker \<Rightarrow> ('s, entry list) prog" where
  "reclaim_entries W = tryM (r_xautoclaim (jw_redis W) JOBS_STREAM GROUP (jw_consumer W) RECLAIM_IDLE_MS 10)
     (\<lambda>e. if is_exception e then ret [] else raise e)"

definition process_all :: "'s job_worker \<Rightarrow> entry list \<Rightarrow> ('s, unit list) prog" where
  "process_all W = mapM (\<lambda>(entry_id, flds). process W entry_id flds)"

text \<open>One round of the loop.\<close>

definition worker_round :: "'s job_worker \<Rightarrow> ('s, unit) prog" where
  "worker_round W = tryM
     (bindM (reclaim_entries W) (\<lambda>old.
      bindM (process_all W old) (\<lambda>_.
      bindM (r_xreadgroup (jw_redis W) JOBS_STREAM GROUP (jw_consumer W) 1 5000) (\<lambda>new.
      bindM (process_all W new) (\<lambda>_.
        if old = [] \<and> new = [] then os_sleep (jw_os W) IDLE_SLEEP_SECONDS else ret ())))))
     (\<lambda>e. if is_exception e then os_sleep (jw_os W) (dec_of_int 1) else raise e)"

text \<open>The first \<open>n\<close> rounds of the endless loop.\<close>

primrec rounds :: "'s job_worker \<Rightarrow> nat \<Rightarrow> ('s, unit) prog" where
  "rounds W 0 = ret ()"
| "rounds W (Suc n) = bindM (worker_round W) (\<lambda>_. rounds W n)"

definition run_worker :: "'s job_worker \<Rightarrow> nat \<Rightarrow> ('s, unit) prog" where
  "run_worker W n =
     bindM (os_makedirs (jw_os W) (jw_export_dir W) 448) (\<lambda>_.
     bindM (os_chmod (jw_os W) (jw_export_dir W) 448) (\<lambda>_.
     bindM (ensure_group (jw_redis W)) (\<lambda>_.
       rounds W n)))"

section \<open>A server that answers\<close>

text \<open>
  \<open>exact \<alpha> m m'\<close>: the command always gets its answer. \<open>passes \<alpha> m\<close>: on the server only time goes by.
  The locale is a world in which Redis answers and nobody but the worker writes to it, and in which the
  network and the operating system may fail in any way.
\<close>

definition exact :: "('s \<Rightarrow> 't) \<Rightarrow> ('s, 'a) prog \<Rightarrow> ('t, 'a) prog \<Rightarrow> bool" where
  "exact \<alpha> m m' \<longleftrightarrow> (\<forall>s. m' (\<alpha> s) = (fst (m s), \<alpha> (snd (m s))))"

lemma exactD: "exact \<alpha> m m' \<Longrightarrow> m s = (r, s') \<Longrightarrow> m' (\<alpha> s) = (r, \<alpha> s')"
  by (metis exact_def fst_conv snd_conv)

definition passes :: "('s \<Rightarrow> rstate) \<Rightarrow> ('s, 'a) prog \<Rightarrow> bool" where
  "passes \<alpha> m \<longleftrightarrow> guarantees (\<lambda>s s'. \<exists>d \<ge> 0. \<alpha> s' = rs_tick d (\<alpha> s)) m"

locale job_world = gateway_world R \<alpha> N sent
  for R :: "'s redis" and \<alpha> :: "'s \<Rightarrow> rstate" and N :: "'s net" and sent :: "'s \<Rightarrow> http_request list" +
  fixes W :: "'s job_worker"
  assumes worker_redis: "jw_redis W = R" and worker_net: "jw_net W = N" and worker_store: "jw_store W = google_token_store R"
    and exact_get: "exact \<alpha> (r_get R k) (rs_get k)"
    and exact_set: "exact \<alpha> (r_set R k v ex nx) (rs_set k v ex nx)"
    and exact_expire: "exact \<alpha> (r_expire R k secs) (rs_expire k secs)"
    and exact_xadd: "exact \<alpha> (r_xadd R k flds) (rs_xadd k flds)"
    and exact_xgroup_create: "exact \<alpha> (r_xgroup_create R k g) (rs_xgroup_create k g)"
    and exact_xreadgroup: "exact \<alpha> (r_xreadgroup R k g c cnt block) (rs_xreadgroup k g c cnt block)"
    and exact_xack: "exact \<alpha> (r_xack R k g i) (rs_xack k g i)"
    and exact_xautoclaim: "exact \<alpha> (r_xautoclaim R k g c idle cnt) (rs_xautoclaim k g c idle cnt)"
    and passes_send: "passes \<alpha> (n_send N rq)"
    and passes_pause: "passes \<alpha> (n_pause N attempt)"
    and passes_makedirs: "passes \<alpha> (os_makedirs (jw_os W) p mode)"
    and passes_chmod: "passes \<alpha> (os_chmod (jw_os W) p mode)"
    and passes_write: "passes \<alpha> (os_write_bytes (jw_os W) p content)"
    and passes_sleep: "passes \<alpha> (os_sleep (jw_os W) t)"

text \<open>Between the two states time went by, and outside the stored tokens nothing else happened.\<close>

definition only_tokens :: "rstate \<Rightarrow> rstate \<Rightarrow> bool" where
  "only_tokens st st' \<longleftrightarrow> rs_now st \<le> rs_now st' \<and> (\<forall>k. \<not> prefix ''token:'' k \<longrightarrow> map_of (rs_db st') k = map_of (rs_db st) k)"

interpretation only_tokens: frame_rel "\<lambda>s s'. only_tokens (\<alpha> s) (\<alpha> s')" for \<alpha>
  by unfold_locales (auto simp: only_tokens_def)

lemma only_tokens_tick: "0 \<le> d \<Longrightarrow> only_tokens st (rs_tick d st)"
  by (simp add: only_tokens_def rs_tick_def)

lemma passes_only_tokens: "passes \<alpha> m \<Longrightarrow> guarantees (\<lambda>s s'. only_tokens (\<alpha> s) (\<alpha> s')) m"
  unfolding passes_def by (erule guarantees_mono) (auto simp: only_tokens_tick)

lemma exact_guarantees:
  assumes "exact \<alpha> m m'" "\<And>st. Q st (snd (m' st))"
  shows "guarantees (\<lambda>s s'. Q (\<alpha> s) (\<alpha> s')) m"
  using assms by (metis (mono_tags, lifting) exact_def guarantees_def snd_conv)

lemma rs_get_state [simp]: "snd (rs_get k st) = st"
  by (auto simp: rs_get_def split: option.splits rval.splits prod.splits)

lemma rs_set_only_tokens: "only_tokens st (snd (rs_set (''token:'' @ u) v None False st))"
  by (auto simp: rs_set_def rs_put_def only_tokens_def)

context job_world
begin

lemmas passes_all = passes_send passes_pause passes_makedirs passes_chmod passes_write passes_sleep

lemmas token_frames = passes_all [THEN passes_only_tokens]

lemma fetch_tokens: "guarantees (\<lambda>s s'. only_tokens (\<alpha> s) (\<alpha> s')) (fetch N rq)"
  unfolding fetch_def by (intro only_tokens.frame_rules token_frames)

lemma retrying_tokens:
  assumes "guarantees (\<lambda>s s'. only_tokens (\<alpha> s) (\<alpha> s')) m"
  shows "guarantees (\<lambda>s s'. only_tokens (\<alpha> s) (\<alpha> s')) (n_retrying N n p m)"
proof -
  have "guarantees (\<lambda>s s'. only_tokens (\<alpha> s) (\<alpha> s')) (attempts (n_pause N) p m i k)" for i k
  proof (induction k arbitrary: i)
    case (Suc k)
    then show ?case
      using token_frames(2) [of i] by (auto intro!: only_tokens.frame_tryM only_tokens.frame_bindM only_tokens.frame_raise assms)
  qed (simp add: assms)
  then show ?thesis by (simp add: retrying_loop)
qed

lemma store_tokens:
  "guarantees (\<lambda>s s'. only_tokens (\<alpha> s) (\<alpha> s')) (st_get (google_token_store R) u)"
  "guarantees (\<lambda>s s'. only_tokens (\<alpha> s) (\<alpha> s')) (st_set (google_token_store R) u v None)"
proof -
  have "guarantees (\<lambda>s s'. only_tokens (\<alpha> s) (\<alpha> s')) (r_get R (''token:'' @ u))"
    by (rule exact_guarantees [OF exact_get]) (simp add: only_tokens.frame_refl [of id, simplified])
  then show "guarantees (\<lambda>s s'. only_tokens (\<alpha> s) (\<alpha> s')) (st_get (google_token_store R) u)"
    by (simp add: google_token_store_def RedisStore_def RedisStore_get_def)
  have "guarantees (\<lambda>s s'. only_tokens (\<alpha> s) (\<alpha> s')) (r_set R (''token:'' @ u) v None False)"
    by (rule exact_guarantees [OF exact_set]) (rule rs_set_only_tokens)
  then show "guarantees (\<lambda>s s'. only_tokens (\<alpha> s) (\<alpha> s')) (st_set (google_token_store R) u v None)"
    by (auto simp: google_token_store_def RedisStore_def RedisStore_set_def intro!: only_tokens.frame_rules)
qed

lemma export_job_tokens: "guarantees (\<lambda>s s'. only_tokens (\<alpha> s) (\<alpha> s')) (export_job W j flds)"
proof -
  note rules = only_tokens.frame_rules token_frames fetch_tokens retrying_tokens store_tokens
  have "guarantees (\<lambda>s s'. only_tokens (\<alpha> s) (\<alpha> s')) (get_valid_google_token N (google_token_store R) F app u)" for F app u
    unfolding get_valid_google_token_def refresh_google_token_def accept_refresh_def
    by (auto intro!: rules split: option.split)
  then show ?thesis
    unfolding export_job_def worker_net worker_store export_file_def Let_def
    by (auto intro!: rules split: prod.split)
qed

end

section \<open>What a processed job leaves\<close>

lemma exact_bindM: "exact \<alpha> m m' \<Longrightarrow> (\<And>x. exact \<alpha> (f x) (f' x)) \<Longrightarrow> exact \<alpha> (bindM m f) (bindM m' f')"
  unfolding exact_def bindM_def by (auto split: prod.splits sum.splits)

lemma exact_ret: "exact \<alpha> (ret x) (ret x)"
  by (simp add: exact_def)

text \<open>Outside the given keys the two keyspaces agree, and no time went by.\<close>

definition writes_only :: "string set \<Rightarrow> rstate \<Rightarrow> rstate \<Rightarrow> bool" where
  "writes_only K st st' \<longleftrightarrow> rs_now st' = rs_now st \<and> (\<forall>k. k \<notin> K \<longrightarrow> map_of (rs_db st') k = map_of (rs_db st) k)"

lemma writes_only_trans: "writes_only K st st1 \<Longrightarrow> writes_only K st1 st2 \<Longrightarrow> writes_only K st st2"
  by (simp add: writes_only_def)

lemma writes_only_put [simp]: "k \<in> K \<Longrightarrow> writes_only K st (rs_put k v d st)" "writes_only K st st"
  "k \<in> K \<Longrightarrow> writes_only K st (rs_put_stream k x st)"
  by (auto simp: writes_only_def rs_put_def rs_put_stream_def)

lemma writes_only_xadd: "k \<in> K \<Longrightarrow> writes_only K st (snd (rs_xadd k flds st))"
  by (simp add: rs_xadd_def Let_def)

lemma writes_only_expire: "k \<in> K \<Longrightarrow> 0 < t \<Longrightarrow> writes_only K st (snd (rs_expire k t st))"
  by (auto simp: rs_expire_def rs_pexpire_def split: option.splits)

lemma writes_only_xack: "k \<in> K \<Longrightarrow> writes_only K st (snd (rs_xack k g i st))"
  by (auto simp: rs_xack_def Let_def split: option.splits)

lemma writes_only_xreadgroup: "k \<in> K \<Longrightarrow> writes_only K st (snd (rs_xreadgroup k g c n b st))"
  by (auto simp: rs_xreadgroup_def Let_def split: option.splits)

lemma writes_only_xautoclaim: "k \<in> K \<Longrightarrow> writes_only K st (snd (rs_xautoclaim k g c t n st))"
  by (auto simp: rs_xautoclaim_def Let_def split: option.splits)

lemma rs_find_same: "map_of (rs_db st') k = map_of (rs_db st) k \<Longrightarrow> rs_now st' = rs_now st \<Longrightarrow> rs_find st' k = rs_find st k"
  by (simp add: rs_find_def split: option.splits)

lemma rs_find_none_later: "map_of (rs_db st') k = map_of (rs_db st) k \<Longrightarrow> rs_now st \<le> rs_now st' \<Longrightarrow> rs_find st k = None \<Longrightarrow> rs_find st' k = None"
  by (auto simp: rs_find_def alive_def split: option.splits if_splits)

lemma rs_find_Some_map: "rs_find st k = Some x \<Longrightarrow> map_of (rs_db st) k = Some x"
  by (auto simp: rs_find_def split: option.splits if_splits)

definition rs_publish :: "string \<Rightarrow> fields \<Rightarrow> (rstate, unit) prog" where
  "rs_publish j rec = bindM (rs_xadd (results_key j) rec) (\<lambda>_. bindM (rs_expire (results_key j) RESULT_TTL_SECONDS) (\<lambda>_.
     bindM (rs_expire (owner_key j) RESULT_TTL_SECONDS) (\<lambda>_. ret ())))"

text \<open>The published answer to a job of \<open>u\<close>: one record, kept for an hour.\<close>

definition one_record :: "fields \<Rightarrow> rval \<times> int option \<Rightarrow> int \<Rightarrow> bool" where
  "one_record rec v t \<longleftrightarrow> (\<exists>n. v = (RStream \<lparr>s_entries = [(n, rec)], s_last = n, s_groups = []\<rparr>, Some t))"

lemma job_keys: "results_key j \<noteq> owner_key j" "results_key j \<noteq> JOBS_STREAM" "owner_key j \<noteq> JOBS_STREAM"
  "\<not> prefix ''token:'' (results_key j)" "\<not> prefix ''token:'' (owner_key j)" "\<not> prefix ''token:'' JOBS_STREAM"
  "results_key j \<noteq> owner_key j'" "results_key j = results_key j' \<longleftrightarrow> j = j'"
  by (simp_all add: results_key_def owner_key_def JOBS_STREAM_def)

lemma rs_expire_run:
  "rs_expire k RESULT_TTL_SECONDS st = (case rs_find st k of None \<Rightarrow> (Inr False, st)
     | Some (v, _) \<Rightarrow> (Inr True, rs_put k v (Some (rs_now st + 3600000)) st))"
  by (simp add: rs_expire_def rs_pexpire_def RESULT_TTL_SECONDS_def split: option.splits)

lemma rs_publish_run:
  assumes none: "rs_find st (results_key j) = None" and run: "rs_publish j rec st = (r, st')"
  shows "r = Inr ()" and "\<exists>v. rs_find st' (results_key j) = Some v \<and> one_record rec v (rs_now st' + 3600000)"
    and "writes_only {results_key j, owner_key j} st st'"
proof -
  define i where "i = next_id (rs_now st) (SID 0 0)"
  define x where "x = \<lparr>s_entries = [(i, rec)], s_last = i, s_groups = []\<rparr>"
  let ?t = "Some (rs_now st + 3600000)"
  define st1 where "st1 = rs_put_stream (results_key j) x st"
  define st2 where "st2 = rs_put (results_key j) (RStream x) ?t st1"
  have add: "rs_xadd (results_key j) rec st = (Inr i, st1)"
    using none by (simp add: rs_xadd_def is_string_key_def rs_stream_def Let_def i_def x_def st1_def empty_stream_def)
  have exp: "rs_expire (results_key j) RESULT_TTL_SECONDS st1 = (Inr True, st2)"
    by (simp add: rs_expire_run st1_def st2_def)
  obtain b st3 where own3: "rs_expire (owner_key j) RESULT_TTL_SECONDS st2 = (Inr b, st3)"
    by (cases "rs_find st2 (owner_key j)") (auto simp: rs_expire_run)
  have "rs_publish j rec st = (Inr (), st3)"
    by (simp add: rs_publish_def bindM_def add exp own3)
  then have own: "rs_expire (owner_key j) RESULT_TTL_SECONDS st2 = (Inr b, st')" and r: "r = Inr ()"
    using run own3 by simp_all
  show "r = Inr ()" by (rule r)
  have step: "writes_only {owner_key j} st2 st'" using own writes_only_expire [of "owner_key j" "{owner_key j}" RESULT_TTL_SECONDS st2]
    by (simp add: RESULT_TTL_SECONDS_def)
  then have now: "rs_now st' = rs_now st" by (simp add: writes_only_def st2_def st1_def)
  have "rs_find st2 (results_key j) = Some (RStream x, ?t)" by (simp add: st2_def st1_def alive_def)
  with step have "rs_find st' (results_key j) = Some (RStream x, ?t)"
    using rs_find_same [of st' "results_key j" st2] by (simp add: writes_only_def job_keys)
  then show "\<exists>v. rs_find st' (results_key j) = Some v \<and> one_record rec v (rs_now st' + 3600000)"
    by (auto simp: one_record_def x_def now)
  have "writes_only {results_key j, owner_key j} st st1" "writes_only {results_key j, owner_key j} st1 st2"
    by (simp_all add: st1_def st2_def)
  moreover have "writes_only {results_key j, owner_key j} st2 st'" using step by (simp add: writes_only_def)
  ultimately show "writes_only {results_key j, owner_key j} st st'" by (meson writes_only_trans)
qed

context job_world
begin

lemma exact_publish: "exact \<alpha> (publish W j rec) (rs_publish j rec)"
  unfolding publish_def rs_publish_def worker_redis
  by (intro exact_bindM exact_ret exact_xadd exact_expire)

lemma publish_run:
  assumes "publish W j rec s = (r, s')" "rs_find (\<alpha> s) (results_key j) = None"
  shows "r = Inr ()" and "\<exists>v. rs_find (\<alpha> s') (results_key j) = Some v \<and> one_record rec v (rs_now (\<alpha> s') + 3600000)"
    and "writes_only {results_key j, owner_key j} (\<alpha> s) (\<alpha> s')"
  using rs_publish_run [OF assms(2) exactD [OF exact_publish assms(1)]] by blast+

lemma export_job_keeps:
  assumes "export_job W j flds s = (r, s')"
  shows "rs_now (\<alpha> s) \<le> rs_now (\<alpha> s')" and "\<not> prefix ''token:'' k \<Longrightarrow> map_of (rs_db (\<alpha> s')) k = map_of (rs_db (\<alpha> s)) k"
  using guaranteesD [OF export_job_tokens assms] by (simp_all add: only_tokens_def)

text \<open>The \<open>try\<close> block: one record, or a cancellation that leaves none.\<close>

lemma try_block:
  assumes run: "tryM (bindM (export_job W j flds) (publish W j))
      (\<lambda>e. if is_exception e then bindM (failed_record W flds e) (publish W j) else raise e) s = (r, s')"
    and u: "dict_get flds ''user_id'' = Some u" and none: "rs_find (\<alpha> s) (results_key j) = None"
  shows "(r = Inl CancelledError \<and> export_job W j flds s = (Inl CancelledError, s'))
    \<or> (r = Inr () \<and> rs_now (\<alpha> s) \<le> rs_now (\<alpha> s')
        \<and> (\<exists>rec v. rs_find (\<alpha> s') (results_key j) = Some v \<and> one_record rec v (rs_now (\<alpha> s') + 3600000)
             \<and> dict_get rec ''status'' \<in> {Some ''completed'', Some ''failed''} \<and> dict_get rec ''user_id'' = Some u)
        \<and> (\<forall>k. k \<notin> {results_key j, owner_key j} \<longrightarrow> \<not> prefix ''token:'' k \<longrightarrow> map_of (rs_db (\<alpha> s')) k = map_of (rs_db (\<alpha> s)) k))"
proof -
  obtain q s1 where job: "export_job W j flds s = (q, s1)" by (cases "export_job W j flds s")
  note keeps = export_job_keeps [OF job]
  have none1: "rs_find (\<alpha> s1) (results_key j) = None"
    by (rule rs_find_none_later [OF keeps(2) keeps(1) none]) (simp add: job_keys)
  have fin: ?thesis if pub: "publish W j rec s1 = (r', s2)" and final: "r = r'" "s' = s2"
    and rec: "dict_get rec ''status'' \<in> {Some ''completed'', Some ''failed''}" "dict_get rec ''user_id'' = Some u" for rec r' s2
    using publish_run [OF pub none1] keeps final rec by (auto simp: writes_only_def)
  show ?thesis
  proof (cases q)
    case (Inr rec)
    with job u have rec: "dict_get rec ''status'' = Some ''completed''" "dict_get rec ''user_id'' = Some u"
      unfolding export_job_def by (auto elim!: bindM_InrE simp: dict_item_def Let_def)
    obtain r2 s2 where pub: "publish W j rec s1 = (r2, s2)" by (cases "publish W j rec s1")
    from run job Inr pub publish_run(1) [OF pub none1] have "r = r2" "s' = s2" by (simp_all add: tryM_def bindM_def)
    then show ?thesis using fin [OF pub] rec by simp
  next
    case (Inl e)
    show ?thesis
    proof (cases "is_exception e")
      case False
      with run job Inl show ?thesis by (auto simp: tryM_def bindM_def is_exception_def)
    next
      case True
      let ?rec = "[(''status'', ''failed''), (''error'', jw_str W e), (''user_id'', u), (''ts'', dec_str (n_time (jw_net W) s1))]"
      obtain r2 s2 where pub: "publish W j ?rec s1 = (r2, s2)" by (cases "publish W j ?rec s1")
      from run job Inl True pub u have "r = r2" "s' = s2"
        by (simp_all add: tryM_def bindM_def failed_record_def dict_item_def)
      then show ?thesis using fin [OF pub] by simp
    qed
  qed
qed

end

text \<open>A job of \<open>u\<close> has been answered: its one record is stored, with an expiry.\<close>

definition answered :: "rstate \<Rightarrow> string \<Rightarrow> string \<Rightarrow> bool" where
  "answered st j u \<longleftrightarrow> (\<exists>rec v t. map_of (rs_db st) (results_key j) = Some v \<and> one_record rec v t
     \<and> dict_get rec ''status'' \<in> {Some ''completed'', Some ''failed''} \<and> dict_get rec ''user_id'' = Some u)"

definition job_of :: "entry \<Rightarrow> string \<Rightarrow> string \<Rightarrow> bool" where
  "job_of e j u \<longleftrightarrow> dict_get (snd e) ''job_id'' = Some j \<and> dict_get (snd e) ''user_id'' = Some u"

definition closing :: "stream_id \<Rightarrow> queue \<Rightarrow> queue" where
  "closing i q = q\<lparr>q_running := {e \<in> q_running q. fst e \<noteq> i}, q_closed := q_closed q \<union> {e \<in> q_running q. fst e = i}\<rparr>"

context job_world
begin

lemma xack_run:
  assumes "r_xack R JOBS_STREAM GROUP i s = (r, s')"
  shows "\<exists>n. r = Inr n" and "writes_only {JOBS_STREAM} (\<alpha> s) (\<alpha> s')" and "holds_queue (\<alpha> s) q \<Longrightarrow> holds_queue (\<alpha> s') (closing i q)"
proof -
  note x = exactD [OF exact_xack assms]
  show "\<exists>n. r = Inr n" using x by (auto simp: rs_xack_def Let_def split: option.splits)
  show "writes_only {JOBS_STREAM} (\<alpha> s) (\<alpha> s')" using writes_only_xack [of JOBS_STREAM "{JOBS_STREAM}" "\<alpha> s" GROUP i] x by simp
  show "holds_queue (\<alpha> s) q \<Longrightarrow> holds_queue (\<alpha> s') (closing i q)" using queue_xack [OF _ x] by (simp add: closing_def)
qed

lemma process_run:
  assumes run: "process W i flds s = (r, s')" and job: "job_of (i, flds) j u"
    and none: "rs_find (\<alpha> s) (results_key j) = None" and q: "holds_queue (\<alpha> s) q"
  shows "rs_now (\<alpha> s) \<le> rs_now (\<alpha> s')" and "holds_queue (\<alpha> s') (closing i q)"
    and "k \<notin> {results_key j, owner_key j, JOBS_STREAM} \<Longrightarrow> \<not> prefix ''token:'' k \<Longrightarrow> map_of (rs_db (\<alpha> s')) k = map_of (rs_db (\<alpha> s)) k"
    and "(r = Inl CancelledError \<and> rs_find (\<alpha> s') (results_key j) = None)
      \<or> (r = Inr () \<and> (\<exists>rec v. rs_find (\<alpha> s') (results_key j) = Some v \<and> one_record rec v (rs_now (\<alpha> s') + 3600000)
             \<and> dict_get rec ''status'' \<in> {Some ''completed'', Some ''failed''} \<and> dict_get rec ''user_id'' = Some u))"
proof -
  let ?block = "tryM (bindM (export_job W j flds) (publish W j)) (\<lambda>e. if is_exception e then bindM (failed_record W flds e) (publish W j) else raise e)"
  obtain r1 s1 where body: "?block s = (r1, s1)" by (cases "?block s")
  obtain r2 where ack: "r_xack R JOBS_STREAM GROUP i s1 = (r2, s')" and r: "r = r1"
  proof -
    obtain r2 s2 where a: "r_xack R JOBS_STREAM GROUP i s1 = (r2, s2)" by (cases "r_xack R JOBS_STREAM GROUP i s1")
    with xack_run(1) [OF a] run job body that show thesis
      by (auto simp: process_def job_of_def dict_item_def finallyM_def bindM_def worker_redis simp del: not_None_eq)
  qed
  have u: "dict_get flds ''user_id'' = Some u" using job by (simp add: job_of_def)
  note two = try_block [OF body u none] and late = xack_run(2) [OF ack]
  have mid: "rs_now (\<alpha> s) \<le> rs_now (\<alpha> s1)"
    "\<And>k. k \<notin> {results_key j, owner_key j} \<Longrightarrow> \<not> prefix ''token:'' k \<Longrightarrow> map_of (rs_db (\<alpha> s1)) k = map_of (rs_db (\<alpha> s)) k"
    using two export_job_keeps by blast+
  show "rs_now (\<alpha> s) \<le> rs_now (\<alpha> s')" using mid(1) late by (simp add: writes_only_def)
  show "k \<notin> {results_key j, owner_key j, JOBS_STREAM} \<Longrightarrow> \<not> prefix ''token:'' k \<Longrightarrow> map_of (rs_db (\<alpha> s')) k = map_of (rs_db (\<alpha> s)) k"
    using mid(2) late by (simp add: writes_only_def)
  have "map_of (rs_db (\<alpha> s1)) JOBS_STREAM = map_of (rs_db (\<alpha> s)) JOBS_STREAM"
    by (rule mid(2)) (use job_keys(2,3) [of j] job_keys(6) in auto)
  then have "holds_queue (\<alpha> s1) q" by (rule queue_elsewhere [OF q])
  then show "holds_queue (\<alpha> s') (closing i q)" by (rule xack_run(3) [OF ack])
  have same: "rs_find (\<alpha> s') (results_key j) = rs_find (\<alpha> s1) (results_key j)" "rs_now (\<alpha> s') = rs_now (\<alpha> s1)"
    using late job_keys rs_find_same [of "\<alpha> s'" "results_key j" "\<alpha> s1"] by (simp_all add: writes_only_def)
  have "rs_find (\<alpha> s1) (results_key j) = None" if "export_job W j flds s = (Inl CancelledError, s1)"
    by (rule rs_find_none_later [OF export_job_keeps(2) [OF that] export_job_keeps(1) [OF that] none]) (simp add: job_keys)
  then show "(r = Inl CancelledError \<and> rs_find (\<alpha> s') (results_key j) = None)
      \<or> (r = Inr () \<and> (\<exists>rec v. rs_find (\<alpha> s') (results_key j) = Some v \<and> one_record rec v (rs_now (\<alpha> s') + 3600000)
             \<and> dict_get rec ''status'' \<in> {Some ''completed'', Some ''failed''} \<and> dict_get rec ''user_id'' = Some u))"
    using two unfolding r same by metis
qed

text \<open>A round of a worker that has nothing running takes the first waiting job and answers it.\<close>

lemma reclaim_nothing:
  assumes q: "holds_queue (\<alpha> s) q" "q_running q = {}" and run: "reclaim_entries W s = (r, s')"
  shows "r = Inr []" and "holds_queue (\<alpha> s') q" and "writes_only {JOBS_STREAM} (\<alpha> s) (\<alpha> s')"
proof -
  obtain r1 s1 where claim: "r_xautoclaim R JOBS_STREAM GROUP (jw_consumer W) RECLAIM_IDLE_MS 10 s = (r1, s1)"
    by (cases "r_xautoclaim R JOBS_STREAM GROUP (jw_consumer W) RECLAIM_IDLE_MS 10 s")
  note x = exactD [OF exact_xautoclaim claim]
  from queue_xautoclaim [OF q(1) x] q(2) have 1: "r1 = Inr []" "holds_queue (\<alpha> s1) q" by auto
  then have 2: "r = r1" "s' = s1" using run claim by (simp_all add: reclaim_entries_def tryM_def worker_redis)
  with 1 show "r = Inr []" "holds_queue (\<alpha> s') q" by simp_all
  show "writes_only {JOBS_STREAM} (\<alpha> s) (\<alpha> s')"
    using writes_only_xautoclaim [of JOBS_STREAM "{JOBS_STREAM}" "\<alpha> s" GROUP "jw_consumer W" RECLAIM_IDLE_MS 10] x 2 by simp
qed

lemma round_takes_first:
  assumes q: "holds_queue (\<alpha> s) q" "q_running q = {}" "q_waiting q = e # rest" and job: "job_of e j u"
    and none: "rs_find (\<alpha> s) (results_key j) = None" and run: "worker_round W s = (r, s')" and alive: "r \<noteq> Inl CancelledError"
  shows "r = Inr ()" and "rs_now (\<alpha> s) \<le> rs_now (\<alpha> s')" and "answered (\<alpha> s') j u"
    and "holds_queue (\<alpha> s') (q\<lparr>q_waiting := rest, q_closed := insert e (q_closed q)\<rparr>)"
    and "k \<notin> {results_key j, owner_key j, JOBS_STREAM} \<Longrightarrow> \<not> prefix ''token:'' k \<Longrightarrow> map_of (rs_db (\<alpha> s')) k = map_of (rs_db (\<alpha> s)) k"
proof -
  obtain i flds where e: "e = (i, flds)" by (cases e)
  obtain r1 s1 where claim: "reclaim_entries W s = (r1, s1)" by (cases "reclaim_entries W s")
  note c = reclaim_nothing [OF q(1,2) claim]
  obtain r2 s2 where read: "r_xreadgroup R JOBS_STREAM GROUP (jw_consumer W) 1 5000 s1 = (r2, s2)"
    by (cases "r_xreadgroup R JOBS_STREAM GROUP (jw_consumer W) 1 5000 s1")
  note x = exactD [OF exact_xreadgroup read]
  from queue_xreadgroup [OF c(2) x] q(3) have r2: "r2 = Inr [e]"
    and q2: "holds_queue (\<alpha> s2) (q\<lparr>q_waiting := rest, q_running := insert e (q_running q)\<rparr>)" by simp_all
  have w2: "writes_only {JOBS_STREAM} (\<alpha> s1) (\<alpha> s2)"
    using writes_only_xreadgroup [of JOBS_STREAM "{JOBS_STREAM}" "\<alpha> s1" GROUP "jw_consumer W" 1 5000] x by simp
  have w: "writes_only {JOBS_STREAM} (\<alpha> s) (\<alpha> s2)" by (rule writes_only_trans [OF c(3) w2])
  have none2: "rs_find (\<alpha> s2) (results_key j) = None"
    using rs_find_same [of "\<alpha> s2" "results_key j" "\<alpha> s"] w none job_keys by (simp add: writes_only_def)
  obtain r3 s3 where proc: "process W i flds s2 = (r3, s3)" by (cases "process W i flds s2")
  note p = process_run [OF proc job [unfolded e] none2 q2]
  from run claim c(1) read r2 proc e have fin: "(r, s') = (case r3 of Inl e \<Rightarrow> (if is_exception e then os_sleep (jw_os W) (dec_of_int 1) s3 else (Inl e, s3)) | Inr _ \<Rightarrow> (Inr (), s3))"
    by (auto simp: worker_round_def process_all_def tryM_def bindM_def worker_redis split: sum.splits)
  have r3: "r3 = Inr ()" using p(4) fin alive by (auto simp: is_exception_def)
  with fin have "r = Inr ()" and s': "s' = s3" by simp_all
  then show "r = Inr ()" by simp
  show "rs_now (\<alpha> s) \<le> rs_now (\<alpha> s')" using p(1) w s' by (simp add: writes_only_def)
  show "answered (\<alpha> s') j u" using p(4) r3 s' rs_find_Some_map unfolding answered_def by blast
  show "k \<notin> {results_key j, owner_key j, JOBS_STREAM} \<Longrightarrow> \<not> prefix ''token:'' k \<Longrightarrow> map_of (rs_db (\<alpha> s')) k = map_of (rs_db (\<alpha> s)) k"
    using p(3) w s' by (simp add: writes_only_def)
  have "closing i (q\<lparr>q_waiting := rest, q_running := insert e (q_running q)\<rparr>) = q\<lparr>q_waiting := rest, q_closed := insert e (q_closed q)\<rparr>"
    using q(2) e by (cases q) (auto simp: closing_def)
  with p(2) s' show "holds_queue (\<alpha> s') (q\<lparr>q_waiting := rest, q_closed := insert e (q_closed q)\<rparr>)" by simp
qed

end

text \<open>The jobs of a list: each has an id of its own, a user, and no result yet.\<close>

definition fresh_jobs :: "rstate \<Rightarrow> entry list \<Rightarrow> bool" where
  "fresh_jobs st es \<longleftrightarrow> distinct (map (\<lambda>e. dict_get (snd e) ''job_id'') es)
     \<and> (\<forall>e \<in> set es. \<exists>j u. job_of e j u \<and> rs_find st (results_key j) = None)"

lemma fresh_jobs_later:
  assumes "fresh_jobs st (e # es)" "job_of e j u" "rs_now st \<le> rs_now st'"
    and "\<And>k. k \<notin> {results_key j, owner_key j, JOBS_STREAM} \<Longrightarrow> \<not> prefix ''token:'' k \<Longrightarrow> map_of (rs_db st') k = map_of (rs_db st) k"
  shows "fresh_jobs st' es"
  unfolding fresh_jobs_def
proof (intro conjI ballI)
  show "distinct (map (\<lambda>e. dict_get (snd e) ''job_id'') es)" using assms(1) by (simp add: fresh_jobs_def)
  fix d assume d: "d \<in> set es"
  with assms(1) obtain j' u' where j': "job_of d j' u'" "rs_find st (results_key j') = None" by (auto simp: fresh_jobs_def)
  have "dict_get (snd d) ''job_id'' \<noteq> dict_get (snd e) ''job_id''" using assms(1) d by (simp add: fresh_jobs_def image_iff) metis
  with j'(1) assms(2) have "j' \<noteq> j" by (auto simp: job_of_def)
  then have "map_of (rs_db st') (results_key j') = map_of (rs_db st) (results_key j')"
    by (intro assms(4)) (simp_all add: job_keys)
  then have "rs_find st' (results_key j') = None" using rs_find_none_later assms(3) j'(2) by blast
  with j'(1) show "\<exists>j u. job_of d j u \<and> rs_find st' (results_key j) = None" by blast
qed

context job_world
begin

lemma rounds_drain:
  assumes "holds_queue (\<alpha> s) q" "q_running q = {}" "q_waiting q = es" "fresh_jobs (\<alpha> s) es"
    and "rounds W (length es) s = (r, s')" "r \<noteq> Inl CancelledError"
  shows "r = Inr () \<and> holds_queue (\<alpha> s') (q\<lparr>q_waiting := [], q_closed := q_closed q \<union> set es\<rparr>)
    \<and> (\<forall>e \<in> set es. \<forall>j u. job_of e j u \<longrightarrow> answered (\<alpha> s') j u)
    \<and> (\<forall>k. k \<noteq> JOBS_STREAM \<longrightarrow> \<not> prefix ''token:'' k \<longrightarrow> (\<forall>e \<in> set es. \<forall>j. dict_get (snd e) ''job_id'' = Some j \<longrightarrow> k \<noteq> results_key j \<and> k \<noteq> owner_key j)
        \<longrightarrow> map_of (rs_db (\<alpha> s')) k = map_of (rs_db (\<alpha> s)) k)"
  using assms
proof (induction es arbitrary: s q)
  case Nil
  then show ?case by (cases q) simp
next
  case (Cons e es)
  obtain j u where job: "job_of e j u" "rs_find (\<alpha> s) (results_key j) = None" using Cons.prems(4) by (auto simp: fresh_jobs_def)
  obtain r1 s1 where round: "worker_round W s = (r1, s1)" by (cases "worker_round W s")
  have r1: "r1 \<noteq> Inl CancelledError" using Cons.prems(5,6) round by (auto simp: bindM_def)
  note t = round_takes_first [OF Cons.prems(1-3) job round r1]
  let ?q = "q\<lparr>q_waiting := es, q_closed := insert e (q_closed q)\<rparr>"
  have rest: "rounds W (length es) s1 = (r, s')" using Cons.prems(5) round t(1) by (simp add: bindM_def)
  have IH: "r = Inr () \<and> holds_queue (\<alpha> s') (?q\<lparr>q_waiting := [], q_closed := q_closed ?q \<union> set es\<rparr>)
    \<and> (\<forall>e \<in> set es. \<forall>j u. job_of e j u \<longrightarrow> answered (\<alpha> s') j u)
    \<and> (\<forall>k. k \<noteq> JOBS_STREAM \<longrightarrow> \<not> prefix ''token:'' k \<longrightarrow> (\<forall>e \<in> set es. \<forall>j. dict_get (snd e) ''job_id'' = Some j \<longrightarrow> k \<noteq> results_key j \<and> k \<noteq> owner_key j)
        \<longrightarrow> map_of (rs_db (\<alpha> s')) k = map_of (rs_db (\<alpha> s1)) k)"
    by (rule Cons.IH [OF t(4)]) (use Cons.prems(2,6) rest fresh_jobs_later [OF Cons.prems(4) job(1) t(2,5)] in simp_all)
  have "dict_get (snd d) ''job_id'' \<noteq> Some j" if "d \<in> set es" for d
    using Cons.prems(4) job(1) that by (auto simp: fresh_jobs_def job_of_def image_iff)
  then have "map_of (rs_db (\<alpha> s')) (results_key j) = map_of (rs_db (\<alpha> s1)) (results_key j)"
    using IH job_keys by metis
  then have "answered (\<alpha> s') j u" using t(3) by (simp add: answered_def)
  moreover have "j' = j \<and> u' = u" if "job_of e j' u'" for j' u' using that job(1) by (simp add: job_of_def)
  ultimately have "\<forall>d \<in> set (e # es). \<forall>j u. job_of d j u \<longrightarrow> answered (\<alpha> s') j u" using IH by auto
  moreover have "holds_queue (\<alpha> s') (q\<lparr>q_waiting := [], q_closed := q_closed q \<union> set (e # es)\<rparr>)" using IH by simp
  moreover have "map_of (rs_db (\<alpha> s')) k = map_of (rs_db (\<alpha> s)) k" if "k \<noteq> JOBS_STREAM" "\<not> prefix ''token:'' k"
    "\<forall>d \<in> set (e # es). \<forall>j. dict_get (snd d) ''job_id'' = Some j \<longrightarrow> k \<noteq> results_key j \<and> k \<noteq> owner_key j" for k
    using that IH t(5) [of k] job(1) by (simp add: job_of_def)
  ultimately show ?case using IH by blast
qed

end

section \<open>The code only takes steps of the queue\<close>

interpretation job_steps: frame_rel "\<lambda>s s'. jobs_step\<^sup>*\<^sup>* (\<alpha> s) (\<alpha> s')" for \<alpha>
  by unfold_locales auto

lemma writes_elsewhere: "writes_only K st st' \<Longrightarrow> JOBS_STREAM \<notin> K \<Longrightarrow> jobs_step\<^sup>*\<^sup>* st st'"
  by (auto simp: writes_only_def intro: jobs_step.elsewhere)

lemma tokens_elsewhere: "only_tokens st st' \<Longrightarrow> jobs_step\<^sup>*\<^sup>* st st'"
  using job_keys(6) by (auto simp: only_tokens_def intro!: r_into_rtranclp jobs_step.elsewhere)

lemma rs_set_elsewhere: "k \<noteq> JOBS_STREAM \<Longrightarrow> jobs_step\<^sup>*\<^sup>* st (snd (rs_set k v ex nx st))"
  by (rule writes_elsewhere [of "{k}"]) (auto simp: rs_set_def split: option.split)

context job_world
begin

lemma publish_steps: "guarantees (\<lambda>s s'. jobs_step\<^sup>*\<^sup>* (\<alpha> s) (\<alpha> s')) (publish W j rec)"
proof -
  have "guarantees (\<lambda>s s'. jobs_step\<^sup>*\<^sup>* (\<alpha> s) (\<alpha> s')) (r_xadd R (results_key j) rec)"
    by (rule exact_guarantees [OF exact_xadd]) (rule writes_elsewhere [OF writes_only_xadd [of _ "{results_key j}"]], simp_all add: job_keys(2) [symmetric])
  moreover have "guarantees (\<lambda>s s'. jobs_step\<^sup>*\<^sup>* (\<alpha> s) (\<alpha> s')) (r_expire R k RESULT_TTL_SECONDS)" if "k \<noteq> JOBS_STREAM" for k
    by (rule exact_guarantees [OF exact_expire])
      (rule writes_elsewhere [OF writes_only_expire [of _ "{k}"]], use that in \<open>simp_all add: RESULT_TTL_SECONDS_def\<close>)
  ultimately show ?thesis
    unfolding publish_def worker_redis by (intro job_steps.frame_rules) (simp_all add: job_keys)
qed

lemma stream_steps:
  "guarantees (\<lambda>s s'. jobs_step\<^sup>*\<^sup>* (\<alpha> s) (\<alpha> s')) (r_xack R JOBS_STREAM GROUP i)"
  "guarantees (\<lambda>s s'. jobs_step\<^sup>*\<^sup>* (\<alpha> s) (\<alpha> s')) (r_xreadgroup R JOBS_STREAM GROUP c 1 b)"
  "guarantees (\<lambda>s s'. jobs_step\<^sup>*\<^sup>* (\<alpha> s) (\<alpha> s')) (r_xautoclaim R JOBS_STREAM GROUP c t n)"
  "guarantees (\<lambda>s s'. jobs_step\<^sup>*\<^sup>* (\<alpha> s) (\<alpha> s')) (r_xgroup_create R JOBS_STREAM GROUP)"
  "guarantees (\<lambda>s s'. jobs_step\<^sup>*\<^sup>* (\<alpha> s) (\<alpha> s')) (r_xadd R JOBS_STREAM flds)"
  by (rule exact_guarantees [OF exact_xack] exact_guarantees [OF exact_xreadgroup] exact_guarantees [OF exact_xautoclaim]
      exact_guarantees [OF exact_xgroup_create] exact_guarantees [OF exact_xadd]; metis jobs_step.intros prod.collapse r_into_rtranclp)+

lemma process_steps: "guarantees (\<lambda>s s'. jobs_step\<^sup>*\<^sup>* (\<alpha> s) (\<alpha> s')) (process W i flds)"
proof -
  have "guarantees (\<lambda>s s'. jobs_step\<^sup>*\<^sup>* (\<alpha> s) (\<alpha> s')) (export_job W j flds)" for j
    by (rule guarantees_mono [OF export_job_tokens]) (rule tokens_elsewhere)
  then show ?thesis
    unfolding process_def failed_record_def worker_redis
    by (auto intro!: job_steps.frame_rules publish_steps stream_steps)
qed

lemma os_steps:
  "guarantees (\<lambda>s s'. jobs_step\<^sup>*\<^sup>* (\<alpha> s) (\<alpha> s')) (os_sleep (jw_os W) t)"
  "guarantees (\<lambda>s s'. jobs_step\<^sup>*\<^sup>* (\<alpha> s) (\<alpha> s')) (os_makedirs (jw_os W) p m)"
  "guarantees (\<lambda>s s'. jobs_step\<^sup>*\<^sup>* (\<alpha> s) (\<alpha> s')) (os_chmod (jw_os W) p m)"
proof -
  have "guarantees (\<lambda>s s'. jobs_step\<^sup>*\<^sup>* (\<alpha> s) (\<alpha> s')) m" if "passes \<alpha> m" for m :: "('s, unit) prog"
    by (rule guarantees_mono [OF passes_only_tokens [OF that]]) (rule tokens_elsewhere)
  then show "guarantees (\<lambda>s s'. jobs_step\<^sup>*\<^sup>* (\<alpha> s) (\<alpha> s')) (os_sleep (jw_os W) t)"
    "guarantees (\<lambda>s s'. jobs_step\<^sup>*\<^sup>* (\<alpha> s) (\<alpha> s')) (os_makedirs (jw_os W) p m)"
    "guarantees (\<lambda>s s'. jobs_step\<^sup>*\<^sup>* (\<alpha> s) (\<alpha> s')) (os_chmod (jw_os W) p m)"
    by (simp_all add: passes_all)
qed

lemma round_steps: "guarantees (\<lambda>s s'. jobs_step\<^sup>*\<^sup>* (\<alpha> s) (\<alpha> s')) (worker_round W)"
  unfolding worker_round_def reclaim_entries_def process_all_def worker_redis
  by (auto intro!: job_steps.frame_rules stream_steps(1,3-5) stream_steps(2) [unfolded One_nat_def] process_steps os_steps split: prod.split)

lemma run_worker_steps: "guarantees (\<lambda>s s'. jobs_step\<^sup>*\<^sup>* (\<alpha> s) (\<alpha> s')) (run_worker W n)"
proof -
  have "guarantees (\<lambda>s s'. jobs_step\<^sup>*\<^sup>* (\<alpha> s) (\<alpha> s')) (rounds W n)"
  proof (induction n)
    case (Suc n)
    then show ?case by (auto intro: job_steps.frame_bindM round_steps)
  qed (simp add: guarantees_def)
  moreover have "guarantees (\<lambda>s s'. jobs_step\<^sup>*\<^sup>* (\<alpha> s) (\<alpha> s')) (ensure_group R)"
    unfolding ensure_group_def by (rule job_steps.frame_tryM [OF stream_steps(4)]) (auto intro: job_steps.frame_rules split: exn.split)
  ultimately show ?thesis
    unfolding run_worker_def worker_redis by (intro job_steps.frame_rules os_steps)
qed

lemma enqueue_steps:
  assumes "passes \<alpha> uuid"
  shows "guarantees (\<lambda>s s'. jobs_step\<^sup>*\<^sup>* (\<alpha> s) (\<alpha> s')) (enqueue_export_job R N uuid u f fmt)"
proof -
  have "guarantees (\<lambda>s s'. jobs_step\<^sup>*\<^sup>* (\<alpha> s) (\<alpha> s')) uuid"
    by (rule guarantees_mono [OF passes_only_tokens [OF assms]]) (rule tokens_elsewhere)
  moreover have "guarantees (\<lambda>s s'. jobs_step\<^sup>*\<^sup>* (\<alpha> s) (\<alpha> s')) (r_set R (owner_key j) v ex nx)" for j v ex nx
    by (rule exact_guarantees [OF exact_set]) (rule rs_set_elsewhere, simp add: job_keys)
  ultimately show ?thesis
    unfolding enqueue_export_job_def by (intro job_steps.frame_rules stream_steps)
qed

end

section \<open>Users without a token\<close>

context job_world
begin

lemma quiet_publish: "quiet sent (publish W j rec)"
  unfolding publish_def worker_redis by (intro quiet_bindM quiet_lift quiet_redis)

lemma export_without_token:
  assumes fmt: "dict_get flds ''format'' = Some f" "dict_get EXPORT_FORMATS f \<noteq> None" and u: "dict_get flds ''user_id'' = Some u"
    and none: "rs_find (\<alpha> s) (''token:'' @ u) = None"
  shows "\<exists>s1. export_job W j flds s = (Inl (OAuthTokenNotFoundError ''User has not authorized Google''), s1) \<and> \<alpha> s1 = \<alpha> s \<and> sent s1 = sent s"
proof -
  obtain r s1 where get: "r_get R (''token:'' @ u) s = (r, s1)" by (cases "r_get R (''token:'' @ u) s")
  from exactD [OF exact_get get] none have r: "r = Inr None" "\<alpha> s1 = \<alpha> s" by (auto simp: rs_get_def)
  have "sent s1 = sent s" using quiet_get [of "''token:'' @ u"] unfolding quiet_def by (rule guaranteesD) (rule get)
  moreover have "export_job W j flds s = (Inl (OAuthTokenNotFoundError ''User has not authorized Google''), s1)"
    using get r(1) fmt u
    by (auto simp: export_job_def worker_net worker_store google_token_store_def RedisStore_def RedisStore_get_def
        get_valid_google_token_def bindM_def dict_item_def)
  ultimately show ?thesis using r(2) by blast
qed

lemma process_without_token:
  assumes job: "job_of (i, flds) j u" and fmt: "dict_get flds ''format'' = Some f" "dict_get EXPORT_FORMATS f \<noteq> None"
    and none: "rs_find (\<alpha> s) (''token:'' @ u) = None" and run: "process W i flds s = (r, s')"
    and res: "rs_find (\<alpha> s) (results_key j) = None"
  shows "r = Inr ()" and "sent s' = sent s"
    and "\<exists>v t. rs_find (\<alpha> s') (results_key j) = Some v \<and> one_record [(''status'', ''failed''),
      (''error'', jw_str W (OAuthTokenNotFoundError ''User has not authorized Google'')), (''user_id'', u), (''ts'', dec_str t)] v (rs_now (\<alpha> s') + 3600000)"
proof -
  let ?e = "OAuthTokenNotFoundError ''User has not authorized Google''"
  have u: "dict_get flds ''user_id'' = Some u" and j: "dict_get flds ''job_id'' = Some j" using job by (simp_all add: job_of_def)
  from export_without_token [OF fmt u none] obtain s1 where exp: "export_job W j flds s = (Inl ?e, s1)" "\<alpha> s1 = \<alpha> s" "sent s1 = sent s" by blast
  let ?rec = "[(''status'', ''failed''), (''error'', jw_str W ?e), (''user_id'', u), (''ts'', dec_str (n_time N s1))]"
  obtain r2 s2 where pub: "publish W j ?rec s1 = (r2, s2)" by (cases "publish W j ?rec s1")
  note p = publish_run [OF pub] exp(2) res
  obtain r3 s3 where ack: "r_xack R JOBS_STREAM GROUP i s2 = (r3, s3)" by (cases "r_xack R JOBS_STREAM GROUP i s2")
  note a = xack_run(1,2) [OF ack]
  have "r2 = Inr ()" using p by simp
  with run exp pub ack a(1) u j have fin: "r = Inr ()" "s' = s3"
    by (auto simp: process_def bindM_def finallyM_def tryM_def failed_record_def dict_item_def is_exception_def worker_redis worker_net)
  show "r = Inr ()" by (rule fin(1))
  have "sent s2 = sent s1" using quiet_publish [of j ?rec] unfolding quiet_def by (rule guaranteesD) (rule pub)
  moreover have "sent s3 = sent s2" using quiet_xack [of JOBS_STREAM GROUP i] unfolding quiet_def by (rule guaranteesD) (rule ack)
  ultimately show "sent s' = sent s" using exp(3) fin by simp
  have "rs_find (\<alpha> s3) (results_key j) = rs_find (\<alpha> s2) (results_key j)" "rs_now (\<alpha> s3) = rs_now (\<alpha> s2)"
    using a(2) rs_find_same [of "\<alpha> s3" "results_key j" "\<alpha> s2"] job_keys(2) by (simp_all add: writes_only_def)
  with p fin(2) show "\<exists>v t. rs_find (\<alpha> s') (results_key j) = Some v \<and> one_record [(''status'', ''failed''),
      (''error'', jw_str W ?e), (''user_id'', u), (''ts'', dec_str t)] v (rs_now (\<alpha> s') + 3600000)"
    by auto
qed

end

section \<open>A worker for the witnesses\<close>

definition world_os :: "world os" where
  "world_os = \<lparr>os_makedirs = (\<lambda>p m w. (Inr (), w)), os_chmod = (\<lambda>p m w. (Inr (), w)),
     os_write_bytes = (\<lambda>p c w. (Inr (), w\<lparr>w_files := w_files w @ [(p, c)]\<rparr>)),
     os_sleep = (\<lambda>t w. (Inr (), w\<lparr>w_now := dec_add (w_now w) t\<rparr>))\<rparr>"

definition sample_worker :: "world job_worker" where
  "sample_worker = \<lparr>jw_redis = world_redis, jw_net = world_net, jw_retries = 3, jw_store = google_token_store world_redis,
     jw_fernet = world_fernet, jw_app = sample_app, jw_os = world_os,
     jw_str = (\<lambda>e. case e of OAuthTokenNotFoundError m \<Rightarrow> m | _ \<Rightarrow> ''error''), jw_export_dir = ''/exports'',
     jw_consumer = consumer_name None ''host'' 7\<rparr>"

lemma exact_on_redis: "exact w_redis (on_redis m) m"
  by (auto simp: exact_def on_redis_def split: prod.splits)

lemma passes_still: "(\<And>s. \<alpha> (snd (m s)) = \<alpha> s) \<Longrightarrow> passes \<alpha> m"
  unfolding passes_def guarantees_def by (auto simp: rs_tick_def intro: exI [of _ 0])

interpretation wjob: job_world world_redis w_redis world_net w_sent sample_worker
proof unfold_locales
  show "passes w_redis (n_send world_net rq)" for rq
    by (rule passes_still) (auto simp: world_send_def split: list.splits)
qed (auto simp: sample_worker_def world_os_def world_redis_def exact_on_redis world_pause_def intro: passes_still)

definition sample_job :: fields where
  "sample_job = job_fields ''j1'' ''alice'' ''F1'' ''pdf'' (Dec 95 1)"

definition queued_world :: "group \<Rightarrow> http_response res list \<Rightarrow> world" where
  "queued_world gr script = (sample_world script)\<lparr>w_now := Dec 95 1, w_redis := \<lparr>rs_now = 10, rs_db = [(JOBS_STREAM,
     (RStream \<lparr>s_entries = [(SID 1 0, sample_job)], s_last = SID 1 0, s_groups = [(GROUP, gr)]\<rparr>, None))]\<rparr>\<rparr>"

abbreviation waiting_group :: group where
  "waiting_group \<equiv> \<lparr>g_delivered = SID 0 0, g_pending = []\<rparr>"

abbreviation running_group :: group where
  "running_group \<equiv> \<lparr>g_delivered = SID 1 0, g_pending = [(SID 1 0, ''worker-host-7'', 10)]\<rparr>"

lemma queued_facts:
  "holds_queue (w_redis (queued_world waiting_group script)) \<lparr>q_waiting = [(SID 1 0, sample_job)], q_running = {}, q_closed = {}\<rparr>"
  "holds_queue (w_redis (queued_world running_group script)) \<lparr>q_waiting = [], q_running = {(SID 1 0, sample_job)}, q_closed = {}\<rparr>"
  "job_of (SID 1 0, sample_job) ''j1'' ''alice''"
  "rs_find (w_redis (queued_world gr script)) (results_key ''j1'') = None"
  "dict_get sample_job ''format'' = Some ''pdf''" "dict_get EXPORT_FORMATS ''pdf'' \<noteq> None"
proof -
  show "holds_queue (w_redis (queued_world waiting_group script)) \<lparr>q_waiting = [(SID 1 0, sample_job)], q_running = {}, q_closed = {}\<rparr>"
    unfolding holds_queue_def
    by (auto simp: queued_world_def rs_find_def alive_def stream_ok_def ids_def pending_ids_def queue_of_def undelivered_def less_stream_id_def less_eq_stream_id_def)
  show "holds_queue (w_redis (queued_world running_group script)) \<lparr>q_waiting = [], q_running = {(SID 1 0, sample_job)}, q_closed = {}\<rparr>"
    unfolding holds_queue_def
    by (auto simp: queued_world_def rs_find_def alive_def stream_ok_def ids_def pending_ids_def queue_of_def undelivered_def less_stream_id_def less_eq_stream_id_def)
qed (simp_all add: job_of_def sample_job_def job_fields_def queued_world_def rs_find_def results_key_def JOBS_STREAM_def EXPORT_FORMATS_def)

lemma sample_without_token: "rs_find (w_redis (queued_world gr script)) (''token:'' @ u) = None"
  by (simp add: queued_world_def rs_find_def JOBS_STREAM_def)

section \<open>Properties\<close>



text \<open>
  C5: every job is answered, once. If Redis answers and the worker is not cancelled, processing a running job
  returns normally and closes it, and exactly one record is published for it, marked completed or
  failed, with the job's user, readable for an hour: no failure of Google, of the network, of the
  stored token or of the disk leaves a job without an answer.
\<close>

theorem job_answered_once:
  assumes "job_world R \<alpha> N sent W" "holds_queue (\<alpha> s) q" "(i, flds) \<in> q_running q" "job_of (i, flds) j u"
    and "rs_find (\<alpha> s) (''results:'' @ j) = None"
    and "process W i flds s = (r, s')" "r \<noteq> Inl CancelledError"
  shows "r = Inr () \<and> (\<exists>rec v. rs_find (\<alpha> s') (''results:'' @ j) = Some v \<and> one_record rec v (rs_now (\<alpha> s') + 3600000)
       \<and> dict_get rec ''status'' \<in> {Some ''completed'', Some ''failed''} \<and> dict_get rec ''user_id'' = Some u)
    \<and> (\<exists>q'. holds_queue (\<alpha> s') q' \<and> (i, flds) \<in> q_closed q' \<and> (i, flds) \<notin> q_running q' \<and> q_waiting q' = q_waiting q)"
proof -
  note p = job_world.process_run [OF assms(1,6,4) _ assms(2)]
  have "rs_find (\<alpha> s) (results_key j) = None" using assms(5) by (simp add: results_key_def)
  moreover have "(i, flds) \<in> q_closed (closing i q)" "(i, flds) \<notin> q_running (closing i q)" "q_waiting (closing i q) = q_waiting q"
    using assms(3) by (simp_all add: closing_def)
  ultimately show ?thesis using p(2,4) assms(7) unfolding results_key_def by blast
qed

lemma sample_process:
  "\<exists>s'. process sample_worker (SID 1 0) sample_job (queued_world running_group []) = (Inr (), s')"
proof -
  obtain r s' where run: "process sample_worker (SID 1 0) sample_job (queued_world running_group []) = (r, s')" by fastforce
  have "r = Inr ()" by (rule wjob.process_without_token(1) [OF queued_facts(3,5,6) sample_without_token run queued_facts(4)])
  with run show ?thesis by blast
qed

theorem job_answered_once_witness:
  "\<exists>s' rec v. process sample_worker (SID 1 0) sample_job (queued_world running_group []) = (Inr (), s')
    \<and> rs_find (w_redis s') ''results:j1'' = Some v \<and> one_record rec v (rs_now (w_redis s') + 3600000) \<and> dict_get rec ''user_id'' = Some ''alice''"
proof -
  obtain s' where run: "process sample_worker (SID 1 0) sample_job (queued_world running_group []) = (Inr (), s')" using sample_process by blast
  have "rs_find (w_redis (queued_world running_group [])) (''results:'' @ ''j1'') = None"
    using queued_facts(4) [of running_group "[]"] by (simp add: results_key_def)
  from job_answered_once [OF wjob.job_world_axioms queued_facts(2) _ queued_facts(3) this run] run show ?thesis by auto
qed

text \<open>
  C12: the queue is drained. With nothing running, as many rounds as there are waiting jobs answer every one
  of them and leave the queue empty, if Redis answers and the worker is not cancelled.
\<close>

theorem worker_drains_queue:
  assumes "job_world R \<alpha> N sent W" "holds_queue (\<alpha> s) q" "q_running q = {}" "fresh_jobs (\<alpha> s) (q_waiting q)"
    and "rounds W (length (q_waiting q)) s = (r, s')" "r \<noteq> Inl CancelledError"
  shows "r = Inr () \<and> holds_queue (\<alpha> s') \<lparr>q_waiting = [], q_running = {}, q_closed = q_closed q \<union> set (q_waiting q)\<rparr>
    \<and> (\<forall>e j u. e \<in> set (q_waiting q) \<and> job_of e j u \<longrightarrow> answered (\<alpha> s') j u)"
proof -
  note d = job_world.rounds_drain [OF assms(1-3) refl assms(4-6)]
  have "q\<lparr>q_waiting := [], q_closed := q_closed q \<union> set (q_waiting q)\<rparr> = \<lparr>q_waiting = [], q_running = {}, q_closed = q_closed q \<union> set (q_waiting q)\<rparr>"
    using assms(3) by (cases q) simp
  with d show ?thesis by auto
qed

theorem worker_drains_queue_witness:
  "\<exists>s'. rounds sample_worker 1 (queued_world waiting_group []) = (Inr (), s') \<and> answered (w_redis s') ''j1'' ''alice''"
proof -
  let ?w = "queued_world waiting_group []" and ?q = "\<lparr>q_waiting = [(SID 1 0, sample_job)], q_running = {}, q_closed = {}\<rparr>"
  have fresh: "fresh_jobs (w_redis ?w) (q_waiting ?q)" using queued_facts(3,4) by (auto simp: fresh_jobs_def)
  obtain r s' where run: "rounds sample_worker (length (q_waiting ?q)) ?w = (r, s')" by fastforce
  have "fst (rounds sample_worker 1 ?w) = Inr ()" by code_simp
  with run have "r \<noteq> Inl CancelledError" by simp
  from worker_drains_queue [OF wjob.job_world_axioms queued_facts(1) _ fresh run this] run queued_facts(3) show ?thesis by auto
qed

text \<open>
  C35: a cancelled job is lost. When the worker is cancelled while it exports (at shutdown), the
  \<open>finally\<close> clause acknowledges the job although no record was published for it: the job is closed, its
  owner keeps reading \<open>pending\<close>, and whatever happens to the queue afterwards no worker is handed the job
  again, neither as a new entry nor by a reclaim.
\<close>

theorem cancelled_job_is_lost:
  assumes "job_world R \<alpha> N sent W" "holds_queue (\<alpha> s) q" "(i, flds) \<in> q_running q" "job_of (i, flds) j u"
    and "rs_find (\<alpha> s) (''results:'' @ j) = None"
    and "export_job W j flds s = (Inl CancelledError, s1)" "process W i flds s = (r, s')"
    and "jobs_step\<^sup>*\<^sup>* (\<alpha> s') st"
  shows "r = Inl CancelledError \<and> rs_find (\<alpha> s') (''results:'' @ j) = None
    \<and> (\<forall>c b es st'. rs_xreadgroup JOBS_STREAM GROUP c 1 b st = (Inr es, st') \<longrightarrow> (i, flds) \<notin> set es)
    \<and> (\<forall>c t n es st'. rs_xautoclaim JOBS_STREAM GROUP c t n st = (Inr es, st') \<longrightarrow> (i, flds) \<notin> set es)"
proof -
  have none: "rs_find (\<alpha> s) (results_key j) = None" using assms(5) by (simp add: results_key_def)
  note p = job_world.process_run [OF assms(1,7,4) none assms(2)]
  have "r \<noteq> Inr ()"
    using assms(4,6,7) by (auto simp: process_def job_of_def dict_item_def bindM_def finallyM_def tryM_def is_exception_def split: prod.splits sum.splits)
  moreover have "(i, flds) \<in> q_closed (closing i q)" using assms(3) by (simp add: closing_def)
  note closed_never_again [OF p(2) this assms(8)]
  ultimately show ?thesis using p(4) unfolding results_key_def by blast
qed

definition cancelling_worker :: "world job_worker" where
  "cancelling_worker = sample_worker\<lparr>jw_os := world_os\<lparr>os_write_bytes := (\<lambda>p c w. (Inl CancelledError, w))\<rparr>\<rparr>"

interpretation wcancel: job_world world_redis w_redis world_net w_sent cancelling_worker
  by unfold_locales (use wjob.passes_all wjob.worker_redis wjob.worker_net wjob.worker_store in
      \<open>auto simp: cancelling_worker_def sample_worker_def world_os_def world_redis_def exact_on_redis intro: passes_still\<close>)

definition token_queue :: world where
  "token_queue = (let w = queued_world running_group [Inr \<lparr>hs_status = 200, hs_body = ''PDF''\<rparr>] in
     w\<lparr>w_redis := snd (rs_set ''token:alice'' (dumps (JObj [(''expires_at'', JInt 99), (''access_token'', JStr ''t'')])) None False (w_redis w))\<rparr>)"

theorem cancelled_job_is_lost_witness:
  "fst (process cancelling_worker (SID 1 0) sample_job token_queue) = Inl CancelledError
    \<and> rs_find (w_redis (snd (process cancelling_worker (SID 1 0) sample_job token_queue))) ''results:j1'' = None"
proof -
  have q: "holds_queue (w_redis token_queue) \<lparr>q_waiting = [], q_running = {(SID 1 0, sample_job)}, q_closed = {}\<rparr>"
    by (rule queue_elsewhere [OF queued_facts(2)]) (simp add: token_queue_def Let_def rs_set_def rs_put_def JOBS_STREAM_def)
  have none: "rs_find (w_redis token_queue) (''results:'' @ ''j1'') = None" by code_simp
  have "fst (export_job cancelling_worker ''j1'' sample_job token_queue) = Inl CancelledError" by code_simp
  then obtain s1 where exp: "export_job cancelling_worker ''j1'' sample_job token_queue = (Inl CancelledError, s1)" by (metis prod.collapse)
  obtain r s' where run: "process cancelling_worker (SID 1 0) sample_job token_queue = (r, s')" by fastforce
  from cancelled_job_is_lost [OF wcancel.job_world_axioms q _ queued_facts(3) none exp run rtranclp.rtrancl_refl] run show ?thesis by simp
qed

text \<open>
  C36: only the shared identity can export. The gateway stores a Google token under \<open>google:shared\<close> only,
  but the worker looks up the token of the user who created the job: as long as the store holds no other
  token, the job of every other user ends as failed with the missing authorization as its error, and
  no request is sent to Google.
\<close>

theorem ordinary_users_cannot_export:
  assumes "job_world R \<alpha> N sent W" "\<And>k. k \<noteq> ''google:shared'' \<Longrightarrow> rs_find (\<alpha> s) (''token:'' @ k) = None"
    and "job_of (i, flds) j u" "u \<noteq> ''google:shared''" "dict_get flds ''format'' = Some f" "dict_get EXPORT_FORMATS f \<noteq> None"
    and "rs_find (\<alpha> s) (''results:'' @ j) = None" "process W i flds s = (r, s')"
  shows "r = Inr () \<and> sent s' = sent s
    \<and> (\<exists>v t. rs_find (\<alpha> s') (''results:'' @ j) = Some v \<and> one_record [(''status'', ''failed''),
      (''error'', jw_str W (OAuthTokenNotFoundError ''User has not authorized Google'')), (''user_id'', u), (''ts'', dec_str t)] v (rs_now (\<alpha> s') + 3600000))"
proof -
  have none: "rs_find (\<alpha> s) (results_key j) = None" using assms(7) by (simp add: results_key_def)
  from job_world.process_without_token [OF assms(1,3,5,6) assms(2) [OF assms(4)] assms(8) none]
  show ?thesis unfolding results_key_def by blast
qed

theorem ordinary_users_cannot_export_witness:
  "\<exists>s' v t. process sample_worker (SID 1 0) sample_job (queued_world running_group []) = (Inr (), s') \<and> w_sent s' = []
    \<and> rs_find (w_redis s') ''results:j1'' = Some v
    \<and> one_record [(''status'', ''failed''), (''error'', ''User has not authorized Google''), (''user_id'', ''alice''), (''ts'', dec_str t)] v (rs_now (w_redis s') + 3600000)"
proof -
  obtain r s' where run: "process sample_worker (SID 1 0) sample_job (queued_world running_group []) = (r, s')" by fastforce
  have none: "rs_find (w_redis (queued_world running_group [])) (''results:'' @ ''j1'') = None"
    using queued_facts(4) [of running_group "[]"] by (simp add: results_key_def)
  from ordinary_users_cannot_export [OF wjob.job_world_axioms sample_without_token queued_facts(3) _ queued_facts(5,6) none run] run
  show ?thesis by (auto simp: sample_worker_def queued_world_def sample_world_def)
qed

end
