(* ===== verification/Mcp_Server.thy ===== *)
theory Mcp_Server
  imports Job_Worker
begin

text \<open>
  The MCP server of \<open>app/mcp/server.py\<close> with the prompts of \<open>app/integrations/google/prompts.py\<close>: the
  groups of tools and prompts with the scope each requires, what a caller is shown, the registry of
  handlers, and the handlers that \<open>create_session_manager\<close> registers. The context variables that they
  read are the argument \<open>ctx\<close>. The protocol library around them (sessions, transport) is outside.
\<close>

section \<open>Prompts\<close>

record prompt_argument =
  pa_name :: string
  pa_description :: string
  pa_required :: bool

record prompt =
  pr_name :: string
  pr_description :: string
  pr_arguments :: "prompt_argument list"

record prompt_result =
  pres_description :: string
  pres_messages :: "(string \<times> string) list"

type_synonym prompt_handler = "(string, string) dict option \<Rightarrow> prompt_result"

definition DRIVE_PROMPT_REQUIRED_SCOPE :: string where
  "DRIVE_PROMPT_REQUIRED_SCOPE = ''mcp:google:read''"

definition DRIVE_PROMPTS :: "prompt list" where
  "DRIVE_PROMPTS =
     [\<lparr>pr_name = ''drive-find-document'',
       pr_description = ''Guide the model to find a document in Google Drive using structured filters.'',
       pr_arguments =
         [\<lparr>pa_name = ''description'', pa_description = ''What to look for (e.g. 'Q3 proposal for Acme')'', pa_required = True\<rparr>,
          \<lparr>pa_name = ''client_name'', pa_description = ''Optional client/company name to narrow the search'', pa_required = False\<rparr>]\<rparr>]"

definition render_drive_find_document :: prompt_handler where
  "render_drive_find_document arguments =
     (let args = (case arguments of None \<Rightarrow> [] | Some a \<Rightarrow> a);
          description = dict_get_default args ''description'' [];
          client_name = dict_get args ''client_name'';
          hint = (if truthy_opt client_name then '' The document likely mentions '' @ [CHR 0x27] @ the client_name @ [CHR 0x27] @ ''.'' else [])
      in \<lparr>pres_description = ''Drive document search guidance'',
          pres_messages = [(''user'',
            ''Find a document in Google Drive: '' @ description @ ''.'' @ hint @ [CHR 0x0A, CHR 0x0A] @
            ''Use the `drive-search-files` tool with structured filters '' @
            ''(full_text, name_contains, mime_type, in_folder, modified_after). '' @
            ''Do not write raw Drive query syntax.'')]\<rparr>)"

definition DRIVE_PROMPT_REGISTRY :: "(string, prompt_handler) dict" where
  "DRIVE_PROMPT_REGISTRY = [(''drive-find-document'', render_drive_find_document)]"

section \<open>Groups and scopes\<close>

definition GROUPS :: "(mcp_tool list \<times> string option) list" where
  "GROUPS = [(DRIVE_TOOLS, Some DRIVE_REQUIRED_SCOPE), (JOB_TOOLS, Some JOB_REQUIRED_SCOPE), (SLACK_TOOLS, Some SLACK_REQUIRED_SCOPE)]"

definition TOOL_SCOPE :: "(string, string option) dict" where
  "TOOL_SCOPE = dict_of (concat (map (\<lambda>(tools, required). map (\<lambda>tool. (tool_name tool, required)) tools) GROUPS))"

definition PROMPT_GROUPS :: "(prompt list \<times> (string, prompt_handler) dict \<times> string option) list" where
  "PROMPT_GROUPS = [(DRIVE_PROMPTS, DRIVE_PROMPT_REGISTRY, Some DRIVE_PROMPT_REQUIRED_SCOPE)]"

definition PROMPT_SCOPE :: "(string, string option) dict" where
  "PROMPT_SCOPE = dict_of (concat (map (\<lambda>(prompts, _, required). map (\<lambda>p. (pr_name p, required)) prompts) PROMPT_GROUPS))"

definition PROMPT_REGISTRY :: "(string, prompt_handler) dict" where
  "PROMPT_REGISTRY = dict_of (concat (map (\<lambda>(_, registry, _). registry) PROMPT_GROUPS))"

definition scope_ok :: "string option \<Rightarrow> string set \<Rightarrow> bool" where
  "scope_ok required scopes \<longleftrightarrow> (case required of None \<Rightarrow> True | Some s \<Rightarrow> s \<in> scopes)"

definition visible_tools :: "string set \<Rightarrow> mcp_tool list" where
  "visible_tools scopes = foldl (\<lambda>out (tools, required). if scope_ok required scopes then out @ tools else out) [] GROUPS"

definition visible_prompts :: "string set \<Rightarrow> prompt list" where
  "visible_prompts scopes = foldl (\<lambda>out (prompts, _, required). if scope_ok required scopes then out @ prompts else out) [] PROMPT_GROUPS"

section \<open>Handlers\<close>

text \<open>What \<open>create_session_manager\<close> is given, with the libraries its handlers use.\<close>

record 's server_deps =
  sv_redis :: "'s redis"
  sv_jobs_redis :: "'s redis"
  sv_google :: "'s google_deps"
  sv_slack :: "'s slack_deps"
  sv_pydantic :: pydantic
  sv_net :: "'s net"
  sv_encode :: "string \<Rightarrow> ('s, nat) prog"
  sv_uuid :: "('s, string) prog"

definition handle_list_tools :: "ctx \<Rightarrow> mcp_tool list" where
  "handle_list_tools ctx = visible_tools (current_user_scopes ctx)"

definition build_registry :: "'s server_deps \<Rightarrow> (string, 's tool) dict" where
  "build_registry D = dict_of
     (build_drive_registry (sv_pydantic D) (sv_google D) (sv_redis D) (sv_encode D)
    @ build_job_registry (sv_pydantic D) (sv_jobs_redis D) (sv_net D) (sv_uuid D) (sv_encode D)
    @ build_slack_registry (sv_pydantic D) (sv_slack D) (sv_redis D) (sv_encode D))"

text \<open>\<open>d.get(name)\<close> of a dictionary of scopes: a name that is not there counts as ungated.\<close>

definition required_scope :: "(string, string option) dict \<Rightarrow> string \<Rightarrow> string option" where
  "required_scope scopes name = dict_get_default scopes name None"

definition call_tool :: "'s server_deps \<Rightarrow> ctx \<Rightarrow> string \<Rightarrow> arguments \<Rightarrow> ('s, tool_result) prog" where
  "call_tool D ctx name arguments = (case dict_get (build_registry D) name of
     None \<Rightarrow> raise (McpError (- 32601) (''Unknown tool: '' @ name))
   | Some handler \<Rightarrow>
       if \<not> scope_ok (required_scope TOOL_SCOPE name) (current_user_scopes ctx)
       then raise (McpError (- 32601) (''Unknown tool: '' @ name))
       else handler ctx arguments)"

definition list_prompts :: "ctx \<Rightarrow> prompt list" where
  "list_prompts ctx = visible_prompts (current_user_scopes ctx)"

definition get_prompt :: "ctx \<Rightarrow> string \<Rightarrow> (string, string) dict option \<Rightarrow> prompt_result res" where
  "get_prompt ctx name arguments = (case dict_get PROMPT_REGISTRY name of
     None \<Rightarrow> Inl (McpError (- 32601) (''Unknown prompt: '' @ name))
   | Some handler \<Rightarrow>
       if \<not> scope_ok (required_scope PROMPT_SCOPE name) (current_user_scopes ctx)
       then Inl (McpError (- 32601) (''Unknown prompt: '' @ name))
       else Inr (handler arguments))"

section \<open>Names\<close>

lemma tool_names:
  "map tool_name DRIVE_TOOLS = [''drive-search-files'', ''drive-get-file-content'', ''drive-list-recent'']"
  "map tool_name JOB_TOOLS = [''drive-export-large-file'', ''wait-for-job'']"
  "map tool_name SLACK_TOOLS = [''slack-send-message'', ''slack-search-messages'']"
  by (simp_all add: DRIVE_TOOLS_def JOB_TOOLS_def SLACK_TOOLS_def)

lemma registry_names:
  "map fst (build_drive_registry P G R enc) = map tool_name DRIVE_TOOLS"
  "map fst (build_job_registry P R N uuid enc) = map tool_name JOB_TOOLS"
  "map fst (build_slack_registry P S R enc) = map tool_name SLACK_TOOLS"
  by (simp_all add: tool_names build_drive_registry_def build_job_registry_def build_slack_registry_def track_all_def)

definition all_tools :: "mcp_tool list" where
  "all_tools = DRIVE_TOOLS @ JOB_TOOLS @ SLACK_TOOLS"

lemma all_names: "map tool_name all_tools = [''drive-search-files'', ''drive-get-file-content'', ''drive-list-recent'',
    ''drive-export-large-file'', ''wait-for-job'', ''slack-send-message'', ''slack-search-messages'']"
  by (simp add: all_tools_def tool_names)

lemma registry_keys: "map fst (build_registry D) = map tool_name all_tools"
proof -
  have keys: "map fst (build_drive_registry (sv_pydantic D) (sv_google D) (sv_redis D) (sv_encode D)
    @ build_job_registry (sv_pydantic D) (sv_jobs_redis D) (sv_net D) (sv_uuid D) (sv_encode D)
    @ build_slack_registry (sv_pydantic D) (sv_slack D) (sv_redis D) (sv_encode D)) = map tool_name all_tools"
    by (simp add: registry_names all_tools_def)
  moreover have "distinct (map tool_name all_tools)" by (simp add: all_names)
  ultimately show ?thesis unfolding build_registry_def by (simp add: keys)
qed

lemma registry_has: "dict_get (build_registry D) name = None \<longleftrightarrow> name \<notin> set (map tool_name all_tools)"
  unfolding registry_keys [of D, symmetric] by (simp add: map_of_eq_None_iff)

lemma tool_scope_of: "dict_get TOOL_SCOPE name =
    (if name \<in> set (map tool_name (DRIVE_TOOLS @ JOB_TOOLS)) then Some (Some ''mcp:google:read'')
     else if name \<in> set (map tool_name SLACK_TOOLS) then Some (Some ''mcp:slack:read'') else None)"
proof -
  have scope: "TOOL_SCOPE = map (\<lambda>n. (n, Some ''mcp:google:read'')) (map tool_name (DRIVE_TOOLS @ JOB_TOOLS))
      @ map (\<lambda>n. (n, Some ''mcp:slack:read'')) (map tool_name SLACK_TOOLS)"
    by (simp add: TOOL_SCOPE_def GROUPS_def DRIVE_REQUIRED_SCOPE_def JOB_REQUIRED_SCOPE_def SLACK_REQUIRED_SCOPE_def
        DRIVE_TOOLS_def JOB_TOOLS_def SLACK_TOOLS_def)
  show ?thesis by (simp add: scope tool_names)
qed

lemma visible_tools_groups: "visible_tools scopes = (if ''mcp:google:read'' \<in> scopes then DRIVE_TOOLS @ JOB_TOOLS else [])
    @ (if ''mcp:slack:read'' \<in> scopes then SLACK_TOOLS else [])"
  by (simp add: visible_tools_def GROUPS_def scope_ok_def DRIVE_REQUIRED_SCOPE_def JOB_REQUIRED_SCOPE_def SLACK_REQUIRED_SCOPE_def)

lemma visible_iff: "name \<in> set (map tool_name (visible_tools scopes)) \<longleftrightarrow>
    name \<in> set (map tool_name all_tools) \<and> scope_ok (required_scope TOOL_SCOPE name) scopes"
proof -
  let ?A = "set (map tool_name (DRIVE_TOOLS @ JOB_TOOLS))" and ?B = "set (map tool_name SLACK_TOOLS)"
  have "?A \<inter> ?B = {}" by (simp add: tool_names)
  moreover have "set (map tool_name (visible_tools scopes)) = (if ''mcp:google:read'' \<in> scopes then ?A else {}) \<union> (if ''mcp:slack:read'' \<in> scopes then ?B else {})"
    by (auto simp: visible_tools_groups)
  moreover have "set (map tool_name all_tools) = ?A \<union> ?B" by (auto simp: all_tools_def)
  moreover have "scope_ok (required_scope TOOL_SCOPE name) scopes \<longleftrightarrow>
      (name \<in> ?A \<longrightarrow> ''mcp:google:read'' \<in> scopes) \<and> (name \<notin> ?A \<longrightarrow> name \<in> ?B \<longrightarrow> ''mcp:slack:read'' \<in> scopes)"
    unfolding required_scope_def dict_get_default_def tool_scope_of scope_ok_def by (cases "name \<in> ?A"; cases "name \<in> ?B") auto
  ultimately show ?thesis by (cases "name \<in> ?A"; cases "name \<in> ?B") auto
qed

section \<open>Properties\<close>

text \<open>
  C3: what a caller sees is what a caller can call. For every set of scopes and every name: a tool that
  is listed runs its registered handler; any other name, whether no such tool exists or the caller lacks
  its scope, gets one and the same error and nothing else happens. The Drive and export tools need
  \<open>mcp:google:read\<close>, the Slack tools \<open>mcp:slack:read\<close>.
\<close>

theorem tools_listed_iff_callable:
  "call_tool D ctx name args s = (if name \<in> set (map tool_name (handle_list_tools ctx))
      then the (dict_get (build_registry D) name) ctx args s
      else (Inl (McpError (- 32601) (''Unknown tool: '' @ name)), s))
   \<and> handle_list_tools ctx = (if ''mcp:google:read'' \<in> current_user_scopes ctx then DRIVE_TOOLS @ JOB_TOOLS else [])
        @ (if ''mcp:slack:read'' \<in> current_user_scopes ctx then SLACK_TOOLS else [])
   \<and> map fst (build_registry D) = map tool_name (DRIVE_TOOLS @ JOB_TOOLS @ SLACK_TOOLS)"
proof (intro conjI)
  show "call_tool D ctx name args s = (if name \<in> set (map tool_name (handle_list_tools ctx))
      then the (dict_get (build_registry D) name) ctx args s
      else (Inl (McpError (- 32601) (''Unknown tool: '' @ name)), s))"
    unfolding call_tool_def handle_list_tools_def visible_iff
    using registry_has [of D name] by (auto split: option.split)
qed (simp_all add: handle_list_tools_def visible_tools_groups registry_keys [unfolded all_tools_def])

text \<open>
  Prompts follow the same rule: a prompt that is listed renders, every other name gets the same error,
  and the rendered text of the document search starts with the description it was given.
\<close>

theorem prompts_listed_iff_rendered:
  "get_prompt ctx name args = (if name \<in> set (map pr_name (list_prompts ctx))
      then Inr (render_drive_find_document args) else Inl (McpError (- 32601) (''Unknown prompt: '' @ name)))
   \<and> map pr_name (list_prompts ctx) = (if ''mcp:google:read'' \<in> current_user_scopes ctx then [''drive-find-document''] else [])
   \<and> (\<exists>rest. pres_messages (render_drive_find_document (Some ((''description'', d) # args'))) = [(''user'', ''Find a document in Google Drive: '' @ d @ ''.'' @ rest)])"
proof -
  have scope: "PROMPT_SCOPE = [(''drive-find-document'', Some ''mcp:google:read'')]"
    by (simp add: PROMPT_SCOPE_def PROMPT_GROUPS_def DRIVE_PROMPTS_def DRIVE_PROMPT_REQUIRED_SCOPE_def)
  have reg: "PROMPT_REGISTRY = [(''drive-find-document'', render_drive_find_document)]"
    by (simp add: PROMPT_REGISTRY_def PROMPT_GROUPS_def DRIVE_PROMPT_REGISTRY_def)
  have vis: "map pr_name (list_prompts ctx) = (if ''mcp:google:read'' \<in> current_user_scopes ctx then [''drive-find-document''] else [])"
    by (simp add: list_prompts_def visible_prompts_def PROMPT_GROUPS_def scope_ok_def DRIVE_PROMPTS_def DRIVE_PROMPT_REQUIRED_SCOPE_def)
  have "get_prompt ctx name args = (if name \<in> set (map pr_name (list_prompts ctx))
      then Inr (render_drive_find_document args) else Inl (McpError (- 32601) (''Unknown prompt: '' @ name)))"
    unfolding vis get_prompt_def reg scope by (simp add: required_scope_def dict_get_default_def scope_ok_def)
  moreover have "\<exists>rest. pres_messages (render_drive_find_document (Some ((''description'', d) # args'))) = [(''user'', ''Find a document in Google Drive: '' @ d @ ''.'' @ rest)]"
    by (simp add: render_drive_find_document_def Let_def dict_get_default_def)
  ultimately show ?thesis using vis by blast
qed


end
