(* ===== verification/Lifespan.thy ===== *)
theory Lifespan
  imports Mcp_Server
begin

text \<open>
  Startup and shutdown: \<open>lifespan\<close> of \<open>app/main.py\<close> and \<open>app/mcp/app.py\<close>. The state is the world together with
  the local variables of the function, so that the \<open>finally\<close> clause sees which resources were created before
  an exception. Opening and closing connections, starting, cancelling and awaiting a task, the cipher's
  constructor and serving requests are parameters.
\<close>

section \<open>The mounted MCP application\<close>

record 'm mcp_app =
  app_manager :: "'m option"

definition new_mcp_app :: "'m mcp_app" where
  "new_mcp_app = \<lparr>app_manager = None\<rparr>"

definition set_manager :: "'m \<Rightarrow> 'm mcp_app \<Rightarrow> 'm mcp_app" where
  "set_manager manager a = a\<lparr>app_manager := Some manager\<rparr>"

definition mcp_app_call :: "('m \<Rightarrow> request \<Rightarrow> ('s, response) prog) \<Rightarrow> 'm mcp_app \<Rightarrow> request \<Rightarrow> ('s, response) prog" where
  "mcp_app_call handle_request a rq = (case app_manager a of
     None \<Rightarrow> raise (RuntimeError ''mcp_app: session manager not initialized'')
   | Some manager \<Rightarrow> handle_request manager rq)"

section \<open>Resources\<close>

datatype resource = Redis | HttpClient | DriveClient | SlackClient | JobsRedis | WorkerTask

record startup_settings =
  su_redis_url :: string
  su_google_key :: string
  su_slack_key :: string
  su_google_refresh :: string
  su_slack_bot :: string
  su_slack_user :: string

text \<open>\<open>lf_await_worker\<close> is the outcome of awaiting the cancelled task: the exception it ended with, if any.\<close>

record 's lifespan_env =
  lf_open :: "resource \<Rightarrow> ('s, unit) prog"
  lf_close :: "resource \<Rightarrow> ('s, unit) prog"
  lf_redis :: "'s redis"
  lf_fernet :: "string \<Rightarrow> 's fernet res"
  lf_cancel_worker :: "('s, unit) prog"
  lf_await_worker :: "('s, unit) prog"
  lf_serve :: "('s, unit) prog"

text \<open>The local variables that are \<open>None\<close> until their resource exists.\<close>

record locals =
  l_http_client :: bool
  l_drive_client :: bool
  l_slack_client :: bool
  l_jobs_redis :: bool
  l_worker_task :: bool

definition no_locals :: locals where
  "no_locals = \<lparr>l_http_client = False, l_drive_client = False, l_slack_client = False, l_jobs_redis = False, l_worker_task = False\<rparr>"

definition on_world :: "('s, 'a) prog \<Rightarrow> ('s \<times> locals, 'a) prog" where
  "on_world m sl = (case m (fst sl) of (r, s') \<Rightarrow> (r, (s', snd sl)))"

definition assign :: "(locals \<Rightarrow> locals) \<Rightarrow> ('s \<times> locals, unit) prog" where
  "assign f sl = (Inr (), (fst sl, f (snd sl)))"

text \<open>\<open>x = constructor(...)\<close>: the variable is set only if the constructor returns.\<close>

definition create :: "'s lifespan_env \<Rightarrow> resource \<Rightarrow> (locals \<Rightarrow> locals) \<Rightarrow> ('s \<times> locals, unit) prog" where
  "create E res f = bindM (on_world (lf_open E res)) (\<lambda>_. assign f)"

definition when_set :: "(locals \<Rightarrow> bool) \<Rightarrow> ('s \<times> locals, unit) prog \<Rightarrow> ('s \<times> locals, unit) prog" where
  "when_set p m = bindM (asks (\<lambda>sl. p (snd sl))) (\<lambda>b. if b then m else ret ())"

section \<open>lifespan\<close>

text \<open>The environment gives the empty string for a setting that is not there.\<close>

definition startup :: "'s lifespan_env \<Rightarrow> startup_settings \<Rightarrow> ('s \<times> locals, unit) prog" where
  "startup E cfg =
     bindM (create E HttpClient (\<lambda>l. l\<lparr>l_http_client := True\<rparr>)) (\<lambda>_.
     bindM (create E DriveClient (\<lambda>l. l\<lparr>l_drive_client := True\<rparr>)) (\<lambda>_.
     bindM (create E SlackClient (\<lambda>l. l\<lparr>l_slack_client := True\<rparr>)) (\<lambda>_.
     bindM (lift_res (lf_fernet E (su_google_key cfg))) (\<lambda>google_fernet.
     bindM (lift_res (lf_fernet E (su_slack_key cfg))) (\<lambda>slack_fernet.
     bindM (on_world (seed_shared_token_if_absent (google_token_store (lf_redis E)) google_fernet (Some (su_google_refresh cfg)))) (\<lambda>_.
     bindM (on_world (seed_shared_slack_tokens_if_absent (slack_token_store (lf_redis E)) slack_fernet (Some (su_slack_bot cfg)) (Some (su_slack_user cfg)))) (\<lambda>_.
     bindM (create E JobsRedis (\<lambda>l. l\<lparr>l_jobs_redis := True\<rparr>)) (\<lambda>_.
       create E WorkerTask (\<lambda>l. l\<lparr>l_worker_task := True\<rparr>)))))))))"

definition stop_worker :: "'s lifespan_env \<Rightarrow> ('s, unit) prog" where
  "stop_worker E = bindM (lf_cancel_worker E) (\<lambda>_.
     tryM (lf_await_worker E) (\<lambda>e. if e = CancelledError then ret () else raise e))"

definition shutdown :: "'s lifespan_env \<Rightarrow> ('s \<times> locals, unit) prog" where
  "shutdown E =
     bindM (when_set l_worker_task (on_world (stop_worker E))) (\<lambda>_.
     bindM (when_set l_jobs_redis (on_world (lf_close E JobsRedis))) (\<lambda>_.
     bindM (when_set l_drive_client (on_world (lf_close E DriveClient))) (\<lambda>_.
     bindM (when_set l_slack_client (on_world (lf_close E SlackClient))) (\<lambda>_.
     bindM (when_set l_http_client (on_world (lf_close E HttpClient))) (\<lambda>_.
       on_world (lf_close E Redis))))))"

definition lifespan :: "'s lifespan_env \<Rightarrow> startup_settings \<Rightarrow> ('s \<times> locals, unit) prog" where
  "lifespan E cfg =
     (if su_redis_url cfg = [] then raise (RuntimeError ''REDIS_URL is required'')
      else bindM (on_world (lf_open E Redis)) (\<lambda>_.
        finallyM (bindM (startup E cfg) (\<lambda>_. on_world (lf_serve E))) (shutdown E)))"

section \<open>What is open\<close>

text \<open>
  \<open>opened\<close> is the set of resources in use. Opening either fails or adds the resource, closing removes it
  and does not fail; awaiting a cancelled worker ends with \<open>CancelledError\<close> or normally and the worker
  is gone. Nothing else opens or closes anything.
\<close>

locale lifespan_world =
  fixes E :: "'s lifespan_env" and opened :: "'s \<Rightarrow> resource set"
  assumes open_ok: "lf_open E res s = (Inr u, s') \<Longrightarrow> opened s' = insert res (opened s)"
    and open_fails: "lf_open E res s = (Inl e, s') \<Longrightarrow> opened s' = opened s"
    and close_ok: "res \<noteq> WorkerTask \<Longrightarrow> \<exists>s'. lf_close E res s = (Inr (), s') \<and> opened s' = opened s - {res}"
    and cancel_ok: "\<exists>s'. lf_cancel_worker E s = (Inr (), s') \<and> opened s' = opened s"
    and await_gone: "opened (snd (lf_await_worker E s)) = opened s - {WorkerTask}"
    and serve_same: "opened (snd (lf_serve E s)) = opened s"
    and redis_same: "guarantees (\<lambda>s s'. opened s' = opened s) (r_get (lf_redis E) k)"
      "guarantees (\<lambda>s s'. opened s' = opened s) (r_set (lf_redis E) k v ex nx)"
    and encrypt_same: "lf_fernet E key = Inr F \<Longrightarrow> guarantees (\<lambda>s s'. opened s' = opened s) (f_encrypt F x)"

text \<open>The variables tell what is open besides the first connection.\<close>

definition held :: "locals \<Rightarrow> resource set" where
  "held l = (if l_http_client l then {HttpClient} else {}) \<union> (if l_drive_client l then {DriveClient} else {})
     \<union> (if l_slack_client l then {SlackClient} else {}) \<union> (if l_jobs_redis l then {JobsRedis} else {}) \<union> (if l_worker_task l then {WorkerTask} else {})"

definition tracked :: "('s \<Rightarrow> resource set) \<Rightarrow> resource set \<Rightarrow> 's \<times> locals \<Rightarrow> bool" where
  "tracked opened base sl \<longleftrightarrow> opened (fst sl) = base \<union> held (snd sl)"

interpretation track: frame_rel "\<lambda>sl sl'. \<forall>base. tracked opened base sl \<longrightarrow> tracked opened base sl'" for opened
  by unfold_locales auto

interpretation same_open: frame_rel "\<lambda>s s'. opened s' = opened s" for opened :: "'s \<Rightarrow> resource set"
  by unfold_locales auto

lemma on_world_tracks:
  assumes "guarantees (\<lambda>s s'. opened s' = opened s) m"
  shows "guarantees (\<lambda>sl sl'. \<forall>base. tracked opened base sl \<longrightarrow> tracked opened base sl') (on_world m)"
proof (rule guaranteesI)
  fix sl :: "'a \<times> locals"
  obtain r s' where run: "m (fst sl) = (r, s')" by fastforce
  then have "opened s' = opened (fst sl)" using guaranteesD [OF assms] by blast
  with run show "\<forall>base. tracked opened base sl \<longrightarrow> tracked opened base (snd (on_world m sl))" by (simp add: on_world_def tracked_def)
qed

context lifespan_world
begin

lemma create_tracks:
  assumes "\<And>l. held (f l) = insert res (held l)"
  shows "guarantees (\<lambda>sl sl'. \<forall>base. tracked opened base sl \<longrightarrow> tracked opened base sl') (create E res f)"
proof (rule guaranteesI)
  fix sl :: "'s \<times> locals"
  obtain r s' where run: "lf_open E res (fst sl) = (r, s')" by fastforce
  show "\<forall>base. tracked opened base sl \<longrightarrow> tracked opened base (snd (create E res f sl))"
    using run open_ok [of res "fst sl" "()" s'] open_fails [of res "fst sl" _ s'] assms
    by (cases r) (auto simp: create_def bindM_def on_world_def assign_def tracked_def)
qed

lemma store_same:
  "guarantees (\<lambda>s s'. opened s' = opened s) (st_get (google_token_store (lf_redis E)) k)"
  "guarantees (\<lambda>s s'. opened s' = opened s) (st_get (slack_token_store (lf_redis E)) k)"
  "guarantees (\<lambda>s s'. opened s' = opened s) (st_set (google_token_store (lf_redis E)) k v None)"
  "guarantees (\<lambda>s s'. opened s' = opened s) (st_set (slack_token_store (lf_redis E)) k v None)"
  by (auto simp: google_token_store_def slack_token_store_def RedisStore_def RedisStore_get_def RedisStore_set_def
      intro!: same_open.frame_rules redis_same)

lemma seeds_same:
  assumes "lf_fernet E key = Inr F"
  shows "guarantees (\<lambda>s s'. opened s' = opened s) (seed_shared_token_if_absent (google_token_store (lf_redis E)) F tok)"
    and "guarantees (\<lambda>s s'. opened s' = opened s) (seed_shared_slack_tokens_if_absent (slack_token_store (lf_redis E)) F tok tok')"
proof -
  note rules = same_open.frame_rules store_same encrypt_same [OF assms]
  have r1: "guarantees (\<lambda>s s'. opened s' = opened s) (seed_refresh_token (google_token_store (lf_redis E)) F x)" for x
    unfolding seed_refresh_token_def by (intro rules)
  show "guarantees (\<lambda>s s'. opened s' = opened s) (seed_shared_token_if_absent (google_token_store (lf_redis E)) F tok)"
    unfolding seed_shared_token_if_absent_def by (auto intro!: rules r1 split: option.split)
  have r2: "guarantees (\<lambda>s s'. opened s' = opened s) (encrypt_if_given F key' t d)" for key' t d
    unfolding encrypt_if_given_def by (auto intro!: rules)
  show "guarantees (\<lambda>s s'. opened s' = opened s) (seed_shared_slack_tokens_if_absent (slack_token_store (lf_redis E)) F tok tok')"
    unfolding seed_shared_slack_tokens_if_absent_def by (auto intro!: rules r2 simp del: dumps.simps)
qed

lemma lift_fernet_tracks:
  assumes "\<And>F. lf_fernet E key = Inr F \<Longrightarrow> guarantees (\<lambda>sl sl'. \<forall>base. tracked opened base sl \<longrightarrow> tracked opened base sl') (f F)"
  shows "guarantees (\<lambda>sl sl'. \<forall>base. tracked opened base sl \<longrightarrow> tracked opened base sl') (bindM (lift_res (lf_fernet E key)) f)"
  using assms by (cases "lf_fernet E key") (auto simp: guarantees_def bindM_def)

lemma startup_tracks: "guarantees (\<lambda>sl sl'. \<forall>base. tracked opened base sl \<longrightarrow> tracked opened base sl') (startup E cfg)"
  unfolding startup_def
  by (intro track.frame_bindM lift_fernet_tracks on_world_tracks seeds_same create_tracks) (auto simp: held_def)

lemma stop_worker_gone:
  "opened (snd (stop_worker E s)) = opened s - {WorkerTask}"
proof -
  obtain s1 where c: "lf_cancel_worker E s = (Inr (), s1)" "opened s1 = opened s" using cancel_ok by blast
  obtain r s2 where a: "lf_await_worker E s1 = (r, s2)" by fastforce
  then have "opened s2 = opened s - {WorkerTask}" using await_gone [of s1] c by simp
  with c a show ?thesis by (cases r) (auto simp: stop_worker_def bindM_def tryM_def)
qed

lemma close_step:
  assumes "res \<noteq> WorkerTask"
  shows "\<exists>s'. when_set p (on_world (lf_close E res)) (s, l) = (Inr (), (s', l)) \<and> opened s' = opened s - (if p l then {res} else {})"
  using close_ok [OF assms, of s] by (auto simp: when_set_def bindM_def on_world_def)

lemma close_all:
  "\<exists>s'. bindM (when_set l_jobs_redis (on_world (lf_close E JobsRedis))) (\<lambda>_.
     bindM (when_set l_drive_client (on_world (lf_close E DriveClient))) (\<lambda>_.
     bindM (when_set l_slack_client (on_world (lf_close E SlackClient))) (\<lambda>_.
     bindM (when_set l_http_client (on_world (lf_close E HttpClient))) (\<lambda>_.
       on_world (lf_close E Redis))))) (s, l) = (Inr (), (s', l)) \<and> opened s' = opened s - insert Redis (held l - {WorkerTask})"
proof -
  obtain s1 where 1: "when_set l_jobs_redis (on_world (lf_close E JobsRedis)) (s, l) = (Inr (), (s1, l))"
    "opened s1 = opened s - (if l_jobs_redis l then {JobsRedis} else {})" using close_step [of JobsRedis] by blast
  obtain s2 where 2: "when_set l_drive_client (on_world (lf_close E DriveClient)) (s1, l) = (Inr (), (s2, l))"
    "opened s2 = opened s1 - (if l_drive_client l then {DriveClient} else {})" using close_step [of DriveClient] by blast
  obtain s3 where 3: "when_set l_slack_client (on_world (lf_close E SlackClient)) (s2, l) = (Inr (), (s3, l))"
    "opened s3 = opened s2 - (if l_slack_client l then {SlackClient} else {})" using close_step [of SlackClient] by blast
  obtain s4 where 4: "when_set l_http_client (on_world (lf_close E HttpClient)) (s3, l) = (Inr (), (s4, l))"
    "opened s4 = opened s3 - (if l_http_client l then {HttpClient} else {})" using close_step [of HttpClient] by blast
  obtain s5 where 5: "on_world (lf_close E Redis) (s4, l) = (Inr (), (s5, l))" "opened s5 = opened s4 - {Redis}"
    using close_ok [of Redis s4] by (auto simp: on_world_def)
  have "opened s5 = opened s - insert Redis (held l - {WorkerTask})"
    unfolding 5(2) 4(2) 3(2) 2(2) 1(2) held_def by auto
  then show ?thesis by (simp add: bindM_def 1(1) 2(1) 3(1) 4(1) 5(1))
qed

text \<open>With a worker that ends as cancelled, everything that was opened is closed.\<close>

lemma shutdown_closes:
  assumes worker: "\<And>t e t'. lf_await_worker E t = (Inl e, t') \<Longrightarrow> e = CancelledError" and run: "shutdown E (s, l) = (r, (s', l'))"
  shows "r = Inr ()" and "opened s' = opened s - insert Redis (held l)"
proof -
  obtain s1 where stop: "when_set l_worker_task (on_world (stop_worker E)) (s, l) = (Inr (), (s1, l))"
    and open1: "opened s1 = opened s - (if l_worker_task l then {WorkerTask} else {})"
  proof (cases "l_worker_task l")
    case True
    obtain sc where c: "lf_cancel_worker E s = (Inr (), sc)" using cancel_ok by blast
    obtain q sa where a: "lf_await_worker E sc = (q, sa)" by fastforce
    have "stop_worker E s = (Inr (), sa)" using c a worker by (cases q) (auto simp: stop_worker_def bindM_def tryM_def)
    moreover have "opened sa = opened s - {WorkerTask}" using stop_worker_gone [of s] calculation by simp
    ultimately show thesis using True that [of sa] by (simp add: when_set_def bindM_def on_world_def)
  next
    case False
    then show thesis using that [of s] by (simp add: when_set_def bindM_def)
  qed
  from close_all [of s1 l] obtain s2 where rest: "bindM (when_set l_jobs_redis (on_world (lf_close E JobsRedis))) (\<lambda>_.
     bindM (when_set l_drive_client (on_world (lf_close E DriveClient))) (\<lambda>_.
     bindM (when_set l_slack_client (on_world (lf_close E SlackClient))) (\<lambda>_.
     bindM (when_set l_http_client (on_world (lf_close E HttpClient))) (\<lambda>_.
       on_world (lf_close E Redis))))) (s1, l) = (Inr (), (s2, l))" and open2: "opened s2 = opened s1 - insert Redis (held l - {WorkerTask})"
    by blast
  have "shutdown E (s, l) = (Inr (), (s2, l))"
    unfolding shutdown_def by (simp only: bindM_def [of "when_set l_worker_task (on_world (stop_worker E))"] stop) (simp add: rest)
  with run have fin: "r = Inr ()" "s' = s2" by simp_all
  show "r = Inr ()" by (rule fin(1))
  show "opened s' = opened s - insert Redis (held l)" unfolding fin(2) open2 open1 by (auto simp: held_def)
qed

lemma run_to_shutdown:
  assumes "su_redis_url cfg \<noteq> []" "lf_open E Redis s = (Inr u, s0)"
    and "bindM (startup E cfg) (\<lambda>_. on_world (lf_serve E)) (s0, no_locals) = (r1, (s1, l1))" "shutdown E (s1, l1) = (r2, sl2)"
  shows "lifespan E cfg (s, no_locals) = (case r2 of Inl e \<Rightarrow> Inl e | Inr _ \<Rightarrow> r1, sl2)"
  using assms by (auto simp: lifespan_def bindM_def [of "on_world (lf_open E Redis)"] on_world_def [of "lf_open E Redis"] finallyM_def split: sum.splits)

lemma body_tracks: "guarantees (\<lambda>sl sl'. \<forall>base. tracked opened base sl \<longrightarrow> tracked opened base sl') (bindM (startup E cfg) (\<lambda>_. on_world (lf_serve E)))"
proof -
  have "guarantees (\<lambda>s s'. opened s' = opened s) (lf_serve E)" by (simp add: guarantees_def serve_same)
  then show ?thesis by (intro track.frame_bindM startup_tracks on_world_tracks)
qed

lemma held_none [simp]: "held no_locals = {}"
  by (simp add: held_def no_locals_def)

lemma lifespan_open:
  assumes "opened s = {}" "lf_open E Redis s = (Inr u, s0)"
    and "bindM (startup E cfg) (\<lambda>_. on_world (lf_serve E)) (s0, no_locals) = (r1, (s1, l1))"
  shows "opened s1 = insert Redis (held l1)"
proof -
  have "tracked opened {Redis} (s0, no_locals)" using open_ok [OF assms(2)] assms(1) by (simp add: tracked_def)
  then have "tracked opened {Redis} (s1, l1)" using guaranteesD [OF body_tracks assms(3)] by blast
  then show ?thesis by (simp add: tracked_def)
qed

lemma lifespan_closes:
  assumes none: "opened s = {}" and worker: "\<And>t e t'. lf_await_worker E t = (Inl e, t') \<Longrightarrow> e = CancelledError"
    and run: "lifespan E cfg (s, no_locals) = (r, (s', l'))"
  shows "opened s' = {}"
proof (cases "su_redis_url cfg = []")
  case True
  then show ?thesis using run none by (simp add: lifespan_def)
next
  case False
  obtain q s0 where op: "lf_open E Redis s = (q, s0)" by fastforce
  show ?thesis
  proof (cases q)
    case (Inl e)
    then show ?thesis using run op False open_fails [of Redis s e s0] none by (auto simp: lifespan_def bindM_def on_world_def)
  next
    case (Inr u)
    obtain r1 s1 l1 where body: "bindM (startup E cfg) (\<lambda>_. on_world (lf_serve E)) (s0, no_locals) = (r1, (s1, l1))" by (metis prod.exhaust)
    obtain r2 s2 l2 where sd: "shutdown E (s1, l1) = (r2, (s2, l2))" by (metis prod.exhaust)
    have "opened s1 = insert Redis (held l1)" using lifespan_open [OF none _ body] op Inr by simp
    then have "opened s2 = {}" using shutdown_closes(2) [OF worker sd] by simp
    moreover have "s' = s2" using run_to_shutdown [OF False _ body sd] op Inr run by simp
    ultimately show ?thesis by simp
  qed
qed

lemma startup_all_set:
  assumes "startup E cfg (s0, no_locals) = (Inr (), (s1, l1))"
  shows "held l1 = {HttpClient, DriveClient, SlackClient, JobsRedis, WorkerTask}"
  using assms unfolding startup_def create_def
  by (elim bindM_InrE) (auto simp: on_world_def assign_def held_def split: prod.splits)

lemma lifespan_worker_died:
  assumes none: "opened s = {}" and url: "su_redis_url cfg \<noteq> []" and op: "lf_open E Redis s = (Inr u, s0)"
    and up: "startup E cfg (s0, no_locals) = (Inr (), (s1, l1))"
    and died: "\<And>t. fst (lf_await_worker E t) = Inl e" "e \<noteq> CancelledError"
    and run: "lifespan E cfg (s, no_locals) = (r, (s', l'))"
  shows "r = Inl e" and "opened s' = {Redis, HttpClient, DriveClient, SlackClient, JobsRedis}"
proof -
  obtain r1 s2 where body: "bindM (startup E cfg) (\<lambda>_. on_world (lf_serve E)) (s0, no_locals) = (r1, (s2, l1))"
    using up by (cases "lf_serve E s1") (simp add: bindM_def on_world_def)
  have held: "held l1 = {HttpClient, DriveClient, SlackClient, JobsRedis, WorkerTask}" by (rule startup_all_set [OF up])
  have open2: "opened s2 = insert Redis (held l1)" by (rule lifespan_open [OF none op body])
  obtain sc where c: "lf_cancel_worker E s2 = (Inr (), sc)" using cancel_ok by blast
  obtain sa where a: "lf_await_worker E sc = (Inl e, sa)" using died(1) [of sc] by (metis prod.collapse)
  have stop: "stop_worker E s2 = (Inl e, sa)" using c a died(2) by (simp add: stop_worker_def bindM_def tryM_def)
  have "l_worker_task l1" using held by (auto simp: held_def split: if_splits)
  then have "shutdown E (s2, l1) = (Inl e, (sa, l1))" using stop by (simp add: shutdown_def when_set_def bindM_def on_world_def)
  with run_to_shutdown [OF url op body this] run have "r = Inl e" and s': "s' = sa" by simp_all
  then show "r = Inl e" by simp
  have "opened sa = opened s2 - {WorkerTask}" using stop_worker_gone [of s2] stop by simp
  then show "opened s' = {Redis, HttpClient, DriveClient, SlackClient, JobsRedis}" unfolding s' open2 held by auto
qed

end

section \<open>Properties\<close>


definition idle_redis :: "'s redis" where
  "idle_redis = \<lparr>r_get = (\<lambda>k. ret None), r_set = (\<lambda>k v ex nx. ret True), r_getdel = (\<lambda>k. ret None),
     r_scan = (\<lambda>p. ret []), r_delete = (\<lambda>ks. ret ()), r_incr = (\<lambda>k. ret 1), r_pexpire = (\<lambda>k t. ret True),
     r_expire = (\<lambda>k t. ret True), r_pttl = (\<lambda>k. ret 1), r_eval = (\<lambda>m. m), r_xadd = (\<lambda>k f. ret (SID 1 0)),
     r_xrange = (\<lambda>k. ret []), r_xread = (\<lambda>k b. ret []), r_xgroup_create = (\<lambda>k g. ret ()),
     r_xreadgroup = (\<lambda>k g c n b. ret []), r_xack = (\<lambda>k g i. ret 1), r_xautoclaim = (\<lambda>k g c t n. ret [])\<rparr>"

text \<open>A world that fails to open the given resources, with a worker that ends with the given exception.\<close>

definition sample_lifespan :: "resource set \<Rightarrow> exn \<Rightarrow> resource set lifespan_env" where
  "sample_lifespan broken e = \<lparr>lf_open = (\<lambda>res s. if res \<in> broken then (Inl OSError, s) else (Inr (), insert res s)),
     lf_close = (\<lambda>res s. (Inr (), s - {res})), lf_redis = idle_redis,
     lf_fernet = (\<lambda>key. if key = [] then Inl (ValueError ''key'') else Inr \<lparr>f_encrypt = (\<lambda>x. ret x), f_decrypt = Inr\<rparr>),
     lf_cancel_worker = ret (), lf_await_worker = (\<lambda>s. (Inl e, s - {WorkerTask})), lf_serve = ret ()\<rparr>"

interpretation sample_lifespan: lifespan_world "sample_lifespan broken e" "\<lambda>s. s" for broken e
  by unfold_locales (auto simp: sample_lifespan_def idle_redis_def guarantees_def split: if_splits)

abbreviation sample_startup :: startup_settings where
  "sample_startup \<equiv> \<lparr>su_redis_url = ''redis://r'', su_google_key = ''k1'', su_slack_key = ''k2'', su_google_refresh = ''rt'', su_slack_bot = [], su_slack_user = ''xoxp''\<rparr>"

lemma sample_startup_run:
  "lf_open (sample_lifespan {} e) Redis {} = (Inr (), {Redis})"
  "\<exists>s1 l1. startup (sample_lifespan {} e) sample_startup ({Redis}, no_locals) = (Inr (), (s1, l1))"
  by (simp_all add: startup_def create_def on_world_def assign_def bindM_def sample_lifespan_def idle_redis_def seed_shared_token_if_absent_def
      seed_refresh_token_def seed_shared_slack_tokens_if_absent_def encrypt_if_given_def google_token_store_def slack_token_store_def
      RedisStore_def RedisStore_get_def RedisStore_set_def del: dumps.simps)


text \<open>
  C39: a dead worker spoils the shutdown. If the background task has died with an exception of its own (its first
  Redis command failed, the export directory could not be made), awaiting it at shutdown raises this
  exception again, which only \<open>CancelledError\<close> is suppressed for: the application ends with the error and
  both Redis connections and all three clients stay open.
\<close>

theorem dead_worker_leaks_connections:
  assumes "lifespan_world E opened" "opened s = {}" "su_redis_url cfg \<noteq> []" "lf_open E Redis s = (Inr u, s0)"
    and "startup E cfg (s0, no_locals) = (Inr (), (s1, l1))"
    and "\<And>t. fst (lf_await_worker E t) = Inl e" "e \<noteq> CancelledError"
    and "lifespan E cfg (s, no_locals) = (r, (s', l'))"
  shows "r = Inl e \<and> opened s' = {Redis, HttpClient, DriveClient, SlackClient, JobsRedis}"
  using lifespan_world.lifespan_worker_died [OF assms] by blast

theorem dead_worker_leaks_connections_witness:
  "fst (lifespan (sample_lifespan {} (RedisError ''down'')) sample_startup ({}, no_locals)) = Inl (RedisError ''down'')
   \<and> fst (snd (lifespan (sample_lifespan {} (RedisError ''down'')) sample_startup ({}, no_locals))) = {Redis, HttpClient, DriveClient, SlackClient, JobsRedis}"
proof -
  let ?E = "sample_lifespan {} (RedisError ''down'')"
  obtain s1 l1 where up: "startup ?E sample_startup ({Redis}, no_locals) = (Inr (), (s1, l1))" using sample_startup_run(2) by blast
  obtain r s' l' where run: "lifespan ?E sample_startup ({}, no_locals) = (r, (s', l'))" by (metis prod.exhaust)
  have "su_redis_url sample_startup \<noteq> []" by simp
  moreover have "fst (lf_await_worker ?E t) = Inl (RedisError ''down'')" for t by (simp add: sample_lifespan_def)
  ultimately show ?thesis
    using dead_worker_leaks_connections [OF sample_lifespan.lifespan_world_axioms refl _ sample_startup_run(1) up _ _ run] run by simp
qed

end
