(* ===== verification/Webhooks.thy ===== *)
theory Webhooks
  imports Http_Client Py_Format
begin

text \<open>
  The Slack webhook: \<open>app/integrations/slack/signature.py\<close> and the handler of
  \<open>app/api/webhooks_router.py\<close>. The keyed hash (HMAC-SHA256 in hexadecimal) is a parameter. Bodies are
  taken to be ASCII, so that decoding them changes nothing.
\<close>

section \<open>Signatures\<close>

definition fabs_le :: "dec \<Rightarrow> pyfloat \<Rightarrow> int \<Rightarrow> bool" where
  "fabs_le current ts bound = (case ts of Fin d \<Rightarrow> dec_le (dec_abs (dec_sub current d)) (dec_of_int bound) | _ \<Rightarrow> False)"

definition is_timestamp_fresh :: "string \<Rightarrow> int \<Rightarrow> dec \<Rightarrow> bool" where
  "is_timestamp_fresh timestamp max_age_seconds current =
     (case py_float timestamp of None \<Rightarrow> False | Some ts \<Rightarrow> fabs_le current ts max_age_seconds)"

definition is_ascii :: "string \<Rightarrow> bool" where
  "is_ascii s \<longleftrightarrow> list_all (\<lambda>c. code_point c < 128) s"

text \<open>\<open>hmac.compare_digest\<close> on strings: equality, but only ASCII strings are accepted.\<close>

definition compare_digest :: "string \<Rightarrow> string \<Rightarrow> bool res" where
  "compare_digest a b = (if is_ascii a \<and> is_ascii b then Inr (a = b) else Inl TypeError)"

definition verify_slack_signature :: "(string \<Rightarrow> string \<Rightarrow> string) \<Rightarrow> string \<Rightarrow> string \<Rightarrow> string \<Rightarrow> string \<Rightarrow> bool res" where
  "verify_slack_signature hmac signing_secret timestamp raw_body signature_header =
     (if signing_secret = [] \<or> signature_header = [] then Inr False
      else let base = ''v0:'' @ timestamp @ '':'' @ raw_body; digest = hmac signing_secret base
           in compare_digest (''v0='' @ digest) signature_header)"

section \<open>The handler\<close>

definition MAX_AGE_SECONDS :: int where "MAX_AGE_SECONDS = 300"
definition DEDUP_TTL_SECONDS :: int where "DEDUP_TTL_SECONDS = 3600"
definition EVENTS_STREAM :: string where "EVENTS_STREAM = ''events:slack''"
definition DEDUP_PREFIX :: string where "DEDUP_PREFIX = ''webhook:slack:''"

text \<open>
  A value as a field of a stream entry: the client encodes strings and numbers and refuses everything
  else before it talks to the server.
\<close>

fun redis_field :: "json \<Rightarrow> string res" where
  "redis_field (JStr s) = Inr s"
| "redis_field (JInt i) = Inr (int_str i)"
| "redis_field (JFloat x) = Inr (float_str x)"
| "redis_field _ = Inl (RedisError ''Invalid input of type'')"

definition slack_event_fields :: "json \<Rightarrow> json \<Rightarrow> string \<Rightarrow> string \<Rightarrow> fields res" where
  "slack_event_fields event_id typ timestamp raw =
     bind_res (redis_field event_id) (\<lambda>i. bind_res (redis_field typ) (\<lambda>t.
       Inr [(''event_id'', i), (''type'', t), (''ts'', timestamp), (''payload'', raw)]))"

definition publish_event :: "'s redis \<Rightarrow> json \<Rightarrow> json \<Rightarrow> string \<Rightarrow> string \<Rightarrow> ('s, json) prog" where
  "publish_event R event_id typ timestamp raw =
     bindM (lift_res (slack_event_fields event_id typ timestamp raw)) (\<lambda>fs.
     bindM (r_xadd R EVENTS_STREAM fs) (\<lambda>_. ret (JObj [(''ok'', JBool True)])))"

text \<open>What the handler does with a body whose signature has been checked.\<close>

definition accept_event :: "'s redis \<Rightarrow> string \<Rightarrow> string \<Rightarrow> ('s, json) prog" where
  "accept_event R timestamp raw = (case loads raw of
     Inl e \<Rightarrow> if is_value_error e then raise (HTTPException 400 ''invalid JSON'') else raise e
   | Inr (JObj body) \<Rightarrow>
       if dict_get body ''type'' = Some (JStr ''url_verification'') then
         ret (JObj [(''challenge'', dict_get_default body ''challenge'' (JStr []))])
       else let event_id = dict_get_default body ''event_id'' (JStr []); typ = dict_get_default body ''type'' (JStr []) in
         if truthy event_id then
           bindM (r_set R (DEDUP_PREFIX @ py_str event_id) ''1'' (Some DEDUP_TTL_SECONDS) True) (\<lambda>created.
             if \<not> created then ret (JObj [(''ok'', JBool True), (''duplicate'', JBool True)])
             else publish_event R event_id typ timestamp raw)
         else publish_event R event_id typ timestamp raw
   | Inr _ \<Rightarrow> raise (HTTPException 400 ''invalid JSON''))"

definition slack_webhook :: "(string \<Rightarrow> string \<Rightarrow> string) \<Rightarrow> 's redis \<Rightarrow> ('s \<Rightarrow> dec) \<Rightarrow> string \<Rightarrow> request \<Rightarrow> ('s, json) prog" where
  "slack_webhook hmac R now signing_secret request =
     (if signing_secret = [] then raise (HTTPException 503 ''webhook not configured'')
      else let raw = rq_body request;
               timestamp = (case header_get request ''X-Slack-Request-Timestamp'' of None \<Rightarrow> [] | Some t \<Rightarrow> t);
               signature = (case header_get request ''X-Slack-Signature'' of None \<Rightarrow> [] | Some t \<Rightarrow> t) in
        if timestamp = [] \<or> signature = [] then raise (HTTPException 401 ''missing signature headers'')
        else bindM (asks now) (\<lambda>current.
          if \<not> is_timestamp_fresh timestamp MAX_AGE_SECONDS current then raise (HTTPException 401 ''stale timestamp'')
          else bindM (lift_res (verify_slack_signature hmac signing_secret timestamp raw signature)) (\<lambda>valid.
            if \<not> valid then raise (HTTPException 401 ''invalid signature'')
            else accept_event R timestamp raw)))"

section \<open>Authentic requests\<close>

text \<open>Signed with the secret over the body as received, and at most five minutes from the clock.\<close>

definition slack_authentic :: "(string \<Rightarrow> string \<Rightarrow> string) \<Rightarrow> dec \<Rightarrow> string \<Rightarrow> request \<Rightarrow> bool" where
  "slack_authentic hmac current secret rq \<longleftrightarrow> secret \<noteq> [] \<and> (\<exists>ts sig d.
     header_get rq ''X-Slack-Request-Timestamp'' = Some ts \<and> header_get rq ''X-Slack-Signature'' = Some sig
     \<and> py_float ts = Some (Fin d) \<and> \<bar>dec_val current - dec_val d\<bar> \<le> 300
     \<and> sig = ''v0='' @ hmac secret (''v0:'' @ ts @ '':'' @ rq_body rq) \<and> is_ascii sig)"

lemma fresh_iff: "is_timestamp_fresh ts MAX_AGE_SECONDS current \<longleftrightarrow> (\<exists>d. py_float ts = Some (Fin d) \<and> \<bar>dec_val current - dec_val d\<bar> \<le> 300)"
  by (auto simp: is_timestamp_fresh_def fabs_le_def MAX_AGE_SECONDS_def dec_le_val split: option.splits pyfloat.splits)

lemma verify_true:
  "verify_slack_signature hmac secret ts raw sig = Inr True \<longleftrightarrow>
    secret \<noteq> [] \<and> sig = ''v0='' @ hmac secret (''v0:'' @ ts @ '':'' @ raw) \<and> is_ascii sig"
  by (auto simp: verify_slack_signature_def Let_def compare_digest_def)

lemma verify_raises: "verify_slack_signature hmac secret ts raw sig = Inl e \<Longrightarrow> e = TypeError"
  by (auto simp: verify_slack_signature_def Let_def compare_digest_def split: if_splits)

lemma py_float_empty [simp]: "py_float [] = None"
  by code_simp

lemma webhook_authentic:
  assumes "slack_authentic hmac (now s) secret rq" "header_get rq ''X-Slack-Request-Timestamp'' = Some ts"
  shows "slack_webhook hmac R now secret rq s = accept_event R ts (rq_body rq) s"
proof -
  from assms obtain sig d where h: "secret \<noteq> []" "header_get rq ''X-Slack-Signature'' = Some sig" "py_float ts = Some (Fin d)"
    "\<bar>dec_val (now s) - dec_val d\<bar> \<le> 300" "sig = ''v0='' @ hmac secret (''v0:'' @ ts @ '':'' @ rq_body rq)" "is_ascii sig"
    by (auto simp: slack_authentic_def)
  then have "verify_slack_signature hmac secret ts (rq_body rq) sig = Inr True" "is_timestamp_fresh ts MAX_AGE_SECONDS (now s)"
    "ts \<noteq> []" "sig \<noteq> []" by (auto simp: verify_true fresh_iff)
  then show ?thesis using h(1,2) assms(2) by (simp add: slack_webhook_def bindM_def Let_def)
qed

lemma webhook_rejects:
  assumes "\<not> slack_authentic hmac (now s) secret rq"
  shows "\<exists>e. slack_webhook hmac R now secret rq s = (Inl e, s) \<and> (e = TypeError \<or> (\<exists>d. e = HTTPException 401 d \<or> e = HTTPException 503 d))"
proof -
  let ?ts = "case header_get rq ''X-Slack-Request-Timestamp'' of None \<Rightarrow> [] | Some t \<Rightarrow> t"
  let ?sig = "case header_get rq ''X-Slack-Signature'' of None \<Rightarrow> [] | Some t \<Rightarrow> t"
  consider "secret = [] \<or> ?ts = [] \<or> ?sig = [] \<or> \<not> is_timestamp_fresh ?ts MAX_AGE_SECONDS (now s)"
    | e where "secret \<noteq> []" "?ts \<noteq> []" "?sig \<noteq> []" "is_timestamp_fresh ?ts MAX_AGE_SECONDS (now s)"
        "verify_slack_signature hmac secret ?ts (rq_body rq) ?sig = Inl e"
    | v where "secret \<noteq> []" "?ts \<noteq> []" "?sig \<noteq> []" "is_timestamp_fresh ?ts MAX_AGE_SECONDS (now s)"
        "verify_slack_signature hmac secret ?ts (rq_body rq) ?sig = Inr v"
    by (cases "verify_slack_signature hmac secret ?ts (rq_body rq) ?sig") blast+
  then show ?thesis
  proof cases
    case 1
    then show ?thesis by (auto simp: slack_webhook_def Let_def bindM_def)
  next
    case (2 e)
    then show ?thesis using verify_raises by (auto simp: slack_webhook_def Let_def bindM_def)
  next
    case (3 v)
    then have "\<not> v" using assms by (auto simp: slack_authentic_def verify_true fresh_iff split: option.splits)
    with 3 show ?thesis by (simp add: slack_webhook_def Let_def bindM_def)
  qed
qed

section \<open>Deduplication\<close>

lemma accept_event_run:
  assumes "loads raw = Inr (JObj body)" "dict_get_default body ''type'' (JStr []) = JStr ty" "ty \<noteq> ''url_verification''"
    and "dict_get body ''event_id'' = Some (JStr i)" "i \<noteq> []"
  shows "accept_event R ts raw = bindM (r_set R (DEDUP_PREFIX @ i) ''1'' (Some DEDUP_TTL_SECONDS) True) (\<lambda>created.
      if \<not> created then ret (JObj [(''ok'', JBool True), (''duplicate'', JBool True)])
      else bindM (r_xadd R EVENTS_STREAM [(''event_id'', i), (''type'', ty), (''ts'', ts), (''payload'', raw)])
        (\<lambda>_. ret (JObj [(''ok'', JBool True)])))"
proof -
  have "dict_get body ''type'' \<noteq> Some (JStr ''url_verification'')"
    using assms(2,3) by (auto simp: dict_get_default_def)
  moreover have "bindM (lift_res (Inr x)) f = f x" for x :: fields and f :: "fields \<Rightarrow> ('a, json) prog"
    by (rule ext) (simp add: bindM_def)
  ultimately show ?thesis
    using assms by (simp add: accept_event_def publish_event_def slack_event_fields_def dict_get_default_def Let_def cong: if_cong)
qed

lemma dedup_key_apart: "EVENTS_STREAM \<noteq> DEDUP_PREFIX @ i"
  by (simp add: EVENTS_STREAM_def DEDUP_PREFIX_def)

text \<open>The delivery of a new event, and of one whose key is there.\<close>

definition event_entry_added :: "rstate \<Rightarrow> rstate \<Rightarrow> fields \<Rightarrow> bool" where
  "event_entry_added st st' fs \<longleftrightarrow> (\<exists>n. s_entries (rs_stream st' EVENTS_STREAM) = s_entries (rs_stream st EVENTS_STREAM) @ [(n, fs)])"

lemma spec_new_event:
  assumes "rs_find st (DEDUP_PREFIX @ i) = None"
    and "bindM (r_set spec_redis (DEDUP_PREFIX @ i) ''1'' (Some DEDUP_TTL_SECONDS) True) (\<lambda>created.
      if \<not> created then ret (JObj [(''ok'', JBool True), (''duplicate'', JBool True)])
      else bindM (r_xadd spec_redis EVENTS_STREAM fs) (\<lambda>_. ret (JObj [(''ok'', JBool True)]))) st = (Inr a, st')"
  shows "a = JObj [(''ok'', JBool True)] \<and> event_entry_added st st' fs
    \<and> rs_find st' (DEDUP_PREFIX @ i) = Some (RStr ''1'', Some (rs_now st + DEDUP_TTL_SECONDS * 1000)) \<and> rs_now st' = rs_now st"
proof -
  let ?st1 = "rs_put (DEDUP_PREFIX @ i) (RStr ''1'') (Some (rs_now st + DEDUP_TTL_SECONDS * 1000)) st"
  have ttl: "0 < DEDUP_TTL_SECONDS" by (simp add: DEDUP_TTL_SECONDS_def)
  from assms have add: "bindM (rs_xadd EVENTS_STREAM fs) (\<lambda>_. ret (JObj [(''ok'', JBool True)])) ?st1 = (Inr a, st')"
    using ttl by (simp add: rs_set_def bindM_def [of "rs_set _ _ _ _"])
  have same: "rs_stream ?st1 EVENTS_STREAM = rs_stream st EVENTS_STREAM" "deadline ?st1 EVENTS_STREAM = deadline st EVENTS_STREAM"
    using dedup_key_apart by (simp_all add: rs_stream_def deadline_def)
  have live: "alive (rs_now st) (deadline st EVENTS_STREAM)"
    by (auto simp: deadline_def rs_find_def split: option.splits if_splits)
  from add have "a = JObj [(''ok'', JBool True)]" and st': "st' = rs_put_stream EVENTS_STREAM
      ((rs_stream st EVENTS_STREAM)\<lparr>s_entries := s_entries (rs_stream st EVENTS_STREAM) @ [(next_id (rs_now st) (s_last (rs_stream st EVENTS_STREAM)), fs)],
         s_last := next_id (rs_now st) (s_last (rs_stream st EVENTS_STREAM))\<rparr>) ?st1"
    by (auto simp: rs_xadd_def bindM_def same Let_def split: if_splits)
  moreover have "rs_find st' (DEDUP_PREFIX @ i) = Some (RStr ''1'', Some (rs_now st + DEDUP_TTL_SECONDS * 1000))"
    using dedup_key_apart [of i] ttl by (simp add: st' rs_put_stream_def alive_def)
  moreover have "event_entry_added st st' fs"
    using live by (auto simp: event_entry_added_def st' rs_put_stream_def rs_stream_def [of "rs_put EVENTS_STREAM _ _ _"] same)
  ultimately show ?thesis by (simp add: rs_put_stream_def)
qed

lemma spec_old_event:
  assumes "rs_find st (DEDUP_PREFIX @ i) \<noteq> None"
  shows "bindM (r_set spec_redis (DEDUP_PREFIX @ i) ''1'' (Some DEDUP_TTL_SECONDS) True) (\<lambda>created.
      if \<not> created then ret (JObj [(''ok'', JBool True), (''duplicate'', JBool True)])
      else bindM (r_xadd spec_redis EVENTS_STREAM fs) (\<lambda>_. ret (JObj [(''ok'', JBool True)]))) st
    = (Inr (JObj [(''ok'', JBool True), (''duplicate'', JBool True)]), st)"
  using assms by (simp add: rs_set_def bindM_def DEDUP_TTL_SECONDS_def)

context redis_server
begin

lemma sim_deliver:
  "simulates \<alpha> (bindM (r_set R k v ex nx) (\<lambda>created. if \<not> created then ret x else bindM (r_xadd R str fs) (\<lambda>_. ret y)))
    (bindM (r_set spec_redis k v ex nx) (\<lambda>created. if \<not> created then ret x else bindM (r_xadd spec_redis str fs) (\<lambda>_. ret y)))"
  unfolding spec_redis_simps by (intro simulates_bindM sim_set) (auto intro!: simulates_bindM sim_xadd)

end

lemma rs_find_tick_alive:
  "rs_find st k = Some (v, Some t) \<Longrightarrow> rs_now st + d \<le> t \<Longrightarrow> rs_find (rs_tick d st) k = Some (v, Some t)"
  by (auto simp: rs_find_def rs_tick_def alive_def split: option.splits if_splits)

section \<open>Properties\<close>

text \<open>
  C10: only authentic requests have an effect. A request that is not signed with the secret over exactly
  the body received, or whose timestamp is more than five minutes away, ends in an error (401 or 503;
  or a \<open>TypeError\<close> for a signature header that is not ASCII), and nothing is written: the state is
  the one before. An authentic one is handed to the event handling.
\<close>

theorem webhook_requires_signature:
  "(\<not> slack_authentic hmac (now s) secret rq \<longrightarrow> (\<exists>e. slack_webhook hmac R now secret rq s = (Inl e, s)
      \<and> (e = TypeError \<or> (\<exists>d. e = HTTPException 401 d \<or> e = HTTPException 503 d))))
   \<and> (\<forall>ts. slack_authentic hmac (now s) secret rq \<and> header_get rq ''X-Slack-Request-Timestamp'' = Some ts \<longrightarrow>
       slack_webhook hmac R now secret rq s = accept_event R ts (rq_body rq) s)"
  using webhook_rejects [of hmac now s secret rq R] webhook_authentic [of hmac now s secret rq _ R] by blast

lemma slack_header_names:
  "str_lower ''X-Slack-Request-Timestamp'' = ''x-slack-request-timestamp''" "str_lower ''X-Slack-Signature'' = ''x-slack-signature''"
  by code_simp+

definition sample_webhook :: "string \<Rightarrow> string \<Rightarrow> request" where
  "sample_webhook sig raw = (sample_request ''/webhooks/slack'' [(''x-slack-request-timestamp'', ''1000''), (''x-slack-signature'', sig)] None)\<lparr>rq_body := raw\<rparr>"

theorem webhook_requires_signature_witness:
  "\<exists>e. slack_webhook (\<lambda>k m. k @ m) spec_redis (\<lambda>_. Dec 1010 0) ''sec'' (sample_webhook ''v0=forged'' ''x'') \<lparr>rs_now = 0, rs_db = []\<rparr> = (Inl e, \<lparr>rs_now = 0, rs_db = []\<rparr>)"
proof -
  have "\<not> slack_authentic (\<lambda>k m. k @ m) (Dec 1010 0) ''sec'' (sample_webhook ''v0=forged'' ''x'')"
    by (simp add: slack_authentic_def sample_webhook_def header_get_def slack_header_names)
  with webhook_requires_signature [of "\<lambda>k m. k @ m" "\<lambda>_. Dec 1010 0" "\<lparr>rs_now = 0, rs_db = []\<rparr>" "''sec''" "sample_webhook ''v0=forged'' ''x''" spec_redis]
  show ?thesis by blast
qed

text \<open>
  C25: an event is taken once. The first delivery of an event whose id has not been seen in the last
  hour appends exactly one entry with its fields to the event stream; a second delivery of the same
  request within the hour is answered as a duplicate and changes nothing.
\<close>

theorem webhook_deduplicates:
  assumes "redis_server R \<alpha>"
    and event: "header_get rq ''X-Slack-Request-Timestamp'' = Some ts" "loads (rq_body rq) = Inr (JObj body)"
      "dict_get_default body ''type'' (JStr []) = JStr ty" "ty \<noteq> ''url_verification''" "dict_get body ''event_id'' = Some (JStr i)" "i \<noteq> []"
    and first: "slack_authentic hmac (now s) secret rq" "rs_find (\<alpha> s) (''webhook:slack:'' @ i) = None"
      "slack_webhook hmac R now secret rq s = (Inr a, s1)"
    and second: "slack_authentic hmac (now t) secret rq" "\<alpha> t = rs_tick d (\<alpha> s1)" "d \<le> 3600000"
      "slack_webhook hmac R now secret rq t = (Inr b, t1)"
  shows "a = JObj [(''ok'', JBool True)]
    \<and> event_entry_added (\<alpha> s) (\<alpha> s1) [(''event_id'', i), (''type'', ty), (''ts'', ts), (''payload'', rq_body rq)]
    \<and> b = JObj [(''ok'', JBool True), (''duplicate'', JBool True)] \<and> \<alpha> t1 = \<alpha> t"
proof -
  note run = accept_event_run [OF event(2-6), of _ ts] and sim = simulatesD_Inr [OF redis_server.sim_deliver [OF assms(1)]]
  have key: "rs_find (\<alpha> s) (DEDUP_PREFIX @ i) = None" using first(2) by (simp add: DEDUP_PREFIX_def)
  from first(3) have "accept_event R ts (rq_body rq) s = (Inr a, s1)"
    by (simp only: webhook_authentic [of hmac now s secret rq ts R, OF first(1) event(1)])
  from spec_new_event [OF key sim [OF this [unfolded run]]] have
    a: "a = JObj [(''ok'', JBool True)]" "event_entry_added (\<alpha> s) (\<alpha> s1) [(''event_id'', i), (''type'', ty), (''ts'', ts), (''payload'', rq_body rq)]"
    and k1: "rs_find (\<alpha> s1) (DEDUP_PREFIX @ i) = Some (RStr ''1'', Some (rs_now (\<alpha> s1) + 3600000))"
    by (auto simp: DEDUP_TTL_SECONDS_def)
  have "rs_find (\<alpha> t) (DEDUP_PREFIX @ i) \<noteq> None"
    using rs_find_tick_alive [OF k1, of d] second(2,3) by simp
  note old = spec_old_event [OF this]
  from second(4) have "accept_event R ts (rq_body rq) t = (Inr b, t1)"
    by (simp only: webhook_authentic [of hmac now t secret rq ts R, OF second(1) event(1)])
  from sim [OF this [unfolded run]] old a show ?thesis by simp
qed

abbreviation sample_event_body :: string where
  "sample_event_body \<equiv> dumps (JObj [(''type'', JStr ''event_callback''), (''event_id'', JStr ''Ev1'')])"

abbreviation sample_event :: request where
  "sample_event \<equiv> sample_webhook (''v0='' @ ''sec'' @ ''v0:1000:'' @ sample_event_body) sample_event_body"

lemma sample_event_facts:
  "header_get sample_event ''X-Slack-Request-Timestamp'' = Some ''1000''"
  "loads (rq_body sample_event) = Inr (JObj [(''type'', JStr ''event_callback''), (''event_id'', JStr ''Ev1'')])"
  "slack_authentic (\<lambda>k m. k @ m) (Dec 1010 0) ''sec'' sample_event"
proof -
  have "wf_json (JObj [(''type'', JStr ''event_callback''), (''event_id'', JStr ''Ev1'')])" by simp
  from loads_dumps [OF this] show body: "loads (rq_body sample_event) = Inr (JObj [(''type'', JStr ''event_callback''), (''event_id'', JStr ''Ev1'')])"
    by (simp add: sample_webhook_def)
  show ts: "header_get sample_event ''X-Slack-Request-Timestamp'' = Some ''1000''"
    by (simp add: sample_webhook_def header_get_def slack_header_names)
  have sig: "header_get sample_event ''X-Slack-Signature'' = Some (''v0='' @ ''sec'' @ ''v0:1000:'' @ sample_event_body)"
    by (simp add: sample_webhook_def header_get_def slack_header_names)
  have raw: "rq_body sample_event = sample_event_body" by (simp add: sample_webhook_def)
  have "py_float ''1000'' = Some (Fin (Dec 1000 0))" by code_simp
  moreover have "is_ascii (''v0='' @ ''sec'' @ ''v0:1000:'' @ sample_event_body)" by code_simp
  ultimately show "slack_authentic (\<lambda>k m. k @ m) (Dec 1010 0) ''sec'' sample_event"
    unfolding slack_authentic_def using ts sig raw
    by (intro conjI exI [of _ "''1000''"] exI [of _ "''v0='' @ ''sec'' @ ''v0:1000:'' @ sample_event_body"] exI [of _ "Dec 1000 0"])
      (simp_all del: dumps.simps)
qed

theorem webhook_deduplicates_witness:
  "\<exists>a s1 b t1. slack_webhook (\<lambda>k m. k @ m) spec_redis (\<lambda>_. Dec 1010 0) ''sec'' sample_event \<lparr>rs_now = 0, rs_db = []\<rparr> = (Inr a, s1)
    \<and> slack_webhook (\<lambda>k m. k @ m) spec_redis (\<lambda>_. Dec 1010 0) ''sec'' sample_event (rs_tick 5000 s1) = (Inr b, t1)
    \<and> b = JObj [(''ok'', JBool True), (''duplicate'', JBool True)] \<and> t1 = rs_tick 5000 s1"
proof -
  let ?hmac = "\<lambda>k m :: string. k @ m" and ?body = "[(''type'', JStr ''event_callback''), (''event_id'', JStr ''Ev1'')]"
  note facts = sample_event_facts
  have ty: "dict_get_default ?body ''type'' (JStr []) = JStr ''event_callback''" by (simp add: dict_get_default_def)
  have eid: "dict_get ?body ''event_id'' = Some (JStr ''Ev1'')" by simp
  have run: "slack_webhook ?hmac R (\<lambda>_. Dec 1010 0) ''sec'' sample_event s = accept_event R ''1000'' (rq_body sample_event) s" for R :: "'a redis" and s
    using webhook_authentic [of ?hmac "\<lambda>_. Dec 1010 0" s "''sec''" sample_event "''1000''" R] facts(1,3) by simp
  have ne: "''event_callback'' \<noteq> ''url_verification''" "''Ev1'' \<noteq> []" by simp_all
  note acc = accept_event_run [OF facts(2) ty ne(1) eid ne(2)]
  obtain a s1 where first: "slack_webhook ?hmac spec_redis (\<lambda>_. Dec 1010 0) ''sec'' sample_event \<lparr>rs_now = 0, rs_db = []\<rparr> = (Inr a, s1)"
    and key: "rs_find s1 (DEDUP_PREFIX @ ''Ev1'') = Some (RStr ''1'', Some 3600000)" "rs_now s1 = 0"
    unfolding run acc
    by (auto simp: bindM_def rs_set_def rs_find_def rs_xadd_def is_string_key_def rs_stream_def rs_put_stream_def DEDUP_TTL_SECONDS_def
        DEDUP_PREFIX_def EVENTS_STREAM_def alive_def rs_put_def Let_def deadline_def simp del: dumps.simps)
  have "rs_find (rs_tick 5000 s1) (DEDUP_PREFIX @ ''Ev1'') \<noteq> None"
    using rs_find_tick_alive [OF key(1), of 5000] key(2) by simp
  from spec_old_event [OF this] obtain b t1 where
    second: "slack_webhook ?hmac spec_redis (\<lambda>_. Dec 1010 0) ''sec'' sample_event (rs_tick 5000 s1) = (Inr b, t1)"
    unfolding run acc by (simp del: dumps.simps)
  have none: "rs_find \<lparr>rs_now = 0, rs_db = []\<rparr> (''webhook:slack:'' @ ''Ev1'') = None" by (simp add: rs_find_def)
  from webhook_deduplicates [OF spec.redis_server_axioms facts(1,2) ty ne(1) eid ne(2) _ _ first _ _ _ second, of 5000] facts(3) none first second
  show ?thesis by (simp del: dumps.simps)
qed



end
