(* ===== verification/Event_Store.thy ===== *)
theory Event_Store
  imports Py_Strings "HOL-Library.AList"
begin

text \<open>
  The resumption store of \<open>app/mcp/event_store.py\<close>: bounded queues of events per stream, at most
  \<open>MAX_STREAMS\<close> of them with the oldest stream evicted first, and an index from event ids to events.
  The identifier that \<open>uuid4\<close> makes is an argument of \<open>store_event\<close>. The abstract view is the log of
  everything stored so far; the invariant relates the queues and the index to it.
\<close>

section \<open>The store\<close>

record 'm event_entry =
  ee_id :: string
  ee_stream :: string
  ee_message :: "'m option"

record 'm event_store =
  streams :: "(string, 'm event_entry list) dict"
  event_index :: "(string, 'm event_entry) dict"

definition MAX_STREAMS :: nat where
  "MAX_STREAMS = 10000"

definition new_event_store :: "'m event_store" where
  "new_event_store = \<lparr>streams = [], event_index = []\<rparr>"

text \<open>\<open>deque(maxlen=n).append\<close>: what does not fit falls out on the left.\<close>

definition deque_append :: "nat \<Rightarrow> 'a list \<Rightarrow> 'a \<Rightarrow> 'a list" where
  "deque_append n q x = (let ys = q @ [x] in drop (length ys - n) ys)"

definition forget_all :: "'m event_entry list \<Rightarrow> (string, 'm event_entry) dict \<Rightarrow> (string, 'm event_entry) dict" where
  "forget_all q idx = fold (\<lambda>e. AList.delete (ee_id e)) q idx"

definition evict_oldest_stream :: "'m event_store \<Rightarrow> 'm event_store res" where
  "evict_oldest_stream st = (case streams st of
     [] \<Rightarrow> Inl (KeyError ''dictionary is empty'')
   | (_, evicted) # rest \<Rightarrow> Inr \<lparr>streams = rest, event_index = forget_all evicted (event_index st)\<rparr>)"

definition open_stream :: "string \<Rightarrow> 'm event_store \<Rightarrow> 'm event_store res" where
  "open_stream stream_id st =
     (if dict_get (streams st) stream_id = None then
        bind_res (if length (streams st) \<ge> MAX_STREAMS then evict_oldest_stream st else Inr st) (\<lambda>st1.
          Inr (st1\<lparr>streams := dict_set stream_id [] (streams st1)\<rparr>))
      else Inr st)"

definition append_event :: "nat \<Rightarrow> 'm event_entry \<Rightarrow> 'm event_store \<Rightarrow> 'm event_store res" where
  "append_event max_events event_entry st =
     bind_res (dict_item (streams st) (ee_stream event_entry)) (\<lambda>q.
     bind_res (if length q = max_events
               then (case q of [] \<Rightarrow> Inl IndexError
                     | oldest # _ \<Rightarrow> Inr (AList.delete (ee_id oldest) (event_index st)))
               else Inr (event_index st)) (\<lambda>idx.
       Inr \<lparr>streams = dict_set (ee_stream event_entry) (deque_append max_events q event_entry) (streams st),
            event_index = dict_set (ee_id event_entry) event_entry idx\<rparr>))"

definition store_event :: "nat \<Rightarrow> string \<Rightarrow> string \<Rightarrow> 'm option \<Rightarrow> ('m event_store, string) prog" where
  "store_event max_events event_id stream_id message st =
     (let event_entry = \<lparr>ee_id = event_id, ee_stream = stream_id, ee_message = message\<rparr> in
      case open_stream stream_id st of Inl e \<Rightarrow> (Inl e, st)
      | Inr st1 \<Rightarrow> (case append_event max_events event_entry st1 of Inl e \<Rightarrow> (Inl e, st1) | Inr st2 \<Rightarrow> (Inr event_id, st2)))"

text \<open>
  The loop of \<open>replay_events_after\<close>; \<open>send_callback\<close> takes the message and the event id. The store is
  not written while a replay runs.
\<close>

fun replay_loop :: "('m \<Rightarrow> string \<Rightarrow> ('s, unit) prog) \<Rightarrow> string \<Rightarrow> bool \<Rightarrow> 'm event_entry list \<Rightarrow> ('s, unit) prog" where
  "replay_loop send_callback last_event_id found_last [] = ret ()"
| "replay_loop send_callback last_event_id found_last (event # rest) =
     (if found_last then
        bindM (case ee_message event of None \<Rightarrow> ret () | Some m \<Rightarrow> send_callback m (ee_id event))
          (\<lambda>_. replay_loop send_callback last_event_id True rest)
      else replay_loop send_callback last_event_id (ee_id event = last_event_id) rest)"

definition replay_events_after :: "'m event_store \<Rightarrow> string \<Rightarrow> ('m \<Rightarrow> string \<Rightarrow> ('s, unit) prog) \<Rightarrow> ('s, string option) prog" where
  "replay_events_after st last_event_id send_callback =
     (case dict_get (event_index st) last_event_id of
        None \<Rightarrow> ret None
      | Some last_event \<Rightarrow>
          bindM (replay_loop send_callback last_event_id False (dict_get_default (streams st) (ee_stream last_event) []))
            (\<lambda>_. ret (Some (ee_stream last_event))))"

section \<open>The invariant\<close>

text \<open>
  \<open>es_inv n log st\<close>: \<open>log\<close> holds every event stored so far, in order, with distinct ids. Each queue is a
  final piece of the part of the log that belongs to its stream, at most \<open>n\<close> long; the index holds
  exactly the queued events.
\<close>

definition of_stream :: "string \<Rightarrow> 'm event_entry list \<Rightarrow> 'm event_entry list" where
  "of_stream sid log = filter (\<lambda>e. ee_stream e = sid) log"

definition queued :: "'m event_store \<Rightarrow> 'm event_entry set" where
  "queued st = {e. \<exists>sid q. dict_get (streams st) sid = Some q \<and> e \<in> set q}"

definition es_inv :: "nat \<Rightarrow> 'm event_entry list \<Rightarrow> 'm event_store \<Rightarrow> bool" where
  "es_inv n log st \<longleftrightarrow> distinct (map ee_id log) \<and> distinct (map fst (streams st)) \<and> length (streams st) \<le> MAX_STREAMS
     \<and> (\<forall>sid q. dict_get (streams st) sid = Some q \<longrightarrow> length q \<le> n \<and> suffix q (of_stream sid log))
     \<and> (\<forall>eid e. dict_get (event_index st) eid = Some e \<longleftrightarrow> e \<in> queued st \<and> ee_id e = eid)"

lemma es_inv_new: "es_inv n [] new_event_store"
  by (simp add: es_inv_def new_event_store_def queued_def)

lemma of_stream_simps [simp]:
  "of_stream sid [] = []"
  "of_stream sid (xs @ [e]) = (if ee_stream e = sid then of_stream sid xs @ [e] else of_stream sid xs)"
  by (simp_all add: of_stream_def)

lemma in_of_stream [simp]: "e \<in> set (of_stream sid log) \<longleftrightarrow> e \<in> set log \<and> ee_stream e = sid"
  by (auto simp: of_stream_def)

lemma es_invD:
  assumes "es_inv n log st"
  shows "distinct (map ee_id log)" "distinct (map fst (streams st))" "length (streams st) \<le> MAX_STREAMS"
    and "dict_get (streams st) sid = Some q \<Longrightarrow> length q \<le> n \<and> suffix q (of_stream sid log)"
    and "dict_get (event_index st) eid = Some e \<longleftrightarrow> e \<in> queued st \<and> ee_id e = eid"
  using assms unfolding es_inv_def by auto

lemma queued_in_log:
  assumes inv: "es_inv n log st" and e: "dict_get (streams st) sid = Some q" "e \<in> set q"
  shows "e \<in> set log \<and> ee_stream e = sid"
proof -
  from es_invD(4) [OF inv e(1)] have "set q \<subseteq> set (of_stream sid log)" by (auto dest: set_mono_suffix)
  with e(2) show ?thesis by auto
qed

lemma dict_get_delete [simp]: "dict_get (AList.delete k d) k' = (if k' = k then None else dict_get d k')"
  by (simp add: delete_conv')

lemma dict_get_forget_all:
  "dict_get (forget_all q idx) k = (if k \<in> ee_id ` set q then None else dict_get idx k)"
  unfolding forget_all_def by (induction q arbitrary: idx) auto

lemma same_id:
  assumes "es_inv n log st" "e \<in> set log" "e' \<in> set log" "ee_id e = ee_id e'"
  shows "e = e'"
  using assms es_invD(1) [OF assms(1)] by (metis distinct_map inj_onD)

lemma queued_inj: "es_inv n log st \<Longrightarrow> e \<in> queued st \<Longrightarrow> e' \<in> queued st \<Longrightarrow> ee_id e = ee_id e' \<Longrightarrow> e = e'"
  by (simp add: queued_def) (metis queued_in_log same_id)

text \<open>Evicting the oldest stream and opening a new one keep it.\<close>

lemma evict_inv:
  assumes inv: "es_inv n log st" and str: "streams st = (sid, q) # rest"
  shows "es_inv n log \<lparr>streams = rest, event_index = forget_all q (event_index st)\<rparr>"
proof -
  let ?st = "\<lparr>streams = rest, event_index = forget_all q (event_index st)\<rparr>"
  have dis: "distinct (map fst ((sid, q) # rest))" using es_invD(2) [OF inv] str by simp
  then have gets: "dict_get (streams st) k = Some r \<longleftrightarrow> (k = sid \<and> r = q) \<or> dict_get rest k = Some r" for k r
    by (force simp: str dest: map_of_SomeD)
  have rest: "dict_get rest sid = None" using dis by (simp add: map_of_eq_None_iff)
  have q: "dict_get (streams st) sid = Some q" by (simp add: str)
  have split: "queued st = set q \<union> queued ?st" using gets by (auto simp: queued_def)
  have "e \<notin> set q" if "e \<in> queued ?st" for e
  proof
    from that obtain k r where k: "dict_get rest k = Some r" "e \<in> set r" by (auto simp: queued_def)
    assume "e \<in> set q"
    with queued_in_log [OF inv q] have "ee_stream e = sid" by blast
    moreover from k gets have "dict_get (streams st) k = Some r" by blast
    with queued_in_log [OF inv this k(2)] have "ee_stream e = k" by blast
    ultimately show False using k rest by simp
  qed
  with split queued_inj [OF inv] have "e \<in> queued ?st \<longleftrightarrow> e \<in> queued st \<and> ee_id e \<notin> ee_id ` set q" for e
    by (metis (no_types, lifting) UnCI UnE image_iff)
  then have idx: "dict_get (event_index ?st) eid = Some e \<longleftrightarrow> e \<in> queued ?st \<and> ee_id e = eid" for eid e
    using es_invD(5) [OF inv, of eid e] by (auto simp: dict_get_forget_all)
  have "length r \<le> n \<and> suffix r (of_stream k log)" if "dict_get rest k = Some r" for k r
    using es_invD(4) [OF inv, of k r] gets [of k r] that by blast
  then show ?thesis using es_invD(1,3) [OF inv] dis idx by (simp add: es_inv_def str)
qed

lemma open_inv:
  assumes inv: "es_inv n log st"
  shows "\<exists>st1 q. open_stream sid st = Inr st1 \<and> es_inv n log st1 \<and> dict_get (streams st1) sid = Some q"
proof (cases "dict_get (streams st) sid")
  case None
  have add: "es_inv n log (st1\<lparr>streams := dict_set sid [] (streams st1)\<rparr>)"
    if i1: "es_inv n log st1" and new: "dict_get (streams st1) sid = None" and room: "length (streams st1) < MAX_STREAMS" for st1
  proof -
    have "sid \<notin> fst ` set (streams st1)" using new by (simp add: map_of_eq_None_iff)
    then have len: "length (dict_set sid [] (streams st1)) = Suc (length (streams st1))" by (simp add: dict_set_new)
    have "(\<exists>q. dict_get (dict_set sid [] (streams st1)) k = Some q \<and> e \<in> set q)
        \<longleftrightarrow> (\<exists>q. dict_get (streams st1) k = Some q \<and> e \<in> set q)" for k e using new by simp
    then have q: "queued (st1\<lparr>streams := dict_set sid [] (streams st1)\<rparr>) = queued st1" by (simp add: queued_def)
    have "length p \<le> n \<and> suffix p (of_stream k log)" if "dict_get (dict_set sid [] (streams st1)) k = Some p" for k p
      using that es_invD(4) [OF i1, of k p] by (simp split: if_splits)
    then show ?thesis
      using i1 dict_set_keys [OF es_invD(2) [OF i1]] room by (simp add: es_inv_def q len)
  qed
  show ?thesis
  proof (cases "length (streams st) \<ge> MAX_STREAMS")
    case True
    then obtain sid0 q0 rest where str: "streams st = (sid0, q0) # rest"
      by (cases "streams st") (auto simp: MAX_STREAMS_def)
    from None str es_invD(3) [OF inv] True have "dict_get rest sid = None" "length rest < MAX_STREAMS"
      by (auto split: if_splits)
    with add [OF evict_inv [OF inv str]] None True str show ?thesis
      by (simp add: open_stream_def evict_oldest_stream_def)
  qed (use None add [OF inv] in \<open>simp add: open_stream_def\<close>)
qed (use inv in \<open>simp add: open_stream_def\<close>)

text \<open>Appending an event with a fresh id to an open stream keeps the invariant for the longer log.\<close>

lemma deque_append_suffix:
  assumes "suffix q xs" "length q \<le> n"
  shows "suffix (deque_append n q x) (xs @ [x])" "length (deque_append n q x) \<le> n"
proof -
  from assms(1) obtain ys where "xs = ys @ q" by (auto simp: suffix_def)
  then have "suffix (q @ [x]) (xs @ [x])" by (simp add: suffix_def)
  then show "suffix (deque_append n q x) (xs @ [x])"
    unfolding deque_append_def Let_def by (rule suffix_order.trans [OF suffix_drop])
qed (use assms in \<open>simp add: deque_append_def Let_def\<close>)

lemma deque_append_set:
  assumes "distinct q" "length q \<le> n" "0 < n"
  shows "set (deque_append n q x) = insert x (if length q = n then set q - {hd q} else set q)"
proof (cases "length q = n")
  case True
  with assms obtain y q' where y: "q = y # q'" by (cases q) auto
  with True have "deque_append n q x = q' @ [x]" by (auto simp: deque_append_def Let_def)
  with y True assms(1) show ?thesis by auto
next
  case False
  with assms(2) have "deque_append n q x = q @ [x]" by (simp add: deque_append_def Let_def)
  with False show ?thesis by simp
qed

text \<open>The queued events after an append: the new one, and the old ones but for the one that fell out.\<close>

lemma append_queued:
  assumes inv: "es_inv n log st" and q: "dict_get (streams st) sid = Some q" and n: "0 < n"
    and q': "dict_get (streams st2) = (dict_get (streams st))(sid \<mapsto> deque_append n q e)"
  shows "x \<in> queued st2 \<longleftrightarrow> x = e \<or> (x \<in> queued st \<and> (length q = n \<longrightarrow> x \<noteq> hd q))"
proof -
  have "distinct (map ee_id (of_stream sid log))"
    using es_invD(1) [OF inv] by (simp add: of_stream_def distinct_map_filter)
  with es_invD(4) [OF inv q] have gone: "set (deque_append n q e) = insert e (if length q = n then set q - {hd q} else set q)"
    by (intro deque_append_set [OF _ _ n]) (auto simp: suffix_def distinct_map)
  have hd: "hd q \<in> set q" if "length q = n" using n that by (cases q) auto
  define others where "others = (\<exists>k r. k \<noteq> sid \<and> dict_get (streams st) k = Some r \<and> x \<in> set r)"
  have "x \<in> queued st2 \<longleftrightarrow> x \<in> set (deque_append n q e) \<or> others"
    by (auto simp: queued_def others_def q' split: if_splits)
  moreover have "x \<in> queued st \<longleftrightarrow> x \<in> set q \<or> others"
  proof -
    have "(\<exists>k r. dict_get (streams st) k = Some r \<and> x \<in> set r) \<longleftrightarrow> x \<in> set q \<or> others"
      unfolding others_def using q by (metis option.inject)
    then show ?thesis by (simp add: queued_def)
  qed
  moreover have "x \<noteq> hd q" if others "length q = n"
    using that queued_in_log [OF inv] queued_in_log [OF inv q hd] by (auto simp: others_def)
  ultimately show ?thesis by (auto simp: gone split: if_splits)
qed

lemma append_inv:
  assumes inv: "es_inv n log st" and q: "dict_get (streams st) (ee_stream e) = Some q"
    and fresh: "ee_id e \<notin> ee_id ` set log" and n: "0 < n"
  shows "\<exists>st2. append_event n e st = Inr st2 \<and> es_inv n (log @ [e]) st2
    \<and> dict_get (streams st2) (ee_stream e) = Some (deque_append n q e)"
proof -
  let ?sid = "ee_stream e" and ?q' = "deque_append n q e"
  define idx where "idx = (if length q = n then AList.delete (ee_id (hd q)) (event_index st) else event_index st)"
  define st2 where "st2 = \<lparr>streams = dict_set ?sid ?q' (streams st), event_index = dict_set (ee_id e) e idx\<rparr>"
  note qlen = es_invD(4) [OF inv q]
  have run: "append_event n e st = Inr st2"
    using n q by (cases q) (auto simp: append_event_def dict_item_def idx_def st2_def)
  have qd: "x \<in> queued st2 \<longleftrightarrow> x = e \<or> (x \<in> queued st \<and> (length q = n \<longrightarrow> x \<noteq> hd q))" for x
    by (rule append_queued [OF inv q n]) (auto simp: st2_def fun_eq_iff)
  have idx: "dict_get (event_index st2) eid = Some x \<longleftrightarrow> x \<in> queued st2 \<and> ee_id x = eid" for eid x
  proof -
    have old: "ee_id x \<noteq> ee_id e" if "x \<in> queued st"
      using that fresh by (simp add: queued_def) (metis imageI queued_in_log [OF inv])
    have inj: "ee_id x = ee_id (hd q) \<longleftrightarrow> x = hd q" if "x \<in> queued st" "length q = n"
    proof -
      from that n have "hd q \<in> set q" by (cases q) auto
      with q have "hd q \<in> queued st" unfolding queued_def by blast
      then show ?thesis using queued_inj [OF inv that(1)] by blast
    qed
    have ix: "dict_get (event_index st2) eid = (if eid = ee_id e then Some e
        else if length q = n \<and> eid = ee_id (hd q) then None else dict_get (event_index st) eid)"
      by (simp add: st2_def idx_def)
    show ?thesis unfolding ix qd using es_invD(5) [OF inv, of eid x] old inj by auto
  qed
  have "length r \<le> n \<and> suffix r (of_stream k (log @ [e]))" if "dict_get (streams st2) k = Some r" for k r
    using that qlen deque_append_suffix [of q "of_stream ?sid log" n e] es_invD(4) [OF inv, of k r]
    by (auto simp: st2_def split: if_splits)
  moreover have "length (streams st2) \<le> MAX_STREAMS"
  proof -
    have "?sid \<in> fst ` set (streams st)" using q by (metis map_of_eq_None_iff option.distinct(1))
    then have "fst ` set (streams st2) = fst ` set (streams st)" by (auto simp: st2_def dom_update)
    with es_invD(2,3) [OF inv] dict_set_keys [OF es_invD(2) [OF inv]] show ?thesis
      by (metis (no_types, lifting) distinct_card event_store.select_convs(1) length_map list.set_map st2_def)
  qed
  ultimately have "es_inv n (log @ [e]) st2"
    using es_invD(1) [OF inv] dict_set_keys [OF es_invD(2) [OF inv]] idx fresh by (auto simp: es_inv_def st2_def)
  with run show ?thesis by (simp add: st2_def)
qed

section \<open>Runs of the store\<close>

abbreviation entry :: "string \<times> string \<times> 'm option \<Rightarrow> 'm event_entry" where
  "entry \<equiv> (\<lambda>(eid, sid, msg). \<lparr>ee_id = eid, ee_stream = sid, ee_message = msg\<rparr>)"

primrec store_all :: "nat \<Rightarrow> (string \<times> string \<times> 'm option) list \<Rightarrow> ('m event_store, unit) prog" where
  "store_all n [] = ret ()"
| "store_all n (x # xs) = bindM (store_event n (fst x) (fst (snd x)) (snd (snd x))) (\<lambda>_. store_all n xs)"

lemma store_event_step:
  assumes "es_inv n log st" "eid \<notin> ee_id ` set log" "0 < n"
  shows "\<exists>st'. store_event n eid sid msg st = (Inr eid, st') \<and> es_inv n (log @ [entry (eid, sid, msg)]) st'"
proof -
  from open_inv [OF assms(1), of sid] obtain st1 q where o: "open_stream sid st = Inr st1" "es_inv n log st1"
    "dict_get (streams st1) sid = Some q" by blast
  from append_inv [OF o(2), of "entry (eid, sid, msg)" q] o(3) assms(2,3)
  obtain st2 where "append_event n (entry (eid, sid, msg)) st1 = Inr st2" "es_inv n (log @ [entry (eid, sid, msg)]) st2" by auto
  then show ?thesis using o(1) by (simp add: store_event_def)
qed

lemma store_all_step:
  assumes "es_inv n log st" "distinct (map ee_id log @ map fst evs)" "0 < n"
  shows "\<exists>st'. store_all n evs st = (Inr (), st') \<and> es_inv n (log @ map entry evs) st'"
  using assms
proof (induction evs arbitrary: log st)
  case (Cons x evs)
  obtain eid sid msg where x: "x = (eid, sid, msg)" by (cases x)
  from Cons.prems x have "eid \<notin> ee_id ` set log" by auto
  from store_event_step [OF Cons.prems(1) this Cons.prems(3), of sid msg] obtain st1 where
    st1: "store_event n eid sid msg st = (Inr eid, st1)" "es_inv n (log @ [entry x]) st1" using x by auto
  have "distinct (map ee_id (log @ [entry x]) @ map fst evs)" using Cons.prems(2) x by auto
  from Cons.IH [OF st1(2) this Cons.prems(3)] st1(1) show ?case by (auto simp: bindM_def x)
qed simp

section \<open>What a replay sends\<close>

definition after :: "string \<Rightarrow> 'm event_entry list \<Rightarrow> 'm event_entry list" where
  "after eid xs = drop 1 (dropWhile (\<lambda>e. ee_id e \<noteq> eid) xs)"

definition messages :: "'m event_entry list \<Rightarrow> ('m \<times> string) list" where
  "messages xs = concat (map (\<lambda>e. case ee_message e of None \<Rightarrow> [] | Some m \<Rightarrow> [(m, ee_id e)]) xs)"

primrec send_all :: "('m \<Rightarrow> string \<Rightarrow> ('s, unit) prog) \<Rightarrow> ('m \<times> string) list \<Rightarrow> ('s, unit) prog" where
  "send_all send [] = ret ()"
| "send_all send (x # xs) = bindM (send (fst x) (snd x)) (\<lambda>_. send_all send xs)"

lemma replay_loop_found: "replay_loop send eid True xs = send_all send (messages xs)"
  by (induction xs) (auto simp: messages_def split: option.split)

lemma replay_loop_search: "replay_loop send eid False xs = send_all send (messages (after eid xs))"
  by (induction xs) (auto simp: after_def replay_loop_found messages_def)

lemma after_suffix:
  assumes "suffix q xs" "distinct (map ee_id xs)" "e \<in> set q"
  shows "after (ee_id e) q = after (ee_id e) xs"
proof -
  from assms(1) obtain ys where xs: "xs = ys @ q" by (auto simp: suffix_def)
  with assms(2,3) have "\<forall>y \<in> set ys. ee_id y \<noteq> ee_id e" by (auto simp: image_iff)
  then show ?thesis by (simp add: after_def xs dropWhile_append2)
qed

lemma replay_retained:
  assumes inv: "es_inv n log st" and e: "dict_get (event_index st) eid = Some e"
  shows "ee_id e = eid" "e \<in> set log"
    "replay_events_after st eid send = bindM (send_all send (messages (after eid (of_stream (ee_stream e) log))))
      (\<lambda>_. ret (Some (ee_stream e)))"
proof -
  from es_invD(5) [OF inv] e have q: "e \<in> queued st" and id: "ee_id e = eid" by blast+
  then obtain sid q where q: "dict_get (streams st) sid = Some q" "e \<in> set q" by (auto simp: queued_def)
  from queued_in_log [OF inv q] have s: "ee_stream e = sid" and log: "e \<in> set log" by simp_all
  have "distinct (map ee_id (of_stream sid log))"
    using es_invD(1) [OF inv] by (simp add: of_stream_def distinct_map_filter)
  with after_suffix [OF _ this q(2)] es_invD(4) [OF inv q(1)] have "after eid q = after eid (of_stream sid log)"
    by (simp add: id)
  then show "replay_events_after st eid send = bindM (send_all send (messages (after eid (of_stream (ee_stream e) log))))
      (\<lambda>_. ret (Some (ee_stream e)))"
    by (simp add: replay_events_after_def e replay_loop_search s q dict_get_default_def)
  show "ee_id e = eid" "e \<in> set log" by fact+
qed

section \<open>What is retained\<close>

text \<open>As long as no stream has been evicted, every queue is the last \<open>n\<close> events of its stream.\<close>

definition last_n :: "nat \<Rightarrow> 'a list \<Rightarrow> 'a list" where
  "last_n n xs = drop (length xs - n) xs"

definition es_full :: "nat \<Rightarrow> 'm event_entry list \<Rightarrow> 'm event_store \<Rightarrow> bool" where
  "es_full n log st \<longleftrightarrow> (\<forall>sid. dict_get (streams st) sid =
     (if sid \<in> ee_stream ` set log then Some (last_n n (of_stream sid log)) else None))"

lemma deque_append_last_n: "deque_append n (last_n n xs) x = last_n n (xs @ [x])"
  by (cases "length xs \<le> n") (auto simp: deque_append_def last_n_def Let_def Suc_diff_le)

lemma of_stream_none: "sid \<notin> ee_stream ` set log \<Longrightarrow> of_stream sid log = []"
  by (auto simp: of_stream_def filter_empty_conv)

lemma store_event_full:
  assumes inv: "es_inv n log st" and full: "es_full n log st" and fresh: "eid \<notin> ee_id ` set log" and n: "0 < n"
    and few: "card (insert sid (ee_stream ` set log)) \<le> MAX_STREAMS"
    and run: "store_event n eid sid msg st = (Inr r, st')"
  shows "es_full n (log @ [entry (eid, sid, msg)]) st'"
proof -
  have dom: "fst ` set (streams st) = ee_stream ` set log"
    using full unfolding es_full_def by (force simp: dom_map_of_conv_image_fst [symmetric] dom_def)
  with distinct_card [OF es_invD(2) [OF inv]] have len: "length (streams st) = card (ee_stream ` set log)" by simp
  obtain st1 where st1: "open_stream sid st = Inr st1" "es_inv n log st1"
    using open_inv [OF inv] by blast
  have s1: "dict_get (streams st1) = (dict_get (streams st))(sid \<mapsto> last_n n (of_stream sid log))"
  proof (cases "sid \<in> ee_stream ` set log")
    case True
    then show ?thesis using full st1(1) by (auto simp: open_stream_def es_full_def fun_eq_iff)
  next
    case False
    then have "length (streams st) < MAX_STREAMS" using few len by simp
    moreover have "dict_get (streams st) sid = None" using full False by (simp add: es_full_def)
    ultimately show ?thesis using st1(1) by (auto simp: open_stream_def of_stream_none [OF False] last_n_def fun_eq_iff)
  qed
  then have g: "dict_get (streams st1) (ee_stream (entry (eid, sid, msg))) = Some (last_n n (of_stream sid log))" by simp
  have g': "dict_get (streams st1) sid = Some (last_n n (of_stream sid log))" using s1 by simp
  from append_inv [OF st1(2) g] fresh n run st1(1) have "append_event n (entry (eid, sid, msg)) st1 = Inr st'"
    by (auto simp: store_event_def)
  then have "dict_get (streams st') = (dict_get (streams st1))(sid \<mapsto> last_n n (of_stream sid log @ [entry (eid, sid, msg)]))"
    using g' by (auto simp: append_event_def dict_item_def deque_append_last_n bind_res_def fun_eq_iff split: sum.splits if_splits list.splits)
  then show ?thesis using s1 full by (auto simp: es_full_def)
qed

lemma store_all_full:
  assumes "es_inv n log st" "es_full n log st" "distinct (map ee_id log @ map fst evs)" "0 < n"
    and "card (ee_stream ` set (log @ map entry evs)) \<le> MAX_STREAMS" "store_all n evs st = (Inr r, st')"
  shows "es_full n (log @ map entry evs) st'"
  using assms
proof (induction evs arbitrary: log st)
  case (Cons x evs)
  obtain eid sid msg where x: "x = (eid, sid, msg)" by (cases x)
  from Cons.prems x have fresh: "eid \<notin> ee_id ` set log" by auto
  from store_event_step [OF Cons.prems(1) this Cons.prems(4), of sid msg] obtain st1 where
    st1: "store_event n eid sid msg st = (Inr eid, st1)" "es_inv n (log @ [entry x]) st1" using x by auto
  have "card (insert sid (ee_stream ` set log)) \<le> card (ee_stream ` set (log @ map entry (x # evs)))"
    by (rule card_mono) (auto simp: x)
  then have "es_full n (log @ [entry x]) st1"
    using store_event_full [OF Cons.prems(1,2) fresh Cons.prems(4) _ st1(1)] Cons.prems(5) x by simp
  from Cons.IH [OF st1(2) this _ Cons.prems(4)] Cons.prems(3,5,6) st1(1) show ?case by (simp add: bindM_def x)
qed simp

section \<open>Properties\<close>

text \<open>
  C18: resumption is exact. After any sequence of stores with distinct ids, at most \<open>MAX_STREAMS\<close>
  streams of at most \<open>n\<close> events each are held, and for every id: if it is not in the index, a replay
  sends nothing and gives no stream; if it is, the replay sends, in order, every message that was
  stored for that event's stream after it, none left out and none of another stream, and gives the
  stream.
\<close>

theorem event_store_replay:
  assumes "distinct (map fst evs)" "0 < n"
  shows "\<exists>st. store_all n evs new_event_store = (Inr (), st) \<and> length (streams st) \<le> MAX_STREAMS
    \<and> (\<forall>sid q. dict_get (streams st) sid = Some q \<longrightarrow> length q \<le> n)
    \<and> (\<forall>eid. dict_get (event_index st) eid = None \<longrightarrow> replay_events_after st eid send = ret None)
    \<and> (\<forall>eid e. dict_get (event_index st) eid = Some e \<longrightarrow> e \<in> set (map entry evs) \<and> ee_id e = eid
        \<and> replay_events_after st eid send =
            bindM (send_all send (messages (after eid (of_stream (ee_stream e) (map entry evs))))) (\<lambda>_. ret (Some (ee_stream e))))"
proof -
  from store_all_step [OF es_inv_new, of evs n] assms obtain st where
    st: "store_all n evs new_event_store = (Inr (), st)" "es_inv n (map entry evs) st" by auto
  have "replay_events_after st eid send = ret None" if "dict_get (event_index st) eid = None" for eid
    using that by (simp add: replay_events_after_def)
  then show ?thesis using st(1) es_invD(3) [OF st(2)] es_invD(4) [OF st(2)] replay_retained [OF st(2)]
    by (intro exI [of _ st]) auto
qed

abbreviation sample_events :: "(string \<times> string \<times> nat option) list" where
  "sample_events \<equiv> [(''a'', ''s'', Some 1), (''b'', ''t'', Some 2), (''c'', ''s'', None), (''d'', ''s'', Some 4)]"

theorem event_store_replay_witness:
  "\<exists>st. store_all 3 sample_events new_event_store = (Inr (), st)
    \<and> replay_events_after st ''a'' (\<lambda>m i s. (Inr (), s @ [(m, i)])) [] = (Inr (Some ''s''), [(4, ''d'')])"
proof -
  have run: "dict_get (event_index (snd (store_all 3 sample_events new_event_store))) ''a'' = Some (entry (''a'', ''s'', Some 1))"
    by code_simp
  have rest: "messages (after ''a'' (of_stream ''s'' (map entry sample_events))) = [(4, ''d'')]" by code_simp
  have hyps: "distinct (map fst sample_events)" "0 < (3::nat)" by simp_all
  from event_store_replay [OF hyps, of "\<lambda>m i s. (Inr (), s @ [(m, i)])"] obtain st where
    st: "store_all 3 sample_events new_event_store = (Inr (), st)"
    and rep: "\<And>eid e. dict_get (event_index st) eid = Some e \<Longrightarrow> replay_events_after st eid (\<lambda>m i s. (Inr (), s @ [(m, i)])) =
      bindM (send_all (\<lambda>m i s. (Inr (), s @ [(m, i)])) (messages (after eid (of_stream (ee_stream e) (map entry sample_events)))))
        (\<lambda>_. ret (Some (ee_stream e)))" by blast
  from run st have "dict_get (event_index st) ''a'' = Some (entry (''a'', ''s'', Some 1))" by (simp only: snd_conv)
  from rep [OF this] have "replay_events_after st ''a'' (\<lambda>m i s. (Inr (), s @ [(m, i)])) [] = (Inr (Some ''s''), [(4, ''d'')])"
    using rest by (simp add: bindM_def)
  with st show ?thesis by blast
qed

text \<open>
  C29: what is retained. While no more than \<open>MAX_STREAMS\<close> streams have been used, the queue of each
  stream is the last \<open>n\<close> events stored for it, so an id can be resumed from exactly when fewer than \<open>n\<close>
  later events of its stream have been stored.
\<close>

theorem event_store_retention:
  assumes "distinct (map fst evs)" "0 < n" "card (set (map (fst \<circ> snd) evs)) \<le> MAX_STREAMS"
  shows "\<exists>st. store_all n evs new_event_store = (Inr (), st)
    \<and> (\<forall>eid e. dict_get (event_index st) eid = Some e \<longleftrightarrow>
        ee_id e = eid \<and> e \<in> set (last_n n (of_stream (ee_stream e) (map entry evs))))"
proof -
  from store_all_step [OF es_inv_new, of evs n] assms(1,2) obtain st where
    st: "store_all n evs new_event_store = (Inr (), st)" "es_inv n (map entry evs) st" by auto
  have "ee_stream ` set (map entry evs) = set (map (fst \<circ> snd) evs)" by (force simp: image_iff)
  with store_all_full [OF es_inv_new _ _ assms(2) _ st(1)] assms(1,3) have full: "es_full n (map entry evs) st"
    by (simp add: es_full_def new_event_store_def)
  have "e \<in> queued st \<longleftrightarrow> e \<in> set (last_n n (of_stream (ee_stream e) (map entry evs)))" for e
  proof
    assume "e \<in> queued st"
    then obtain sid q where q: "dict_get (streams st) sid = Some q" "e \<in> set q" by (auto simp: queued_def)
    with queued_in_log [OF st(2) q] full show "e \<in> set (last_n n (of_stream (ee_stream e) (map entry evs)))"
      by (auto simp: es_full_def split: if_splits)
  next
    assume e: "e \<in> set (last_n n (of_stream (ee_stream e) (map entry evs)))"
    then have "e \<in> set (of_stream (ee_stream e) (map entry evs))" by (auto simp: last_n_def dest: in_set_dropD)
    then have "ee_stream e \<in> ee_stream ` set (map entry evs)" by simp
    with e full show "e \<in> queued st" unfolding es_full_def queued_def by (metis (mono_tags, lifting) mem_Collect_eq)
  qed
  then show ?thesis using st(1) es_invD(5) [OF st(2)] by (intro exI [of _ st]) auto
qed

theorem event_store_retention_witness:
  "\<exists>st. store_all 2 sample_events new_event_store = (Inr (), st)
    \<and> dict_get (event_index st) ''c'' = Some (entry (''c'', ''s'', None)) \<and> dict_get (event_index st) ''a'' \<noteq> Some (entry (''a'', ''s'', Some 1))"
proof -
  have few: "card (set (map (fst \<circ> snd) sample_events)) \<le> MAX_STREAMS"
    by (simp add: MAX_STREAMS_def card_insert_if)
  have kept: "last_n 2 (of_stream ''s'' (map entry sample_events)) = [entry (''c'', ''s'', None), entry (''d'', ''s'', Some 4)]" by code_simp
  from event_store_retention [of sample_events 2] few kept show ?thesis by auto
qed

end
