(* ===== verification/Config.thy ===== *)
theory Config
  imports Web_Types
begin

text \<open>
  The settings of \<open>app/config.py\<close> with their defaults. Reading them from the environment is the settings library's;
  the directory for temporary files is a parameter.
\<close>

record settings =
  cf_PROJECT_NAME :: string
  cf_VERSION :: string
  cf_DEBUG :: bool
  cf_REDIS_URL :: string
  cf_CLIENT_REGISTRY_TTL :: int
  cf_RATE_LIMIT_ENABLED :: bool
  cf_RATE_LIMIT_MAX_REQUESTS :: int
  cf_RATE_LIMIT_WINDOW_SECONDS :: int
  cf_OAUTH_ISSUER_URL :: string
  cf_OAUTH_JWKS_URL :: string
  cf_OAUTH_EXPECTED_AUDIENCE :: string
  cf_OAUTH_JWKS_CACHE_TTL :: int
  cf_GATEWAY_BASE_URL :: string
  cf_ALLOWED_ORIGINS :: "string list"
  cf_GOOGLE_CLIENT_ID :: string
  cf_GOOGLE_CLIENT_SECRET :: string
  cf_GOOGLE_TOKEN_ENCRYPTION_KEY :: string
  cf_GOOGLE_SHARED_REFRESH_TOKEN :: string
  cf_GOOGLE_DRIVE_TIMEOUT :: dec
  cf_GOOGLE_DRIVE_MAX_CONNECTIONS :: int
  cf_GOOGLE_DRIVE_MAX_KEEPALIVE :: int
  cf_GOOGLE_DRIVE_MAX_RETRIES :: int
  cf_SLACK_TOKEN_ENCRYPTION_KEY :: string
  cf_SLACK_TIMEOUT :: dec
  cf_SLACK_MAX_RETRIES :: int
  cf_SLACK_SIGNING_SECRET :: string
  cf_SLACK_SHARED_BOT_TOKEN :: string
  cf_SLACK_SHARED_USER_TOKEN :: string
  cf_EXPORT_DIR :: string
  cf_DCR_REGISTRATION_ENDPOINT :: string
  cf_DCR_INITIAL_ACCESS_TOKEN :: string

definition default_settings :: "string \<Rightarrow> settings" where
  "default_settings tempdir = \<lparr>
     cf_PROJECT_NAME = ''MCP Agent Gateway'', cf_VERSION = ''0.1.0'', cf_DEBUG = False,
     cf_REDIS_URL = [], cf_CLIENT_REGISTRY_TTL = 86400,
     cf_RATE_LIMIT_ENABLED = True, cf_RATE_LIMIT_MAX_REQUESTS = 100, cf_RATE_LIMIT_WINDOW_SECONDS = 60,
     cf_OAUTH_ISSUER_URL = ''http://localhost:8080/realms/mcp-gateway'', cf_OAUTH_JWKS_URL = [],
     cf_OAUTH_EXPECTED_AUDIENCE = ''http://localhost:8000/mcp/'', cf_OAUTH_JWKS_CACHE_TTL = 3600,
     cf_GATEWAY_BASE_URL = ''http://localhost:8000'', cf_ALLOWED_ORIGINS = [],
     cf_GOOGLE_CLIENT_ID = [], cf_GOOGLE_CLIENT_SECRET = [], cf_GOOGLE_TOKEN_ENCRYPTION_KEY = [], cf_GOOGLE_SHARED_REFRESH_TOKEN = [],
     cf_GOOGLE_DRIVE_TIMEOUT = Dec 100 1, cf_GOOGLE_DRIVE_MAX_CONNECTIONS = 100, cf_GOOGLE_DRIVE_MAX_KEEPALIVE = 20,
     cf_GOOGLE_DRIVE_MAX_RETRIES = 3,
     cf_SLACK_TOKEN_ENCRYPTION_KEY = [], cf_SLACK_TIMEOUT = Dec 80 1, cf_SLACK_MAX_RETRIES = 3, cf_SLACK_SIGNING_SECRET = [],
     cf_SLACK_SHARED_BOT_TOKEN = [], cf_SLACK_SHARED_USER_TOKEN = [],
     cf_EXPORT_DIR = path_join tempdir ''mcp-exports'', cf_DCR_REGISTRATION_ENDPOINT = [], cf_DCR_INITIAL_ACCESS_TOKEN = []\<rparr>"

definition jwks_uri :: "settings \<Rightarrow> string" where
  "jwks_uri cfg = (let base = (if cf_OAUTH_JWKS_URL cfg = [] then cf_OAUTH_ISSUER_URL cfg else cf_OAUTH_JWKS_URL cfg)
     in base @ ''/protocol/openid-connect/certs'')"

end
