(* ===== verification/Gateway.thy ===== *)
theory Gateway
  imports Middleware Authorization Lifespan Webhooks Event_Store Config
begin

text \<open>
  The assembled application: the route table of \<open>app/main.py\<close> with the routers it includes, what the routes get from
  \<open>app.state\<close> (\<open>app/shared/dependencies.py\<close>), the settings each part is given, the session manager of
  \<open>app/mcp/server.py\<close> and its installation (\<open>app/mcp/app.py\<close>). The web framework's own part is a parameter, the
  record \<open>framework\<close>: its documentation pages, how it reads an integer query parameter and how it
  answers one that is invalid, and the URL of a request with another path.
\<close>

section \<open>Settings of the parts\<close>

definition auth_settings_of :: "settings \<Rightarrow> auth_settings" where
  "auth_settings_of cfg = \<lparr>OAUTH_ISSUER_URL = cf_OAUTH_ISSUER_URL cfg, OAUTH_EXPECTED_AUDIENCE = cf_OAUTH_EXPECTED_AUDIENCE cfg\<rparr>"

definition rl_settings_of :: "settings \<Rightarrow> rl_settings" where
  "rl_settings_of cfg = \<lparr>RATE_LIMIT_ENABLED = cf_RATE_LIMIT_ENABLED cfg, RATE_LIMIT_MAX_REQUESTS = cf_RATE_LIMIT_MAX_REQUESTS cfg,
     RATE_LIMIT_WINDOW_SECONDS = cf_RATE_LIMIT_WINDOW_SECONDS cfg\<rparr>"

definition registration_settings_of :: "settings \<Rightarrow> registration_settings" where
  "registration_settings_of cfg = \<lparr>rs_dcr_endpoint = cf_DCR_REGISTRATION_ENDPOINT cfg, rs_dcr_token = cf_DCR_INITIAL_ACCESS_TOKEN cfg,
     rs_registry_ttl = cf_CLIENT_REGISTRY_TTL cfg\<rparr>"

definition auth_config_of :: "settings \<Rightarrow> auth_config" where
  "auth_config_of cfg = \<lparr>ac_issuer = cf_OAUTH_ISSUER_URL cfg, ac_base = cf_GATEWAY_BASE_URL cfg, ac_audience = cf_OAUTH_EXPECTED_AUDIENCE cfg,
     ac_debug = cf_DEBUG cfg, ac_registration = registration_settings_of cfg\<rparr>"

definition startup_settings_of :: "settings \<Rightarrow> startup_settings" where
  "startup_settings_of cfg = \<lparr>su_redis_url = cf_REDIS_URL cfg, su_google_key = cf_GOOGLE_TOKEN_ENCRYPTION_KEY cfg,
     su_slack_key = cf_SLACK_TOKEN_ENCRYPTION_KEY cfg, su_google_refresh = cf_GOOGLE_SHARED_REFRESH_TOKEN cfg,
     su_slack_bot = cf_SLACK_SHARED_BOT_TOKEN cfg, su_slack_user = cf_SLACK_SHARED_USER_TOKEN cfg\<rparr>"

text \<open>\<open>JWKSClient\<close>: the key client of the token library, made for the configured address with caching.\<close>

definition JWKSClient :: "(string \<Rightarrow> bool \<Rightarrow> int \<Rightarrow> string \<Rightarrow> ('s, 'k) prog) \<Rightarrow> settings \<Rightarrow> string \<Rightarrow> ('s, 'k) prog" where
  "JWKSClient PyJWKClient cfg token = PyJWKClient (jwks_uri cfg) True (cf_OAUTH_JWKS_CACHE_TTL cfg) token"

text \<open>\<open>create_redis\<close>: the client is given to the caller only after the server answered.\<close>

definition create_redis :: "(string \<Rightarrow> dec option \<Rightarrow> 'c res) \<Rightarrow> ('c \<Rightarrow> ('s, unit) prog) \<Rightarrow> string \<Rightarrow> dec option \<Rightarrow> ('s, 'c) prog" where
  "create_redis from_url ping url socket_timeout =
     bindM (lift_res (from_url url socket_timeout)) (\<lambda>client. bindM (ping client) (\<lambda>_. ret client))"

section \<open>The state of the application\<close>

record 's app_state =
  st_redis :: "'s redis"
  st_http_client :: "'s net"
  st_oauth_state_store :: "'s store"
  st_client_registry :: "'s store"
  st_slack_signing_secret :: string

definition app_state_of :: "settings \<Rightarrow> 's redis \<Rightarrow> 's net \<Rightarrow> 's app_state" where
  "app_state_of cfg R N = \<lparr>st_redis = R, st_http_client = N, st_oauth_state_store = oauth_state_store R,
     st_client_registry = client_registry R, st_slack_signing_secret = cf_SLACK_SIGNING_SECRET cfg\<rparr>"

section \<open>Routes\<close>

text \<open>
  A route matches a path, with the value of its path parameter if it has one, and accepts some methods, or all of
  them.
\<close>

record 's route =
  rt_path :: "string \<Rightarrow> string option"
  rt_methods :: "string list option"
  rt_endpoint :: "string \<Rightarrow> 's app"

definition exact :: "string \<Rightarrow> string \<Rightarrow> string option" where
  "exact path p = (if p = path then Some [] else None)"

text \<open>\<open>prefix/{x}\<close>: the rest of the path is one segment that is not empty.\<close>

definition with_param :: "string \<Rightarrow> string \<Rightarrow> string option" where
  "with_param pre p = (let x = drop (length pre) p in
     if startswith p pre \<and> x \<noteq> [] \<and> CHR ''/'' \<notin> set x then Some x else None)"

record 's framework =
  fw_routes :: "'s route list"
  fw_int :: "string \<Rightarrow> int option"
  fw_unprocessable :: "request \<Rightarrow> response"
  fw_url :: "request \<Rightarrow> string \<Rightarrow> string"

text \<open>What the endpoints use besides the state of the application.\<close>

record ('s, 'm) endpoint_deps =
  ed_settings :: settings
  ed_state :: "'s app_state"
  ed_registration :: "'s registration_env"
  ed_with_params :: "string \<Rightarrow> (string, string) dict \<Rightarrow> string"
  ed_hmac :: "string \<Rightarrow> string \<Rightarrow> string"
  ed_mcp_app :: "'m mcp_app"
  ed_handle_request :: "'m \<Rightarrow> request \<Rightarrow> ('s, response) prog"

definition health_check :: json where
  "health_check = JObj [(''status'', JStr ''ok'')]"

text \<open>\<open>hours: int = Query(default=24, ge=1, le=168)\<close>\<close>

definition query_hours :: "'s framework \<Rightarrow> request \<Rightarrow> int option" where
  "query_hours F rq = (case dict_get (rq_query rq) ''hours'' of
     None \<Rightarrow> Some 24
   | Some t \<Rightarrow> (case fw_int F t of None \<Rightarrow> None | Some n \<Rightarrow> if 1 \<le> n \<and> n \<le> 168 then Some n else None))"

definition usage_endpoint :: "'s framework \<Rightarrow> ('s, 'm) endpoint_deps \<Rightarrow> string \<Rightarrow> 's app" where
  "usage_endpoint F G user_id rq = (case query_hours F rq of
     None \<Rightarrow> ret (fw_unprocessable F rq)
   | Some hours \<Rightarrow> bindM (get_usage (st_redis (ed_state G)) (st_http_client (ed_state G)) rq user_id hours) (\<lambda>j. ret (JSONResponse 200 j [])))"

definition gateway_routes :: "'s framework \<Rightarrow> ('s, 'm) endpoint_deps \<Rightarrow> 's route list" where
  "gateway_routes F G =
     [\<lparr>rt_path = exact ''/health'', rt_methods = Some [''GET''], rt_endpoint = (\<lambda>_ _. ret (JSONResponse 200 health_check []))\<rparr>,
      \<lparr>rt_path = exact ''/.well-known/oauth-protected-resource'', rt_methods = Some [''GET''],
       rt_endpoint = (\<lambda>_ _. ret (oauth_protected_resource_metadata (auth_config_of (ed_settings G))))\<rparr>,
      \<lparr>rt_path = exact ''/.well-known/oauth-authorization-server'', rt_methods = Some [''GET''],
       rt_endpoint = (\<lambda>_ _. ret (oauth_authorization_server_metadata (auth_config_of (ed_settings G))))\<rparr>,
      \<lparr>rt_path = exact ''/oauth/authorize'', rt_methods = Some [''GET''],
       rt_endpoint = (\<lambda>_. authorize (ed_registration G) (auth_config_of (ed_settings G)) (st_client_registry (ed_state G)) (ed_with_params G))\<rparr>,
      \<lparr>rt_path = with_param ''/admin/usage/'', rt_methods = Some [''GET''], rt_endpoint = usage_endpoint F G\<rparr>,
      \<lparr>rt_path = exact ''/webhooks/slack'', rt_methods = Some [''POST''],
       rt_endpoint = (\<lambda>_ rq. bindM (slack_webhook (ed_hmac G) (st_redis (ed_state G)) (n_time (st_http_client (ed_state G)))
          (st_slack_signing_secret (ed_state G)) rq) (\<lambda>j. ret (JSONResponse 200 j [])))\<rparr>,
      \<lparr>rt_path = exact ''/mcp/'', rt_methods = None, rt_endpoint = (\<lambda>_. mcp_app_call (ed_handle_request G) (ed_mcp_app G))\<rparr>]"

section \<open>Dispatch\<close>

text \<open>
  The router of the framework: the first route that matches path and method; a path that only matches with another
  method is answered 405; a path that matches with a slash more or less at its end is redirected there; everything else
  is not found. An \<open>HTTPException\<close> becomes a response, every other exception goes on.
\<close>

definition matches :: "'s route \<Rightarrow> string \<Rightarrow> bool" where
  "matches r p \<longleftrightarrow> rt_path r p \<noteq> None"

definition method_ok :: "'s route \<Rightarrow> request \<Rightarrow> bool" where
  "method_ok r rq \<longleftrightarrow> (case rt_methods r of None \<Rightarrow> True | Some ms \<Rightarrow> rq_method rq \<in> set ms)"

definition toggle_slash :: "string \<Rightarrow> string" where
  "toggle_slash p = (if p \<noteq> [] \<and> last p = CHR ''/'' then str_rstrip (CHR ''/'') p else p @ ''/'')"

definition detail :: "int \<Rightarrow> string \<Rightarrow> headers \<Rightarrow> response" where
  "detail status msg hs = JSONResponse status (JObj [(''detail'', JStr msg)]) hs"

definition with_http_errors :: "('s, response) prog \<Rightarrow> ('s, response) prog" where
  "with_http_errors m = tryM m (\<lambda>e. case e of HTTPException status msg \<Rightarrow> ret (detail status msg []) | _ \<Rightarrow> raise e)"

definition dispatch :: "'s framework \<Rightarrow> 's route list \<Rightarrow> 's app" where
  "dispatch F routes rq = (let p = rq_path rq in
     case find (\<lambda>r. matches r p \<and> method_ok r rq) routes of
       Some r \<Rightarrow> with_http_errors (rt_endpoint r (the (rt_path r p)) rq)
     | None \<Rightarrow> (case find (\<lambda>r. matches r p) routes of
         Some r \<Rightarrow> ret (detail 405 ''Method Not Allowed'' [(''allow'', str_join '', '' (the (rt_methods r)))])
       | None \<Rightarrow> if p \<noteq> ''/'' \<and> (\<exists>r\<in>set routes. matches r (toggle_slash p))
           then ret \<lparr>rp_status = 307, rp_headers = [(''location'', fw_url F rq (toggle_slash p))], rp_body = JNull\<rparr>
           else ret (detail 404 ''Not Found'' [])))"

definition routes :: "'s framework \<Rightarrow> ('s, 'm) endpoint_deps \<Rightarrow> 's route list" where
  "routes F G = fw_routes F @ gateway_routes F G"

definition gateway :: "('s, 'k) web_deps \<Rightarrow> 's framework \<Rightarrow> ('s, 'm) endpoint_deps \<Rightarrow> 's app" where
  "gateway D F G = gateway_app D (dispatch F (routes F G))"

section \<open>The session manager\<close>

record ('s, 'e) session_manager =
  sm_name :: string
  sm_registry :: "(string, 's tool) dict"
  sm_event_store :: "'e event_store"
  sm_max_events :: nat
  sm_json_response :: bool

definition create_session_manager :: "'s server_deps \<Rightarrow> ('s, 'e) session_manager" where
  "create_session_manager S = \<lparr>sm_name = ''mcp-streamable-http-demo'', sm_registry = build_registry S,
     sm_event_store = new_event_store, sm_max_events = 100, sm_json_response = True\<rparr>"

text \<open>\<open>mcp_lifespan\<close>: the manager is installed before it runs.\<close>

definition mcp_lifespan :: "(('s, 'e) session_manager \<Rightarrow> ('s, unit) prog) \<Rightarrow> 's server_deps \<Rightarrow> ('s, 'e) session_manager mcp_app
    \<Rightarrow> ('s, 'e) session_manager mcp_app \<times> ('s, unit) prog" where
  "mcp_lifespan run S a = (let manager = create_session_manager S in (set_manager manager a, run manager))"

lemma mcp_app_ready:
  "mcp_app_call handle new_mcp_app rq = raise (RuntimeError ''mcp_app: session manager not initialized'')"
  "mcp_app_call handle (fst (mcp_lifespan run S a)) rq = handle (create_session_manager S) rq"
  by (simp_all add: mcp_app_call_def new_mcp_app_def mcp_lifespan_def set_manager_def Let_def)

section \<open>Which route answers\<close>

lemma matches_exact [simp]: "matches \<lparr>rt_path = exact x, rt_methods = ms, rt_endpoint = e\<rparr> p \<longleftrightarrow> p = x"
  by (simp add: matches_def exact_def)

lemma matches_param [simp]:
  "matches \<lparr>rt_path = with_param pre, rt_methods = ms, rt_endpoint = e\<rparr> p \<longleftrightarrow> (\<exists>x. p = pre @ x \<and> x \<noteq> [] \<and> CHR ''/'' \<notin> set x)"
  by (auto simp: matches_def with_param_def Let_def prefix_def)

text \<open>Two routes with the same path and methods, whose endpoints agree on a request that selects them.\<close>

definition same_route :: "request \<Rightarrow> 's route \<Rightarrow> 's route \<Rightarrow> bool" where
  "same_route rq r r' \<longleftrightarrow> rt_path r = rt_path r' \<and> rt_methods r = rt_methods r'
     \<and> (matches r (rq_path rq) \<longrightarrow> with_http_errors (rt_endpoint r (the (rt_path r (rq_path rq))) rq)
          = with_http_errors (rt_endpoint r' (the (rt_path r (rq_path rq))) rq))"

lemma find_rel:
  assumes "list_all2 Q xs ys" "\<And>x y. Q x y \<Longrightarrow> P x = P' y"
  shows "rel_option (\<lambda>x y. Q x y \<and> P x) (find P xs) (find P' ys)"
  using assms(1) by (induction rule: list_all2_induct) (auto simp: assms(2))

lemma dispatch_cong:
  assumes same: "list_all2 (same_route rq) rs rs'"
  shows "dispatch F rs rq = dispatch F rs' rq"
proof -
  let ?p = "rq_path rq"
  have full: "rel_option (\<lambda>x y. same_route rq x y \<and> (matches x ?p \<and> method_ok x rq))
      (find (\<lambda>r. matches r ?p \<and> method_ok r rq) rs) (find (\<lambda>r. matches r ?p \<and> method_ok r rq) rs')"
    by (rule find_rel [OF same]) (simp add: same_route_def matches_def method_ok_def)
  have part: "rel_option (\<lambda>x y. same_route rq x y \<and> matches x ?p) (find (\<lambda>r. matches r ?p) rs) (find (\<lambda>r. matches r ?p) rs')"
    by (rule find_rel [OF same]) (simp add: same_route_def matches_def)
  have slash: "(\<exists>r\<in>set rs. matches r q) \<longleftrightarrow> (\<exists>r\<in>set rs'. matches r q)" for q
    using same by (induction rule: list_all2_induct) (simp_all add: same_route_def matches_def)
  show ?thesis
  proof (cases "find (\<lambda>r. matches r ?p \<and> method_ok r rq) rs")
    case (Some r)
    then obtain r' where "find (\<lambda>r. matches r ?p \<and> method_ok r rq) rs' = Some r'" "same_route rq r r'" "matches r ?p"
      using full by (auto simp: option_rel_Some1)
    then show ?thesis using Some by (auto simp: dispatch_def Let_def same_route_def)
  next
    case None
    then have none: "find (\<lambda>r. matches r ?p \<and> method_ok r rq) rs' = None" using full by simp
    show ?thesis
    proof (cases "find (\<lambda>r. matches r ?p) rs")
      case (Some r)
      then obtain r' where "find (\<lambda>r. matches r ?p) rs' = Some r'" "same_route rq r r'" using part by (auto simp: option_rel_Some1)
      then show ?thesis unfolding dispatch_def Let_def None none Some by (simp add: same_route_def)
    next
      case part_none: None
      then have "find (\<lambda>r. matches r ?p) rs' = None" using part by simp
      then show ?thesis unfolding dispatch_def Let_def None none part_none slash by simp
    qed
  qed
qed

definition public_paths :: "string set" where
  "public_paths = {''/health'', ''/.well-known/oauth-protected-resource'', ''/.well-known/oauth-authorization-server'', ''/oauth/authorize'', ''/webhooks/slack''}"

lemma served_paths:
  "(\<exists>r\<in>set (gateway_routes F G). matches r p) \<longleftrightarrow>
     p \<in> public_paths \<or> p = ''/mcp/'' \<or> (\<exists>x. p = ''/admin/usage/'' @ x \<and> x \<noteq> [] \<and> CHR ''/'' \<notin> set x)"
proof -
  have "(\<exists>r\<in>set (gateway_routes F G). matches r p) \<longleftrightarrow>
     p = ''/health'' \<or> p = ''/.well-known/oauth-protected-resource'' \<or> p = ''/.well-known/oauth-authorization-server'' \<or> p = ''/oauth/authorize''
     \<or> (\<exists>x. p = ''/admin/usage/'' @ x \<and> x \<noteq> [] \<and> CHR ''/'' \<notin> set x) \<or> p = ''/webhooks/slack'' \<or> p = ''/mcp/''"
    unfolding gateway_routes_def by (simp only: list.set bex_simps matches_exact matches_param simp_thms)
  then show ?thesis unfolding public_paths_def insert_iff empty_iff by argo
qed

lemma admin_not_public: "\<not> is_bypass_path (''/admin/'' @ x)"
  by (simp add: is_bypass_path_def AUTH_BYPASS_EXACT_def AUTH_BYPASS_PREFIXES_def)

section \<open>Properties\<close>

text \<open>
  What is served without a token. Of the routes of the gateway exactly five are on public paths: the health check, the two
  metadata documents, the authorization endpoint and the webhook, which checks a signature. The
  usage reports and the MCP endpoint are behind the access guard.
\<close>

theorem public_routes:
  "(\<exists>r\<in>set (gateway_routes F G). matches r p) \<and> is_bypass_path p \<longleftrightarrow>
     p \<in> {''/health'', ''/.well-known/oauth-protected-resource'', ''/.well-known/oauth-authorization-server'', ''/oauth/authorize'', ''/webhooks/slack''}"
proof -
  have "is_bypass_path ''/health''" "is_bypass_path ''/.well-known/oauth-protected-resource''" "is_bypass_path ''/.well-known/oauth-authorization-server''"
    "is_bypass_path ''/oauth/authorize''" "is_bypass_path ''/webhooks/slack''" by code_simp+
  then have public: "p \<in> public_paths \<Longrightarrow> is_bypass_path p" unfolding public_paths_def by fast
  have mcp: "\<not> is_bypass_path ''/mcp/''" by code_simp
  have "\<not> is_bypass_path (''/admin/usage/'' @ x)" for x using admin_not_public [of "''usage/'' @ x"] by simp
  with public mcp show ?thesis unfolding served_paths public_paths_def [symmetric] by blast
qed

text \<open>
  C7: usage reports, through the whole stack. If no genuine token that the request carries grants the administrator's
  scope, the answer to any request below \<open>/admin/\<close> is the same whatever the application holds: two gateways
  whose stores, settings, secrets and MCP servers differ in any way cannot be told apart by it.
\<close>

theorem usage_reports_for_admins_only:
  assumes cors: "\<And>r. hands_on (wd_cors D) (\<lambda>r'. r' = r) (\<lambda>r'. r' = r)"
    and path: "startswith (rq_path rq) ''/admin/''"
    and no_admin: "\<And>token s claims s' scopes. bearer_token rq = Some token \<Longrightarrow> genuine (wd_jwt D) (wd_auth D) (wd_now D) token s claims s'
      \<Longrightarrow> granted_scopes claims = Inr scopes \<Longrightarrow> ADMIN_SCOPE \<notin> set scopes"
  shows "gateway D F G rq s = gateway D F G' rq s"
proof -
  let ?P = "\<lambda>r. rq_path r = rq_path rq \<and> bearer_token r = bearer_token rq"
  have same: "dispatch F (routes F G) rq' = dispatch F (routes F G') rq'"
    if P: "?P rq'" and idf: "identified (wd_jwt D) (wd_auth D) (wd_now D) rq'" for rq'
  proof (rule dispatch_cong)
    obtain rest where p: "rq_path rq' = ''/admin/'' @ rest" using path P by (auto simp: prefix_def)
    have "\<not> is_bypass_path (rq_path rq')" unfolding p by (rule admin_not_public)
    then obtain token s claims s' sub scopes where "bearer_token rq = Some token" "genuine (wd_jwt D) (wd_auth D) (wd_now D) token s claims s'"
      "granted_scopes claims = Inr scopes" and u: "rq_user rq' = Some \<lparr>u_id = sub, u_scopes = sort (remdups scopes), u_token = claims\<rparr>"
      using idf P unfolding identified_def by metis
    then have "ADMIN_SCOPE \<notin> set scopes" using no_admin by blast
    then have "require_admin_scope rq' = Inl (HTTPException 403 ''Missing scope: mcp:admin:read'')" using u by (simp add: require_admin_scope_def)
    then have "usage_endpoint F G x rq' = usage_endpoint F G' x rq'" for x
      by (simp add: usage_endpoint_def get_usage_def fun_eq_iff bindM_def split: option.split)
    then have "list_all2 (same_route rq') (gateway_routes F G) (gateway_routes F G')"
      by (simp add: gateway_routes_def same_route_def p)
    moreover have "list_all2 (same_route rq') (fw_routes F) (fw_routes F)" by (simp add: list_all2_same same_route_def)
    ultimately show "list_all2 (same_route rq') (routes F G) (routes F G')" unfolding routes_def by (rule list_all2_appendI [rotated])
  qed
  have "hands_on (gateway_app D) ?P (\<lambda>r. ?P r \<and> origin_ok (wd_origins D) r \<and> identified (wd_jwt D) (wd_auth D) (wd_now D) r)"
    by (rule stack_hands_on [OF cors]) simp
  then have "gateway_app D (dispatch F (routes F G)) rq = gateway_app D (dispatch F (routes F G')) rq"
    by (rule hands_onD) (use same in blast)+
  then show ?thesis by (simp add: gateway_def)
qed

definition sample_framework :: "unit framework" where
  "sample_framework = \<lparr>fw_routes = [\<lparr>rt_path = exact ''/docs'', rt_methods = Some [''GET''], rt_endpoint = (\<lambda>_ _. ret (page ''docs''))\<rparr>],
     fw_int = py_int, fw_unprocessable = (\<lambda>_. detail 422 ''invalid'' []), fw_url = (\<lambda>_ p. p)\<rparr>"

abbreviation sample_report :: request where
  "sample_report \<equiv> (sample_request ''/admin/usage/u1'' [(''authorization'', ''Bearer good'')] None)\<lparr>rq_method := ''GET''\<rparr>"

theorem usage_reports_for_admins_only_witness:
  "\<forall>(G :: (unit, unit) endpoint_deps) (G' :: (unit, unit) endpoint_deps). gateway sample_web sample_framework G sample_report () = gateway sample_web sample_framework G' sample_report ()"
proof (intro allI)
  fix G G' :: "(unit, unit) endpoint_deps"
  let ?claims = "[(''sub'', JStr ''u1''), (''scope'', JStr ''openid mcp:slack:read''),
       (''resource_access'', JObj [(''mcp-gateway'', JObj [(''roles'', JArr [JStr ''drive-user''])])])]"
  have sc: "granted_scopes ?claims = Inr [''openid'', ''mcp:slack:read'', ''mcp:google:read'']" by code_simp
  have gen: "claims = ?claims" if "genuine sample_jwt sample_auth (\<lambda>_. Dec 95 1) token () claims s'" for token claims s'
    using that by (auto simp: genuine_def split: if_splits)
  show "gateway sample_web sample_framework G sample_report () = gateway sample_web sample_framework G' sample_report ()"
  proof (rule usage_reports_for_admins_only)
    show "ADMIN_SCOPE \<notin> set scopes" if "bearer_token sample_report = Some token" "genuine (wd_jwt sample_web) (wd_auth sample_web) (wd_now sample_web) token s claims s'"
      "granted_scopes claims = Inr scopes" for token s claims s' scopes
      using that(2,3) gen [of token claims s'] sc by (auto simp: sample_web_def ADMIN_SCOPE_def)
  qed (auto simp: sample_web_def hands_on_def sample_request_def prefix_def)
qed

end
