(* ===== verification/Log_Redaction.thy ===== *)
theory Log_Redaction
  imports Py_Strings
begin

text \<open>
  The log filter of \<open>app/logging.py\<close>: three regular expressions, applied one after the other to the text of
  a record. Each pattern has one reading at a position, because the repeated classes of a pattern exclude
  what follows them; a pattern is the length of its match at the start of a text.
\<close>

section \<open>Patterns and substitution\<close>











section \<open>Where a suffix of a rewritten text comes from\<close>






section \<open>The tokens of Google and Slack\<close>











section \<open>Bearer tokens\<close>

















section \<open>The filter\<close>




section \<open>Where records go\<close>






















end
