(* ===== verification/Json_Indent.thy ===== *)
theory Json_Indent
  imports Py_Json
begin

text \<open>
  \<open>json.dumps\<close> with an indentation, as the seeding script writes the realm document: an item per line, indented by
  its depth, and nothing between the brackets of an empty array or object. What is printed this way reads back.
\<close>

section \<open>Printing\<close>

definition newline_indent :: "nat \<Rightarrow> nat \<Rightarrow> string" where
  "newline_indent n level = CHR 0x0A # replicate (n * level) (CHR '' '')"

definition indented :: "nat \<Rightarrow> nat \<Rightarrow> char \<Rightarrow> char \<Rightarrow> string list \<Rightarrow> string" where
  "indented n level left right items = (if items = [] then [left, right]
     else [left] @ newline_indent n (Suc level) @ str_join (CHR '','' # newline_indent n (Suc level)) items @ newline_indent n level @ [right])"

fun dumps_indent :: "nat \<Rightarrow> nat \<Rightarrow> json \<Rightarrow> string" where
  "dumps_indent n level (JArr xs) = indented n level (CHR ''['') (CHR '']'') (map (dumps_indent n (Suc level)) xs)"
| "dumps_indent n level (JObj kvs) = indented n level (CHR ''{'') (CHR ''}'')
     (map (\<lambda>kv. dumps_str (fst kv) @ '': '' @ dumps_indent n (Suc level) (snd kv)) kvs)"
| "dumps_indent n level j = dumps j"

section \<open>Reading back\<close>

lemma newline_ws: "list_all json_ws (newline_indent n level)"
  by (simp add: newline_indent_def list_all_iff json_ws_def code_point_def)

lemma newline_Cons: "newline_indent n level = CHR 0x0A # replicate (n * level) (CHR '' '')"
  by (rule newline_indent_def)

lemma skip_ws_append: "list_all json_ws w \<Longrightarrow> skip_ws (w @ s) = skip_ws s"
  by (induction w) auto

lemma skip_newline: "skip_ws (newline_indent n level @ s) = skip_ws s"
  by (rule skip_ws_append [OF newline_ws])

lemma num_stop_newline [simp]: "num_stop (newline_indent n level @ r)"
  by (simp add: newline_Cons num_stop_def is_digit_def code_point_def)

text \<open>A text that reads back as a value, whatever follows it.\<close>

definition reads_as :: "string \<Rightarrow> json \<Rightarrow> bool" where
  "reads_as t j \<longleftrightarrow> value_start t \<and> (\<forall>f r. num_stop r \<longrightarrow> 2 * length t + 1 \<le> f \<longrightarrow> scan_value f (t @ r) = Some (j, r))"

lemma reads_asD: "reads_as t j \<Longrightarrow> num_stop r \<Longrightarrow> 2 * length t + 1 \<le> f \<Longrightarrow> scan_value f (t @ r) = Some (j, r)"
  by (simp add: reads_as_def)

lemma reads_as_start: "reads_as t j \<Longrightarrow> value_start (t @ r)"
  by (simp add: reads_as_def value_start_append)

text \<open>The items between two brackets, whatever reads one item.\<close>

definition reads_item :: "(nat \<Rightarrow> string \<Rightarrow> ('a list \<times> string) option) \<Rightarrow> char \<Rightarrow> string \<Rightarrow> 'a \<Rightarrow> bool" where
  "reads_item scan close t x \<longleftrightarrow> value_start t \<and> (\<forall>g r. num_stop r \<longrightarrow> 2 * length t + 1 \<le> g \<longrightarrow>
     scan (Suc g) (t @ r) = after_item close x (scan g) r)"

lemma scan_items:
  assumes "ts \<noteq> []" "list_all2 (reads_item scan close) ts xs" "close \<noteq> CHR '',''" "\<not> json_ws close"
    and "2 * length (str_join (CHR '','' # newline_indent n l) ts) + 2 \<le> f"
  shows "scan f (str_join (CHR '','' # newline_indent n l) ts @ newline_indent n l' @ close # r) = Some (xs, r)"
  using assms
proof (induction ts arbitrary: xs f rule: induct_list012)
  case (2 t)
  then obtain x where xs: "xs = [x]" "reads_item scan close t x" by (auto simp: list_all2_Cons1)
  from 2(5) obtain g where f: "f = Suc g" "2 * length t + 1 \<le> g" by (cases f) auto
  then have "scan f (t @ newline_indent n l' @ close # r) = after_item close x (scan g) (newline_indent n l' @ close # r)"
    using xs by (simp add: reads_item_def)
  then show ?case using 2(4) by (simp add: after_item_def skip_newline xs)
next
  case (3 t u ts)
  then obtain x ys where xs: "xs = x # ys" "reads_item scan close t x" "list_all2 (reads_item scan close) (u # ts) ys" by (auto simp: list_all2_Cons1)
  let ?sep = "CHR '','' # newline_indent n l"
  let ?rest = "str_join ?sep (u # ts) @ newline_indent n l' @ close # r"
  from 3(7) obtain g where f: "f = Suc g" "2 * length t + 1 \<le> g" "2 * length (str_join ?sep (u # ts)) + 2 \<le> g" by (cases f) auto
  have "value_start u" using xs(3) by (auto simp: list_all2_Cons1 reads_item_def)
  then have "value_start ?rest" by (cases ts) (auto intro: value_start_append)
  then have skip: "skip_ws ?rest = ?rest" by (rule value_start_skip)
  have "scan f (t @ ?sep @ ?rest) = after_item close x (scan g) (?sep @ ?rest)"
    using xs(2) f(1,2) by (simp add: reads_item_def)
  moreover have "scan g ?rest = Some (ys, r)" using 3(2) xs(3) 3(5,6) f(3) by simp
  ultimately show ?case using 3(5) skip by (simp add: after_item_def skip_newline cons_fst_def xs(1))
qed simp

lemma reads_elem: "reads_as t j \<Longrightarrow> reads_item scan_elems (CHR '']'') t j"
  by (auto simp: reads_item_def reads_as_def scan_elems.simps)

lemma reads_member: "reads_as t j \<Longrightarrow> reads_item scan_members (CHR ''}'') (dumps_str k @ '': '' @ t) (k, j)"
  unfolding reads_item_def
proof (intro conjI allI impI)
  assume t: "reads_as t j"
  show "value_start (dumps_str k @ '': '' @ t)" by (simp add: dumps_str_def value_start_def)
  fix g r assume r: "num_stop r" "2 * length (dumps_str k @ '': '' @ t) + 1 \<le> g"
  have "scan_key ((dumps_str k @ '': '' @ t) @ r) = Some (k, t @ r)"
    using scan_key_dumps [OF reads_as_start [OF t]] by simp
  moreover have "scan_value g (t @ r) = Some (j, r)" using r by (intro reads_asD [OF t]) simp_all
  ultimately show "scan_members (Suc g) ((dumps_str k @ '': '' @ t) @ r) = after_item (CHR ''}'') (k, j) (scan_members g) r"
    by (simp add: scan_members.simps)
qed

lemma start_join: "ts \<noteq> [] \<Longrightarrow> value_start (hd ts) \<Longrightarrow> value_start (str_join sep ts @ r)"
  by (induction ts rule: induct_list012) (auto intro: value_start_append)

lemma scan_empty:
  assumes "5 \<le> f"
  shows "scan_value f (CHR ''['' # CHR '']'' # r) = Some (JArr [], r)" "scan_value f (CHR ''{'' # CHR ''}'' # r) = Some (JObj [], r)"
  using assms by (cases f; simp add: scan_value.simps)+

lemma reads_as_arr:
  assumes "list_all2 reads_as ts xs"
  shows "reads_as (indented n l (CHR ''['') (CHR '']'') ts) (JArr xs)"
proof (cases "ts = []")
  case True
  then show ?thesis using assms
    by (auto simp: reads_as_def indented_def value_start_def json_ws_def code_point_def scan_empty)
next
  case False
  let ?body = "str_join (CHR '','' # newline_indent n (Suc l)) ts"
  have items: "list_all2 (reads_item scan_elems (CHR '']'')) ts xs" using assms by (rule list_all2_mono) (rule reads_elem)
  have "value_start (hd ts)" using assms False by (cases ts) (auto simp: list_all2_Cons1 reads_as_def)
  then have start: "value_start (?body @ r)" for r using False by (intro start_join)
  have "scan_value f (indented n l (CHR ''['') (CHR '']'') ts @ r) = Some (JArr xs, r)"
    if len: "2 * length (indented n l (CHR ''['') (CHR '']'') ts) + 1 \<le> f" for f r
  proof -
    obtain g where f: "f = Suc g" "2 * length ?body + 2 \<le> g" using len False by (cases f) (auto simp: indented_def)
    let ?t = "?body @ newline_indent n l @ CHR '']'' # r"
    have "scan_elems g ?t = Some (xs, r)"
      by (rule scan_items [OF False items _ _ f(2)]) simp_all
    then show ?thesis
      using value_start_skip [OF start] value_start_close [OF start]
      by (simp add: f scan_value.simps indented_def False skip_newline)
  qed
  then show ?thesis using False by (simp add: reads_as_def indented_def value_start_def json_ws_def code_point_def)
qed

lemma reads_as_obj:
  assumes "list_all2 (\<lambda>t kv. \<exists>u. t = dumps_str (fst kv) @ '': '' @ u \<and> reads_as u (snd kv)) ts kvs" "distinct (map fst kvs)"
  shows "reads_as (indented n l (CHR ''{'') (CHR ''}'') ts) (JObj kvs)"
proof (cases "ts = []")
  case True
  then show ?thesis using assms
    by (auto simp: reads_as_def indented_def value_start_def json_ws_def code_point_def scan_empty)
next
  case False
  let ?body = "str_join (CHR '','' # newline_indent n (Suc l)) ts"
  have items: "list_all2 (reads_item scan_members (CHR ''}'')) ts kvs"
    using assms(1) by (rule list_all2_mono) (metis reads_member prod.collapse)
  have "value_start (hd ts)" using items False by (cases ts) (auto simp: list_all2_Cons1 reads_item_def)
  then have start: "value_start (?body @ r)" for r using False by (intro start_join)
  have "scan_value f (indented n l (CHR ''{'') (CHR ''}'') ts @ r) = Some (JObj kvs, r)"
    if len: "2 * length (indented n l (CHR ''{'') (CHR ''}'') ts) + 1 \<le> f" for f r
  proof -
    obtain g where f: "f = Suc g" "2 * length ?body + 2 \<le> g" using len False by (cases f) (auto simp: indented_def)
    let ?t = "?body @ newline_indent n l @ CHR ''}'' # r"
    have "scan_members g ?t = Some (kvs, r)"
      by (rule scan_items [OF False items _ _ f(2)]) simp_all
    then show ?thesis
      using value_start_skip [OF start] value_start_close [OF start] assms(2)
      by (simp add: f scan_value.simps indented_def False skip_newline)
  qed
  then show ?thesis using False by (simp add: reads_as_def indented_def value_start_def json_ws_def code_point_def)
qed

lemma reads_as_atom: "wf_json j \<Longrightarrow> reads_as (dumps j) j"
  by (auto simp: reads_as_def value_start_dumps intro: reads_backD reads_back_wf)

lemma reads_as_indent: "wf_json j \<Longrightarrow> reads_as (dumps_indent n level j) j"
proof (induction j arbitrary: level)
  case (JArr xs)
  then show ?case
    by (simp add: list_all_iff) (rule reads_as_arr, simp add: list_all2_conv_all_nth)
next
  case (JObj kvs)
  have "reads_as (dumps_indent n (Suc level) (snd kv)) (snd kv)" if "kv \<in> set kvs" for kv
    using JObj.IH [OF that, of "snd kv" "Suc level"] JObj.prems that by (simp add: list_all_iff snds.simps)
  then have "list_all2 (\<lambda>t kv. \<exists>u. t = dumps_str (fst kv) @ '': '' @ u \<and> reads_as u (snd kv))
      (map (\<lambda>kv. dumps_str (fst kv) @ '': '' @ dumps_indent n (Suc level) (snd kv)) kvs) kvs"
    by (auto simp: list_all2_conv_all_nth)
  then show ?case using JObj.prems by (simp add: reads_as_obj)
qed (auto intro: reads_as_atom simp del: dumps.simps)

text \<open>Reading undoes indented printing, with white space at the end.\<close>

lemma loads_dumps_indent:
  assumes "wf_json j" "list_all json_ws w"
  shows "loads (dumps_indent n level j @ w) = Inr j"
proof -
  let ?t = "dumps_indent n level j"
  note reads = reads_as_indent [OF assms(1), of n level]
  have "num_stop w" using assms(2) by (cases w) (auto simp: num_stop_def json_ws_def is_digit_def code_point_def)
  then have "scan_value (2 * length (?t @ w) + 1) (?t @ w) = Some (j, w)" by (intro reads_asD [OF reads]) simp_all
  moreover have "skip_ws w = []" using assms(2) by (induction w) auto
  ultimately show ?thesis using value_start_skip [OF reads_as_start [OF reads]] by (simp add: loads_def)
qed

end
