(* ===== verification/Seed_Rbac.thy ===== *)
theory Seed_Rbac
  imports Access_Guard Json_Indent
begin

text \<open>
  The script that prepares the realm of the identity provider, \<open>compose/local/keycloak/seed_rbac.py\<close>: the client,
  its roles and the test users are put into the realm document, which is read from its file and written back as indented
  text. The file, the standard output and the name-based identifier of \<open>uuid.uuid5\<close> are parameters.
\<close>

section \<open>What is seeded\<close>

definition SEED_CLIENT_ID :: string where
  "SEED_CLIENT_ID = ''mcp-gateway''"

definition CLIENT_UUID :: string where
  "CLIENT_UUID = ''11111111-1111-1111-1111-111111111111''"

definition AUDIENCE :: string where
  "AUDIENCE = ''http://localhost:8000/mcp/''"

definition SECRET :: string where
  "SECRET = ''mcp-gateway-secret''"

abbreviation strings :: "string list \<Rightarrow> json" where
  "strings xs \<equiv> JArr (map JStr xs)"

definition CLIENT :: json where
  "CLIENT = JObj
     [(''id'', JStr CLIENT_UUID), (''clientId'', JStr SEED_CLIENT_ID), (''enabled'', JBool True),
      (''protocol'', JStr ''openid-connect''), (''publicClient'', JBool False), (''clientAuthenticatorType'', JStr ''client-secret''),
      (''secret'', JStr SECRET), (''standardFlowEnabled'', JBool False), (''implicitFlowEnabled'', JBool False),
      (''directAccessGrantsEnabled'', JBool True), (''serviceAccountsEnabled'', JBool False), (''fullScopeAllowed'', JBool True),
      (''redirectUris'', JArr []), (''webOrigins'', JArr []),
      (''defaultClientScopes'', strings [''web-origins'', ''acr'', ''roles'', ''profile'', ''basic'', ''email'']),
      (''optionalClientScopes'', strings [''address'', ''phone'', ''offline_access'', ''microprofile-jwt'']),
      (''protocolMappers'', JArr [JObj
         [(''name'', JStr ''mcp-audience''), (''protocol'', JStr ''openid-connect''), (''protocolMapper'', JStr ''oidc-audience-mapper''),
          (''config'', JObj [(''included.custom.audience'', JStr AUDIENCE), (''id.token.claim'', JStr ''false''),
             (''access.token.claim'', JStr ''true'')])]])]"

definition CLIENT_ROLES :: "(string \<times> string) list" where
  "CLIENT_ROLES =
     [(''drive-user'', ''May use Google Drive tools''), (''slack-user'', ''May use Slack tools''),
      (''admin-user'', ''May read the admin usage API (mcp:admin:read)'')]"

definition roles_json :: json where
  "roles_json = JArr (map (\<lambda>(n, d). JObj [(''name'', JStr n), (''description'', JStr d)]) CLIENT_ROLES)"

definition USERS :: "(string \<times> string \<times> string list) list" where
  "USERS =
     [(''june'', ''june-pass'', [''drive-user'']), (''rayray'', ''rayray-pass'', [''drive-user'', ''slack-user'']),
      (''jasmine'', ''jasmine-pass'', [''slack-user'']), (''admin'', ''admin-pass'', [''admin-user''])]"

text \<open>\<open>str.title()\<close> on ASCII letters: a letter is upper case unless a letter stands before it.\<close>

definition is_letter :: "char \<Rightarrow> bool" where
  "is_letter c \<longleftrightarrow> (let n = code_point c in (65 \<le> n \<and> n \<le> 90) \<or> (97 \<le> n \<and> n \<le> 122))"

fun title_from :: "bool \<Rightarrow> string \<Rightarrow> string" where
  "title_from after_letter [] = []"
| "title_from after_letter (c # s) = (if after_letter then [lower_char c] else upper_char c) @ title_from (is_letter c) s"

definition seed_user :: "(string \<Rightarrow> string) \<Rightarrow> string \<times> string \<times> string list \<Rightarrow> json" where
  "seed_user uuid5 = (\<lambda>(username, password, roles). JObj
     [(''id'', JStr (uuid5 (''mcp-'' @ username))), (''username'', JStr username), (''enabled'', JBool True),
      (''emailVerified'', JBool True), (''email'', JStr (username @ ''@example.com'')),
      (''firstName'', JStr (title_from False username)), (''lastName'', JStr ''Test''), (''requiredActions'', JArr []),
      (''credentials'', JArr [JObj [(''type'', JStr ''password''), (''value'', JStr password), (''temporary'', JBool False)]]),
      (''realmRoles'', strings [''default-roles-mcp-gateway'']), (''clientRoles'', JObj [(SEED_CLIENT_ID, strings roles)])])"

section \<open>The realm document\<close>

text \<open>A list comprehension whose condition may raise.\<close>

primrec filter_res :: "('a \<Rightarrow> bool res) \<Rightarrow> 'a list \<Rightarrow> 'a list res" where
  "filter_res p [] = Inr []"
| "filter_res p (x # xs) = bind_res (p x) (\<lambda>b. bind_res (filter_res p xs) (\<lambda>ys. Inr (if b then x # ys else ys)))"

definition other_client :: "json \<Rightarrow> bool res" where
  "other_client c = bind_res (j_get c ''clientId'') (\<lambda>v. Inr (v \<noteq> Some (JStr SEED_CLIENT_ID)))"

text \<open>\<open>x not in seeded\<close> hashes \<open>x\<close>, which a list or an object does not allow.\<close>

fun in_seeded :: "json option \<Rightarrow> bool res" where
  "in_seeded (Some (JStr s)) = Inr (s \<in> fst ` set USERS)"
| "in_seeded (Some (JArr xs)) = Inl TypeError"
| "in_seeded (Some (JObj kvs)) = Inl TypeError"
| "in_seeded _ = Inr False"

definition other_user :: "json \<Rightarrow> bool res" where
  "other_user u = bind_res (j_get u ''username'') (\<lambda>v. bind_res (in_seeded v) (\<lambda>b. Inr (\<not> b)))"

text \<open>\<open>realm.setdefault("roles", {}).setdefault("client", {})[CLIENT_ID] = CLIENT_ROLES\<close>\<close>

definition set_client_roles :: "(string, json) dict \<Rightarrow> (string, json) dict res" where
  "set_client_roles realm = (case dict_get_default realm ''roles'' (JObj []) of
     JObj roles \<Rightarrow> (case dict_get_default roles ''client'' (JObj []) of
         JObj client \<Rightarrow> Inr (dict_set ''roles'' (JObj (dict_set ''client'' (JObj (dict_set SEED_CLIENT_ID roles_json client)) roles)) realm)
       | _ \<Rightarrow> Inl TypeError)
   | _ \<Rightarrow> Inl AttributeError)"

definition seed_realm :: "(string \<Rightarrow> string) \<Rightarrow> json \<Rightarrow> json res" where
  "seed_realm uuid5 realm = (case realm of
     JObj kvs \<Rightarrow>
       bind_res (iterate (dict_get_default kvs ''clients'' (JArr []))) (\<lambda>clients.
       bind_res (filter_res other_client clients) (\<lambda>kept_clients.
       bind_res (set_client_roles (dict_set ''clients'' (JArr (kept_clients @ [CLIENT])) kvs)) (\<lambda>kvs2.
       bind_res (iterate (dict_get_default kvs2 ''users'' (JArr []))) (\<lambda>users.
       bind_res (filter_res other_user users) (\<lambda>kept_users.
         Inr (JObj (dict_set ''users'' (JArr (kept_users @ map (seed_user uuid5) USERS)) kvs2)))))))
   | _ \<Rightarrow> Inl AttributeError)"

section \<open>Running the script again\<close>

lemma bind_res_InrE:
  assumes "bind_res r f = Inr y"
  obtains x where "r = Inr x" "f x = Inr y"
  using assms by (cases r) auto

lemma filter_res_kept:
  assumes "filter_res p xs = Inr ys"
  shows "ys = filter (\<lambda>x. p x = Inr True) xs" "\<forall>y\<in>set ys. p y = Inr True" "\<forall>x\<in>set xs. \<exists>b. p x = Inr b"
  using assms by (induction xs arbitrary: ys) (auto elim!: bind_res_InrE split: if_splits)

lemma filter_res_again:
  assumes "\<forall>y\<in>set ys. p y = Inr True" "\<forall>z\<in>set zs. p z = Inr False"
  shows "filter_res p (ys @ zs) = Inr ys"
proof -
  have "filter_res p zs = Inr []" using assms(2) by (induction zs) auto
  then show ?thesis using assms(1) by (induction ys) auto
qed

lemma dict_set_triv: "dict_get d k = Some v \<Longrightarrow> dict_set k v d = d"
  by (induction d) auto

lemma seeded_client: "other_client CLIENT = Inr False"
  by (simp add: other_client_def CLIENT_def)

lemma seeded_user: "u \<in> set USERS \<Longrightarrow> other_user (seed_user uuid5 u) = Inr False"
  by (cases u) (force simp: other_user_def seed_user_def)

lemma set_client_rolesE:
  assumes "set_client_roles kvs = Inr kvs2"
  obtains roles client where "kvs2 = dict_set ''roles'' (JObj roles) kvs" "dict_get roles ''client'' = Some (JObj client)"
    "dict_get client SEED_CLIENT_ID = Some roles_json" "set_client_roles kvs2 = Inr kvs2"
proof -
  obtain roles client where rc: "dict_get_default kvs ''roles'' (JObj []) = JObj roles" "dict_get_default roles ''client'' (JObj []) = JObj client"
    and kvs2: "kvs2 = dict_set ''roles'' (JObj (dict_set ''client'' (JObj (dict_set SEED_CLIENT_ID roles_json client)) roles)) kvs"
    using assms by (auto simp: set_client_roles_def split: json.splits)
  have "set_client_roles kvs2 = Inr kvs2"
    unfolding kvs2 by (simp add: set_client_roles_def dict_get_default_def dict_set_triv)
  then show thesis using that [OF kvs2] dict_set_get by fastforce
qed

lemma other_client_iff: "other_client c = Inr b \<Longrightarrow> b \<longleftrightarrow> j_get c ''clientId'' \<noteq> Inr (Some (JStr CLIENT_ID))"
  by (auto simp: other_client_def SEED_CLIENT_ID_def CLIENT_ID_def elim!: bind_res_InrE)

lemma other_user_iff: "other_user u = Inr b \<Longrightarrow> b \<longleftrightarrow> (\<forall>n\<in>fst ` set USERS. j_get u ''username'' \<noteq> Inr (Some (JStr n)))"
  by (auto simp: other_user_def elim!: bind_res_InrE in_seeded.elims) force

lemma kept_by:
  assumes "filter_res p xs = Inr ys" "\<And>x b. p x = Inr b \<Longrightarrow> b \<longleftrightarrow> q x"
  shows "ys = filter q xs"
proof -
  have "p x = Inr True \<longleftrightarrow> q x" if "x \<in> set xs" for x
  proof -
    obtain b where "p x = Inr b" using filter_res_kept(3) [OF assms(1)] \<open>x \<in> set xs\<close> by blast
    then show ?thesis using assms(2) [of x b] by simp
  qed
  then show ?thesis unfolding filter_res_kept(1) [OF assms(1)] by (rule filter_cong [OF refl])
qed

text \<open>
  The change is idempotent. If it succeeds on a realm document, making it on the result changes
  nothing. The result holds the gateway's client once, its roles, and each test user once; every other client and
  every other user is kept in order, and no other entry of the document changes.
\<close>

theorem seed_realm_idempotent:
  assumes run: "seed_realm uuid5 (JObj kvs) = Inr r"
  shows "seed_realm uuid5 r = Inr r
    \<and> (\<exists>kvs' clients users roles client. r = JObj kvs'
        \<and> dict_get kvs' ''clients'' = Some (JArr (clients @ [CLIENT]))
        \<and> (\<forall>old. dict_get kvs ''clients'' = Some (JArr old) \<longrightarrow> clients = filter (\<lambda>c. j_get c ''clientId'' \<noteq> Inr (Some (JStr CLIENT_ID))) old)
        \<and> dict_get kvs' ''users'' = Some (JArr (users @ map (seed_user uuid5) USERS))
        \<and> (\<forall>old. dict_get kvs ''users'' = Some (JArr old) \<longrightarrow> users = filter (\<lambda>u. \<forall>n\<in>fst ` set USERS. j_get u ''username'' \<noteq> Inr (Some (JStr n))) old)
        \<and> dict_get kvs' ''roles'' = Some (JObj roles) \<and> dict_get roles ''client'' = Some (JObj client)
        \<and> dict_get client CLIENT_ID = Some roles_json
        \<and> (\<forall>k. k \<notin> {''clients'', ''users'', ''roles''} \<longrightarrow> dict_get kvs' k = dict_get kvs k))"
proof -
  obtain old_clients clients kvs2 old_users users where clients: "iterate (dict_get_default kvs ''clients'' (JArr [])) = Inr old_clients"
      "filter_res other_client old_clients = Inr clients"
    and roles: "set_client_roles (dict_set ''clients'' (JArr (clients @ [CLIENT])) kvs) = Inr kvs2"
    and users: "iterate (dict_get_default kvs2 ''users'' (JArr [])) = Inr old_users" "filter_res other_user old_users = Inr users"
    and r: "r = JObj (dict_set ''users'' (JArr (users @ map (seed_user uuid5) USERS)) kvs2)"
    using run by (auto simp: seed_realm_def elim!: bind_res_InrE)
  let ?kvs' = "dict_set ''users'' (JArr (users @ map (seed_user uuid5) USERS)) kvs2"
  obtain rl cl where kvs2: "kvs2 = dict_set ''roles'' (JObj rl) (dict_set ''clients'' (JArr (clients @ [CLIENT])) kvs)"
    and rl: "dict_get rl ''client'' = Some (JObj cl)" "dict_get cl SEED_CLIENT_ID = Some roles_json"
    using roles by (rule set_client_rolesE)
  have get: "dict_get ?kvs' ''clients'' = Some (JArr (clients @ [CLIENT]))" "dict_get ?kvs' ''roles'' = Some (JObj rl)"
    "dict_get ?kvs' ''users'' = Some (JArr (users @ map (seed_user uuid5) USERS))"
    "\<forall>k. k \<notin> {''clients'', ''users'', ''roles''} \<longrightarrow> dict_get ?kvs' k = dict_get kvs k" by (simp_all add: kvs2)
  have "set_client_roles ?kvs' = Inr ?kvs'"
    using get(2) rl by (simp add: set_client_roles_def dict_get_default_def dict_set_triv del: dict_set_get)
  moreover have "filter_res other_client (clients @ [CLIENT]) = Inr clients"
    by (rule filter_res_again) (use filter_res_kept(2) [OF clients(2)] seeded_client in auto)
  moreover have "filter_res other_user (users @ map (seed_user uuid5) USERS) = Inr users"
    by (rule filter_res_again) (use filter_res_kept(2) [OF users(2)] seeded_user in auto)
  ultimately have again: "seed_realm uuid5 r = Inr r"
    using get unfolding r by (simp add: seed_realm_def dict_get_default_def dict_set_triv del: dict_set_get)
  have kept_clients: "\<forall>old. dict_get kvs ''clients'' = Some (JArr old) \<longrightarrow> clients = filter (\<lambda>c. j_get c ''clientId'' \<noteq> Inr (Some (JStr CLIENT_ID))) old"
  proof (intro allI impI)
    fix old assume "dict_get kvs ''clients'' = Some (JArr old)"
    then have "old_clients = old" using clients(1) by (simp add: dict_get_default_def)
    with clients(2) have "filter_res other_client old = Inr clients" by simp
    then show "clients = filter (\<lambda>c. j_get c ''clientId'' \<noteq> Inr (Some (JStr CLIENT_ID))) old" by (rule kept_by) (rule other_client_iff)
  qed
  have kept_users: "\<forall>old. dict_get kvs ''users'' = Some (JArr old) \<longrightarrow> users = filter (\<lambda>u. \<forall>n\<in>fst ` set USERS. j_get u ''username'' \<noteq> Inr (Some (JStr n))) old"
  proof (intro allI impI)
    fix old assume "dict_get kvs ''users'' = Some (JArr old)"
    then have old: "old_users = old" using users(1) by (simp add: dict_get_default_def kvs2)
    show "users = filter (\<lambda>u. \<forall>n\<in>fst ` set USERS. j_get u ''username'' \<noteq> Inr (Some (JStr n))) old"
      by (rule kept_by [OF users(2) [unfolded old]]) (rule other_user_iff)
  qed
  have own: "dict_get cl CLIENT_ID = Some roles_json" using rl(2) by (simp add: CLIENT_ID_def SEED_CLIENT_ID_def)
  show ?thesis by (rule conjI [OF again]) (intro exI conjI, rule r, rule get(1), rule kept_clients, rule get(3), rule kept_users, rule get(2), rule rl(1), rule own, rule get(4))
qed

section \<open>The script on its file\<close>







lemma wf_strings: "wf_json (strings xs)"
  by (simp add: list_all_iff)











definition sample_realm :: "(string, json) dict" where
  "sample_realm = [(''realm'', JStr ''mcp-gateway''), (''clients'', JArr [JObj [(''clientId'', JStr ''account'')], JObj [(''clientId'', JStr ''mcp-gateway'')]])]"

lemma seed_realm_sample: "\<exists>r. seed_realm (\<lambda>n. n) (JObj sample_realm) = Inr r"
proof -
  have "filter_res other_client [JObj [(''clientId'', JStr ''account'')], JObj [(''clientId'', JStr ''mcp-gateway'')]]
      = Inr [JObj [(''clientId'', JStr ''account'')]]" by (simp add: other_client_def SEED_CLIENT_ID_def)
  then show ?thesis
    by (simp add: seed_realm_def sample_realm_def set_client_roles_def dict_get_default_def del: filter_res.simps(2))
qed

theorem seed_realm_idempotent_witness:
  "\<exists>r. seed_realm (\<lambda>n. n) (JObj sample_realm) = Inr r \<and> seed_realm (\<lambda>n. n) r = Inr r"
proof -
  obtain r where run: "seed_realm (\<lambda>n. n) (JObj sample_realm) = Inr r" using seed_realm_sample ..
  from seed_realm_idempotent [OF run, THEN conjunct1] run show ?thesis by (intro exI conjI)
qed



end
