(* ===== verification/Worker_Loop.thy ===== *)
theory Worker_Loop
  imports Job_Worker
begin

text \<open>
  The endless loop of \<open>JobWorker.run\<close> (\<open>app/integrations/google/job_worker.py\<close>) as the code has it: it may
  not return, and then its value is \<open>None\<close>. What it returns is the exception that ended it. The
  theory connects the loop with the bounded rounds of \<open>Job_Worker\<close>.
\<close>

section \<open>The loop\<close>

partial_function (option) worker_loop :: "'s job_worker \<Rightarrow> 's \<Rightarrow> (exn \<times> 's) option" where
  "worker_loop W s = (let (r, s') = worker_round W s in
     if isl r then Some (projl r, s') else worker_loop W s')"

text \<open>What \<open>run\<close> does before the loop.\<close>

definition prepare :: "'s job_worker \<Rightarrow> ('s, unit) prog" where
  "prepare W =
     bindM (os_makedirs (jw_os W) (jw_export_dir W) 448) (\<lambda>_.
     bindM (os_chmod (jw_os W) (jw_export_dir W) 448) (\<lambda>_.
       ensure_group (jw_redis W)))"

definition run_forever :: "'s job_worker \<Rightarrow> 's \<Rightarrow> (exn \<times> 's) option" where
  "run_forever W s = (case prepare W s of (Inl e, s') \<Rightarrow> Some (e, s') | (Inr _, s') \<Rightarrow> worker_loop W s')"

section \<open>The loop and its rounds\<close>

lemma loop_raises: "worker_round W s = (Inl e, s') \<Longrightarrow> worker_loop W s = Some (e, s')"
  by (simp add: worker_loop.simps [of W s])

lemma loop_goes_on: "worker_round W s = (Inr u, s') \<Longrightarrow> worker_loop W s = worker_loop W s'"
  by (simp add: worker_loop.simps [of W s])

lemma rounds_then_loop: "rounds W n s = (Inr u, s') \<Longrightarrow> worker_loop W s = worker_loop W s'"
proof (induction n arbitrary: s)
  case (Suc n)
  then show ?case by (auto simp: loop_goes_on elim!: bindM_InrE)
qed simp

text \<open>An endless loop that returns was interrupted in one of its rounds, and the other way round.\<close>

lemma loop_interrupted: "rounds W n s = (Inl e, s') \<Longrightarrow> worker_loop W s = Some (e, s')"
proof (induction n arbitrary: s)
  case (Suc n)
  obtain r s1 where r: "worker_round W s = (r, s1)" by fastforce
  with Suc show ?case by (cases r) (auto simp: bindM_def loop_raises loop_goes_on)
qed simp

lemma loop_returns:
  assumes "worker_loop W s = Some r"
  shows "\<exists>n. rounds W n s = (Inl (fst r), snd r)"
proof (rule worker_loop.raw_induct [OF _ assms, where P = "\<lambda>W s r. \<exists>n. rounds W n s = (Inl (fst r), snd r)"])
  fix loop :: "'a job_worker \<Rightarrow> 'a \<Rightarrow> (exn \<times> 'a) option" and W s r
  assume IH: "\<And>W s r. loop W s = Some r \<Longrightarrow> \<exists>n. rounds W n s = (Inl (fst r), snd r)"
    and body: "(let (q, s') = worker_round W s in if isl q then Some (projl q, s') else loop W s') = Some r"
  obtain q s1 where q: "worker_round W s = (q, s1)" by fastforce
  show "\<exists>n. rounds W n s = (Inl (fst r), snd r)"
  proof (cases q)
    case (Inl x)
    with body q show ?thesis by (intro exI [of _ 1]) (auto simp: bindM_def)
  next
    case (Inr u)
    with body q have "loop W s1 = Some r" by simp
    from IH [OF this] obtain n where "rounds W n s1 = (Inl (fst r), snd r)" ..
    with Inr q show ?thesis by (intro exI [of _ "Suc n"]) (simp add: bindM_def)
  qed
qed

lemma loop_iff: "worker_loop W s = Some (e, s') \<longleftrightarrow> (\<exists>n. rounds W n s = (Inl e, s'))"
  using loop_returns [of W s "(e, s')"] by (auto intro: loop_interrupted)

lemma run_worker_prepare: "run_worker W n = bindM (prepare W) (\<lambda>_. rounds W n)"
  by (auto simp: run_worker_def prepare_def bindM_def fun_eq_iff split: prod.splits sum.splits)

text \<open>A round handles every exception that is no cancellation, and then only pauses.\<close>

lemma round_cancelled:
  assumes "\<And>t s e s'. os_sleep (jw_os W) t s = (Inl e, s') \<Longrightarrow> e = CancelledError"
    and "worker_round W s = (Inl e, s')"
  shows "e = CancelledError"
  using assms(2) unfolding worker_round_def
  by (auto simp: tryM_def is_exception_def split: prod.splits sum.splits if_splits dest: assms(1))

lemma rounds_cancelled:
  assumes "\<And>t s e s'. os_sleep (jw_os W) t s = (Inl e, s') \<Longrightarrow> e = CancelledError"
  shows "rounds W n s = (Inl e, s') \<Longrightarrow> e = CancelledError"
proof (induction n arbitrary: s)
  case (Suc n)
  obtain r s1 where "worker_round W s = (r, s1)" by fastforce
  with Suc show ?case using round_cancelled [of W s, OF assms] by (cases r) (auto simp: bindM_def)
qed simp

section \<open>Property\<close>

text \<open>
  C14: when the worker ends. The task returns exactly if some number of rounds is interrupted, with that exception
  and state, and never otherwise. What interrupts it is its cancellation, unless it could not even prepare: no
  failure of Redis, of Google, of the disk or of a job ends the loop. So a worker task that ended with
  an exception of its own never processed a job.
\<close>

theorem worker_runs_until_cancelled:
  assumes "\<And>t s e s'. os_sleep (jw_os W) t s = (Inl e, s') \<Longrightarrow> e = CancelledError"
  shows "(run_forever W s = Some (e, s') \<longleftrightarrow> (\<exists>n. run_worker W n s = (Inl e, s')))
    \<and> (run_forever W s = None \<longleftrightarrow> (\<forall>n. \<exists>s1. run_worker W n s = (Inr (), s1)))
    \<and> (run_forever W s = Some (e, s') \<longrightarrow> e = CancelledError \<or> prepare W s = (Inl e, s'))"
proof -
  obtain r s1 where r: "prepare W s = (r, s1)" by fastforce
  show ?thesis
  proof (cases r)
    case (Inl x)
    then show ?thesis using r by (auto simp: run_forever_def run_worker_prepare bindM_def)
  next
    case (Inr u)
    have run: "run_worker W n s = rounds W n s1" "run_forever W s = worker_loop W s1" for n
      using r Inr by (simp_all add: run_worker_prepare run_forever_def bindM_def)
    have "worker_loop W s1 = None \<longleftrightarrow> (\<forall>n. \<exists>s2. rounds W n s1 = (Inr (), s2))"
    proof
      assume none: "worker_loop W s1 = None"
      show "\<forall>n. \<exists>s2. rounds W n s1 = (Inr (), s2)"
      proof
        fix n
        obtain q s2 where "rounds W n s1 = (q, s2)" by fastforce
        with none loop_interrupted [of W n s1 _ s2] show "\<exists>s2. rounds W n s1 = (Inr (), s2)" by (cases q) auto
      qed
    next
      assume "\<forall>n. \<exists>s2. rounds W n s1 = (Inr (), s2)"
      then have "worker_loop W s1 \<noteq> Some (e, s2)" for e s2 unfolding loop_iff by (metis Inl_Inr_False prod.inject)
      then show "worker_loop W s1 = None" by (metis not_None_eq surj_pair)
    qed
    moreover have "e = CancelledError" if "rounds W n s1 = (Inl e, s')" for n
      by (rule rounds_cancelled [OF _ that]) (rule assms)
    ultimately show ?thesis unfolding run loop_iff by blast
  qed
qed

definition stopping_worker :: "world job_worker" where
  "stopping_worker = sample_worker\<lparr>jw_os := world_os\<lparr>os_sleep := (\<lambda>t w. (Inl CancelledError, w))\<rparr>\<rparr>"

theorem worker_runs_until_cancelled_witness:
  "\<exists>s'. run_forever stopping_worker (queued_world waiting_group []) = Some (CancelledError, s')"
proof -
  let ?w = "queued_world waiting_group []"
  have "fst (run_worker stopping_worker 2 ?w) = Inl CancelledError" by code_simp
  then have run: "run_worker stopping_worker 2 ?w = (Inl CancelledError, snd (run_worker stopping_worker 2 ?w))" by (metis prod.collapse)
  have sleep: "os_sleep (jw_os stopping_worker) t s = (Inl e, s') \<Longrightarrow> e = CancelledError" for t s e s'
    by (simp add: stopping_worker_def)
  have "run_forever stopping_worker ?w = Some (CancelledError, snd (run_worker stopping_worker 2 ?w))
      \<longleftrightarrow> (\<exists>n. run_worker stopping_worker n ?w = (Inl CancelledError, snd (run_worker stopping_worker 2 ?w)))"
    by (rule worker_runs_until_cancelled [THEN conjunct1]) (rule sleep)
  with run show ?thesis by blast
qed

end
