(* ===== verification/Webhook_Interleaving.thy ===== *)
theory Webhook_Interleaving
  imports Webhooks
begin

text \<open>
  Deliveries of Slack events that overlap. A handler gives up control at every Redis command, so the
  commands of several deliveries, also of several gateway processes on one server, come in any order. The
  theory cuts \<open>accept_event\<close> of \<open>Webhooks\<close> (\<open>app/api/webhooks_router.py\<close>) at its commands, shows that the
  pieces in a row are the handler, and follows any number of deliveries through every interleaving, with
  failures and with the passing of time.
\<close>

section \<open>A delivery, command by command\<close>

datatype delivery = Received string string | Publishing fields | Answered "json res"

definition publishing :: "json \<Rightarrow> json \<Rightarrow> string \<Rightarrow> string \<Rightarrow> delivery" where
  "publishing event_id typ timestamp raw = (case slack_event_fields event_id typ timestamp raw of
     Inl e \<Rightarrow> Answered (Inl e) | Inr fs \<Rightarrow> Publishing fs)"

text \<open>The handler up to and with its first command.\<close>

definition receive :: "'s redis \<Rightarrow> string \<Rightarrow> string \<Rightarrow> 's \<Rightarrow> delivery \<times> 's" where
  "receive R timestamp raw s = (case loads raw of
     Inl e \<Rightarrow> (Answered (Inl (if is_value_error e then HTTPException 400 ''invalid JSON'' else e)), s)
   | Inr (JObj body) \<Rightarrow>
       if dict_get body ''type'' = Some (JStr ''url_verification'') then
         (Answered (Inr (JObj [(''challenge'', dict_get_default body ''challenge'' (JStr []))])), s)
       else let event_id = dict_get_default body ''event_id'' (JStr []); typ = dict_get_default body ''type'' (JStr []) in
         if truthy event_id then
           (case r_set R (DEDUP_PREFIX @ py_str event_id) ''1'' (Some DEDUP_TTL_SECONDS) True s of
             (Inl e, s') \<Rightarrow> (Answered (Inl e), s')
           | (Inr created, s') \<Rightarrow>
               (if \<not> created then Answered (Inr (JObj [(''ok'', JBool True), (''duplicate'', JBool True)]))
                else publishing event_id typ timestamp raw, s'))
         else (publishing event_id typ timestamp raw, s)
   | Inr _ \<Rightarrow> (Answered (Inl (HTTPException 400 ''invalid JSON'')), s))"

fun deliver :: "'s redis \<Rightarrow> delivery \<Rightarrow> 's \<Rightarrow> delivery \<times> 's" where
  "deliver R (Received timestamp raw) s = receive R timestamp raw s"
| "deliver R (Publishing fs) s = (case r_xadd R EVENTS_STREAM fs s of
     (Inl e, s') \<Rightarrow> (Answered (Inl e), s') | (Inr _, s') \<Rightarrow> (Answered (Inr (JObj [(''ok'', JBool True)])), s'))"
| "deliver R (Answered r) s = (Answered r, s)"

lemma deliver_publishing:
  "deliver R (publishing event_id typ ts raw) s = (case publish_event R event_id typ ts raw s of (r, s') \<Rightarrow> (Answered r, s'))"
  by (auto simp: publishing_def publish_event_def bindM_def split: sum.splits prod.splits)

text \<open>Alone, a delivery is the handler: two pieces and it has answered.\<close>

lemma deliver_alone:
  "(case deliver R (Received ts raw) s of (d, s1) \<Rightarrow> deliver R d s1) = (case accept_event R ts raw s of (r, s') \<Rightarrow> (Answered r, s'))"
proof (cases "loads raw")
  case (Inr j)
  show ?thesis
  proof (cases j)
    case (JObj body)
    then show ?thesis using Inr
      by (auto simp: deliver_publishing receive_def accept_event_def Let_def bindM_def split: prod.splits sum.splits)
  qed (simp_all add: receive_def accept_event_def Inr)
qed (simp add: receive_def accept_event_def)

section \<open>Interleavings\<close>

text \<open>What others do on the server: time goes by, and every key but those of the webhook may change.\<close>

definition elsewhere :: "rstate \<Rightarrow> rstate \<Rightarrow> bool" where
  "elsewhere st st' \<longleftrightarrow> rs_now st \<le> rs_now st' \<and> map_of (rs_db st') EVENTS_STREAM = map_of (rs_db st) EVENTS_STREAM
     \<and> (\<forall>i. map_of (rs_db st') (DEDUP_PREFIX @ i) = map_of (rs_db st) (DEDUP_PREFIX @ i))"

text \<open>
  A step of the pool: one delivery runs its next piece, or something happens elsewhere. With faults, a piece may also fail,
  before its command reached the server or after it was carried out.
\<close>

inductive pool_step :: "bool \<Rightarrow> rstate \<times> delivery list \<Rightarrow> rstate \<times> delivery list \<Rightarrow> bool" for faults where
  piece: "k < length ds \<Longrightarrow> deliver spec_redis (ds ! k) st = (d, st') \<Longrightarrow> pool_step faults (st, ds) (st', ds[k := d])"
| others: "elsewhere st st' \<Longrightarrow> pool_step faults (st, ds) (st', ds)"
| unsent: "faults \<Longrightarrow> k < length ds \<Longrightarrow> pool_step faults (st, ds) (st, ds[k := Answered (Inl e)])"
| unanswered: "faults \<Longrightarrow> k < length ds \<Longrightarrow> deliver spec_redis (ds ! k) st = (d, st') \<Longrightarrow> pool_step faults (st, ds) (st', ds[k := Answered (Inl e)])"

text \<open>The entries of the event stream with a given event id.\<close>

definition published :: "string \<Rightarrow> rstate \<Rightarrow> nat" where
  "published i st = length (filter (\<lambda>e. dict_get (snd e) ''event_id'' = Some i) (s_entries (rs_stream st EVENTS_STREAM)))"

definition about_to_publish :: "string \<Rightarrow> delivery \<Rightarrow> bool" where
  "about_to_publish i d \<longleftrightarrow> (\<exists>fs. d = Publishing fs \<and> dict_get fs ''event_id'' = Some i)"

text \<open>Slack names an event by a string.\<close>

definition string_event :: "string \<Rightarrow> bool" where
  "string_event raw \<longleftrightarrow> (\<forall>body v. loads raw = Inr (JObj body) \<longrightarrow> dict_get body ''event_id'' = Some v \<longrightarrow> (\<exists>s. v = JStr s))"

definition names_event :: "string \<Rightarrow> string \<Rightarrow> bool" where
  "names_event i raw \<longleftrightarrow> (\<exists>body ty. loads raw = Inr (JObj body) \<and> dict_get body ''event_id'' = Some (JStr i)
     \<and> dict_get body ''type'' = Some (JStr ty) \<and> ty \<noteq> ''url_verification'')"

definition mentions :: "string \<Rightarrow> string \<Rightarrow> bool" where
  "mentions i raw \<longleftrightarrow> (\<exists>body. loads raw = Inr (JObj body) \<and> dict_get body ''event_id'' = Some (JStr i))"

abbreviation seen :: "string \<Rightarrow> rstate \<Rightarrow> bool" where
  "seen i st \<equiv> rs_find st (DEDUP_PREFIX @ i) \<noteq> None"

section \<open>What the commands do to an event\<close>

lemma rs_set_new:
  "rs_set k v (Some DEDUP_TTL_SECONDS) True st = (if rs_find st k \<noteq> None then (Inr False, st)
     else (Inr True, rs_put k (RStr v) (Some (rs_now st + 3600000)) st))"
  by (simp add: rs_set_def DEDUP_TTL_SECONDS_def)

lemma stream_put_dedup: "rs_stream (rs_put (DEDUP_PREFIX @ i) v d st) EVENTS_STREAM = rs_stream st EVENTS_STREAM"
  using dedup_key_apart [of i] by (simp add: rs_stream_def)

lemma published_put_dedup [simp]: "published i (rs_put (DEDUP_PREFIX @ j) v d st) = published i st"
  by (simp add: published_def stream_put_dedup)

lemma find_xadd_dedup: "rs_find (snd (rs_xadd EVENTS_STREAM fs st)) (DEDUP_PREFIX @ i) = rs_find st (DEDUP_PREFIX @ i)"
  using dedup_key_apart [of i] by (simp add: rs_xadd_def rs_put_stream_def Let_def)

lemma now_xadd: "rs_now (snd (rs_xadd EVENTS_STREAM fs st)) = rs_now st"
  by (simp add: rs_xadd_def rs_put_stream_def Let_def)

lemma published_xadd:
  "published i (snd (rs_xadd EVENTS_STREAM fs st)) = published i st
     + (if \<not> is_string_key st EVENTS_STREAM \<and> dict_get fs ''event_id'' = Some i then 1 else 0)"
proof (cases "is_string_key st EVENTS_STREAM")
  case False
  have live: "alive (rs_now st) (deadline st EVENTS_STREAM)"
    by (auto simp: deadline_def rs_find_def split: option.splits if_splits)
  with False show ?thesis
    by (simp add: rs_xadd_def Let_def rs_put_stream_def published_def rs_stream_def [of "rs_put EVENTS_STREAM _ _ _"])
qed (simp add: rs_xadd_def)

text \<open>Elsewhere time goes by: a key that expires stays expired, one that lives long enough stays.\<close>

lemma elsewhere_find:
  assumes "elsewhere st st'"
  shows "rs_find st (DEDUP_PREFIX @ i) = None \<Longrightarrow> rs_find st' (DEDUP_PREFIX @ i) = None"
    "rs_find st (DEDUP_PREFIX @ i) = Some (v, Some t) \<Longrightarrow> rs_now st' \<le> t \<Longrightarrow> rs_find st' (DEDUP_PREFIX @ i) = Some (v, Some t)"
  using assms by (auto simp: elsewhere_def rs_find_def alive_def split: option.splits if_splits)

text \<open>The event stream is a stream, or not there yet, and does not expire.\<close>

definition event_log :: "rstate \<Rightarrow> bool" where
  "event_log st \<longleftrightarrow> (case map_of (rs_db st) EVENTS_STREAM of None \<Rightarrow> True
     | Some (RStream _, d) \<Rightarrow> d = None | Some (RStr _, _) \<Rightarrow> False)"

lemma event_log_stream: "event_log st \<Longrightarrow> \<not> is_string_key st EVENTS_STREAM \<and> deadline st EVENTS_STREAM = None"
  by (auto simp: event_log_def is_string_key_def deadline_def rs_find_def split: option.splits rval.splits if_splits)

lemma event_log_kept:
  "event_log st \<Longrightarrow> event_log (rs_put (DEDUP_PREFIX @ i) v d st)"
  "event_log st \<Longrightarrow> event_log (snd (rs_xadd EVENTS_STREAM fs st))"
  "event_log st \<Longrightarrow> elsewhere st st' \<Longrightarrow> event_log st'"
  using dedup_key_apart [of i] event_log_stream [of st]
  by (auto simp: event_log_def rs_put_def rs_xadd_def rs_put_stream_def Let_def elsewhere_def)

lemma elsewhere_published:
  assumes "elsewhere st st'"
  shows "published i st' \<le> published i st"
    "event_log st \<Longrightarrow> published i st' = published i st"
proof -
  have "rs_stream st' EVENTS_STREAM = rs_stream st EVENTS_STREAM \<or> rs_stream st' EVENTS_STREAM = empty_stream"
    using assms by (auto simp: elsewhere_def rs_stream_def rs_find_def alive_def split: option.splits if_splits rval.splits)
  then show "published i st' \<le> published i st" by (auto simp: published_def empty_stream_def)
  show "published i st' = published i st" if "event_log st"
    using assms that by (auto simp: event_log_def elsewhere_def published_def rs_stream_def rs_find_def alive_def split: option.splits rval.splits)
qed

text \<open>The fields of a delivery name the event that its key names.\<close>

lemma publishing_fields:
  assumes "publishing (JStr j) typ ts raw = Publishing fs"
  shows "dict_get fs ''event_id'' = Some j"
  using assms by (auto simp: publishing_def slack_event_fields_def bind_res_def split: sum.splits)

text \<open>What receiving does: it is rejected or already seen, or its key is written, or it has no id.\<close>

lemma receive_cases:
  assumes "receive spec_redis ts raw st = (d, st')" "string_event raw"
  obtains r where "d = Answered r" "st' = st" "\<And>i. names_event i raw \<Longrightarrow> i \<noteq> [] \<Longrightarrow> seen i st"
  | j kind where "d = publishing (JStr j) kind ts raw" "st' = rs_put (DEDUP_PREFIX @ j) (RStr ''1'') (Some (rs_now st + 3600000)) st"
      "\<not> seen j st" "j \<noteq> []" "mentions j raw" "\<And>i. names_event i raw \<Longrightarrow> i = j \<and> (\<exists>ty. kind = JStr ty)"
  | kind where "d = publishing (JStr []) kind ts raw" "st' = st" "\<And>i. names_event i raw \<Longrightarrow> i = []"
proof (cases "loads raw")
  case (Inl e)
  then show thesis using assms(1) that(1) by (auto simp: receive_def names_event_def)
next
  case (Inr j)
  show thesis
  proof (cases j)
    case (JObj body)
    note body = Inr [unfolded JObj]
    show thesis
    proof (cases "dict_get body ''type'' = Some (JStr ''url_verification'')")
      case True
      then show thesis using assms(1) that(1) by (auto simp: receive_def body names_event_def)
    next
      case ordinary: False
      obtain i where i: "dict_get_default body ''event_id'' (JStr []) = JStr i"
        using assms(2) body by (cases "dict_get body ''event_id''") (auto simp: string_event_def dict_get_default_def)
      let ?kd = "dict_get_default body ''type'' (JStr [])"
      have mention: "mentions i raw" if "i \<noteq> []"
        using i body that by (cases "dict_get body ''event_id''") (auto simp: mentions_def dict_get_default_def)
      have names: "i' = i \<and> (\<exists>ty. ?kd = JStr ty)" if "names_event i' raw" for i'
        using that i by (auto simp: names_event_def body dict_get_default_def)
      show thesis
      proof (cases "i = []")
        case True
        then show thesis using assms(1) ordinary i names by (intro that(3) [of ?kd]) (auto simp: receive_def body Let_def)
      next
        case id: False
        show thesis
        proof (cases "seen i st")
          case True
          then show thesis using assms(1) ordinary i id names by (intro that(1)) (auto simp: receive_def body rs_set_new Let_def)
        next
          case False
          then show thesis using assms(1) ordinary i id names mention by (intro that(2) [of i ?kd]) (auto simp: receive_def body rs_set_new Let_def)
        qed
      qed
    qed
  qed (use assms(1) that(1) Inr in \<open>auto simp: receive_def names_event_def\<close>)
qed

section \<open>The effect of one piece on one event\<close>

definition sound :: "delivery \<Rightarrow> bool" where
  "sound d \<longleftrightarrow> (case d of Received ts raw \<Rightarrow> string_event raw | _ \<Rightarrow> True)"

text \<open>Where an event stands: how often it was published, how many are about to publish it, and whether it was seen.\<close>

abbreviation pending :: "string \<Rightarrow> delivery \<Rightarrow> nat" where
  "pending i d \<equiv> (if about_to_publish i d then 1 else 0)"

abbreviation once :: "string \<Rightarrow> rstate \<Rightarrow> nat" where
  "once i st \<equiv> (if seen i st then 1 else 0)"

lemma pending_publishing:
  assumes "i \<noteq> []"
  shows "pending i (publishing (JStr j) kind ts raw) \<le> (if i = j then 1 else 0)"
    "pending j (publishing (JStr j) (JStr ty) ts raw) = 1"
  by (auto simp: about_to_publish_def dest: publishing_fields)
    (simp add: publishing_def slack_event_fields_def)

lemma deliver_effect:
  assumes run: "deliver spec_redis d st = (d', st')" and d: "sound d" and i: "i \<noteq> []"
  shows "sound d' \<and> rs_now st' = rs_now st
    \<and> published i st' + pending i d' + once i st \<le> published i st + pending i d + once i st'
    \<and> (rs_find st' (DEDUP_PREFIX @ i) = rs_find st (DEDUP_PREFIX @ i)
       \<or> rs_find st' (DEDUP_PREFIX @ i) = Some (RStr ''1'', Some (rs_now st + 3600000)) \<and> \<not> seen i st)"
proof (cases d)
  case (Received ts raw)
  then have "receive spec_redis ts raw st = (d', st')" "string_event raw" using run d by (simp_all add: sound_def)
  then show ?thesis
  proof (cases rule: receive_cases)
    case (1 r)
    then show ?thesis using Received by (simp add: sound_def about_to_publish_def)
  next
    case (2 j kind)
    have "sound d'" by (auto simp: 2(1) publishing_def sound_def split: sum.splits)
    moreover have "pending i d' \<le> (if i = j then 1 else 0)" unfolding 2(1) by (rule pending_publishing(1) [OF i])
    ultimately show ?thesis using 2(2,3) Received by (auto simp: about_to_publish_def alive_def)
  next
    case (3 kind)
    have "sound d'" by (auto simp: 3(1) publishing_def sound_def split: sum.splits)
    moreover have "pending i d' = 0" using pending_publishing(1) [OF i, of "[]" kind ts raw] i by (simp add: 3(1))
    ultimately show ?thesis using 3(2) by simp
  qed
next
  case (Publishing fs)
  obtain r where x: "rs_xadd EVENTS_STREAM fs st = (r, st')" and d': "\<exists>a. d' = Answered a"
    using run Publishing by (cases "rs_xadd EVENTS_STREAM fs st") (auto split: sum.splits)
  then have "st' = snd (rs_xadd EVENTS_STREAM fs st)" by simp
  then show ?thesis using d' Publishing by (auto simp: sound_def about_to_publish_def published_xadd find_xadd_dedup now_xadd)
next
  case (Answered r)
  then show ?thesis using run by (auto simp: sound_def)
qed

text \<open>Without faults, on a proper stream, nothing gets lost on the way.\<close>

lemma deliver_exact:
  assumes run: "deliver spec_redis d st = (d', st')" and d: "sound d" and i: "i \<noteq> []" and log: "event_log st"
    and named: "\<And>ts raw. d = Received ts raw \<Longrightarrow> mentions i raw \<Longrightarrow> names_event i raw"
  shows "event_log st' \<and> published i st' + pending i d' + once i st = published i st + pending i d + once i st'
    \<and> (\<forall>ts raw. d = Received ts raw \<and> names_event i raw \<longrightarrow> seen i st') \<and> (\<forall>ts raw. d' \<noteq> Received ts raw)"
proof (cases d)
  case (Received ts raw)
  then have "receive spec_redis ts raw st = (d', st')" "string_event raw" using run d by (simp_all add: sound_def)
  then show ?thesis
  proof (cases rule: receive_cases)
    case (1 r)
    then show ?thesis using Received i log by (auto simp: about_to_publish_def)
  next
    case (2 j kind)
    have later: "\<forall>ts raw. d' \<noteq> Received ts raw" by (auto simp: 2(1) publishing_def split: sum.splits)
    have log': "event_log st'" unfolding 2(2) by (rule event_log_kept(1) [OF log])
    show ?thesis
    proof (cases "i = j")
      case True
      then obtain ty where "kind = JStr ty" using 2(5,6) named [OF Received] by blast
      then have "pending i d' = 1" using pending_publishing(2) [OF i, of i ty ts raw] True by (simp add: 2(1))
      then show ?thesis using 2(2,3) True Received later log' by (auto simp: about_to_publish_def alive_def)
    next
      case False
      then have "pending i d' = 0" using pending_publishing(1) [OF i, of j kind ts raw] by (simp add: 2(1))
      then show ?thesis using 2(2,6) False Received later log' by (auto simp: about_to_publish_def)
    qed
  next
    case (3 kind)
    have "\<forall>ts raw. d' \<noteq> Received ts raw" by (auto simp: 3(1) publishing_def split: sum.splits)
    moreover have "pending i d' = 0" using pending_publishing(1) [OF i, of "[]" kind ts raw] i by (simp add: 3(1))
    ultimately show ?thesis using 3(2,3) Received i log by (auto simp: about_to_publish_def)
  qed
next
  case (Publishing fs)
  obtain r where x: "rs_xadd EVENTS_STREAM fs st = (r, st')" and d': "\<exists>a. d' = Answered a"
    using run Publishing by (cases "rs_xadd EVENTS_STREAM fs st") (auto split: sum.splits)
  then have "st' = snd (rs_xadd EVENTS_STREAM fs st)" by simp
  then show ?thesis using d' Publishing log event_log_stream [OF log]
    by (auto simp: about_to_publish_def published_xadd find_xadd_dedup event_log_kept(2))
next
  case (Answered r)
  then show ?thesis using run log by auto
qed

section \<open>The pool\<close>

definition pendings :: "string \<Rightarrow> delivery list \<Rightarrow> nat" where
  "pendings i ds = length (filter (about_to_publish i) ds)"

lemma pendings_update: "k < length ds \<Longrightarrow> pendings i (ds[k := d]) + pending i (ds ! k) = pendings i ds + pending i d"
proof (induction ds arbitrary: k)
  case (Cons x ds)
  then show ?case using Cons.IH [of "k - 1"] by (cases k) (auto simp: pendings_def)
qed simp

text \<open>The invariant for one event: a marker is written at most once, and pays for one publication.\<close>

definition once_inv :: "int \<Rightarrow> nat \<Rightarrow> string \<Rightarrow> rstate \<times> delivery list \<Rightarrow> bool" where
  "once_inv t0 n i = (\<lambda>(st, ds). t0 \<le> rs_now st \<and> (\<forall>d\<in>set ds. sound d)
     \<and> (seen i st \<longrightarrow> (\<exists>v t. rs_find st (DEDUP_PREFIX @ i) = Some (v, Some t) \<and> t0 + 3600000 \<le> t))
     \<and> published i st + pendings i ds \<le> n + once i st)"

lemma once_inv_piece:
  assumes inv: "once_inv t0 n i (st, ds)" and k: "k < length ds" and i: "i \<noteq> []"
    and run: "deliver spec_redis (ds ! k) st = (d', st')" and d: "d = d' \<or> d = Answered r"
  shows "once_inv t0 n i (st', ds[k := d])"
proof -
  have "sound (ds ! k)" using inv k by (auto simp: once_inv_def)
  note eff = deliver_effect [OF run this i]
  have pend: "pending i d \<le> pending i d'" and snd_d: "sound d" using d eff by (auto simp: about_to_publish_def sound_def)
  have "published i st' + pendings i (ds[k := d]) \<le> n + once i st'"
    using eff inv pendings_update [OF k, of i d] pend unfolding once_inv_def prod.case by linarith
  moreover have "\<forall>x\<in>set (ds[k := d]). sound x"
    using inv snd_d set_update_subset_insert [of ds k d] unfolding once_inv_def by auto
  ultimately show ?thesis using eff inv by (auto simp: once_inv_def)
qed

lemma once_inv_step:
  assumes "pool_step faults x y" "once_inv t0 n i x" "i \<noteq> []" "rs_now (fst y) \<le> t0 + 3600000"
  shows "once_inv t0 n i y"
  using assms
proof (induction rule: pool_step.induct)
  case (piece k ds st d st')
  then show ?case using once_inv_piece by blast
next
  case (others st st' ds)
  show ?case
  proof (cases "seen i st")
    case True
    then obtain v t where k: "rs_find st (DEDUP_PREFIX @ i) = Some (v, Some t)" "t0 + 3600000 \<le> t" using others by (auto simp: once_inv_def)
    have "rs_find st' (DEDUP_PREFIX @ i) = Some (v, Some t)"
      by (rule elsewhere_find(2) [OF others(1) k(1)]) (use k(2) others(4) in simp)
    then show ?thesis using others k elsewhere_published(1) [OF others(1), of i] by (auto simp: once_inv_def elsewhere_def)
  next
    case False
    then have "rs_find st (DEDUP_PREFIX @ i) = None" by blast
    then have "rs_find st' (DEDUP_PREFIX @ i) = None" by (rule elsewhere_find(1) [OF others(1)])
    then show ?thesis using others False elsewhere_published(1) [OF others(1), of i] by (auto simp: once_inv_def elsewhere_def)
  qed
next
  case (unsent k ds st e)
  have "pendings i (ds[k := Answered (Inl e)]) \<le> pendings i ds"
    using pendings_update [OF unsent(2), of i "Answered (Inl e)"] by (simp add: about_to_publish_def)
  then show ?case using unsent set_update_subset_insert [of ds k "Answered (Inl e)"] by (auto simp: once_inv_def sound_def)
next
  case (unanswered k ds st d st' e)
  then show ?case using once_inv_piece by blast
qed

text \<open>Without faults the marker is paid for, and every delivery that has started left it behind.\<close>

definition started :: "string \<Rightarrow> rstate \<Rightarrow> delivery \<Rightarrow> string \<times> string \<Rightarrow> bool" where
  "started i st d = (\<lambda>(ts, raw). d = Received ts raw \<or> ((\<forall>a b. d \<noteq> Received a b) \<and> (names_event i raw \<longrightarrow> seen i st)))"

definition exact_inv :: "nat \<Rightarrow> string \<Rightarrow> (string \<times> string) list \<Rightarrow> rstate \<times> delivery list \<Rightarrow> bool" where
  "exact_inv n i rs = (\<lambda>(st, ds). event_log st \<and> published i st + pendings i ds = n + once i st \<and> list_all2 (started i st) ds rs)"

lemma started_mono: "started i st d r \<Longrightarrow> (seen i st \<Longrightarrow> seen i st') \<Longrightarrow> started i st' d r"
  by (auto simp: started_def)

lemma exact_inv_step:
  assumes "pool_step False x y" "once_inv t0 n i x" "exact_inv n i rs x" "i \<noteq> []" "rs_now (fst y) \<le> t0 + 3600000"
    and named: "\<And>ts raw. (ts, raw) \<in> set rs \<Longrightarrow> mentions i raw \<Longrightarrow> names_event i raw"
  shows "exact_inv n i rs y"
  using assms(1-5)
proof (induction rule: pool_step.induct)
  case (piece k ds st d st')
  have all: "list_all2 (started i st) ds rs" using piece by (simp add: exact_inv_def)
  then have k: "started i st (ds ! k) (rs ! k)" "rs ! k \<in> set rs" using piece(1) by (auto simp: list_all2_conv_all_nth)
  obtain ts0 raw0 where rk: "rs ! k = (ts0, raw0)" by fastforce
  have "sound (ds ! k)" using piece by (auto simp: once_inv_def)
  moreover have "names_event i raw" if "ds ! k = Received ts raw" "mentions i raw" for ts raw
    using that k rk named [of ts0 raw0] by (auto simp: started_def)
  ultimately have eff: "event_log st' \<and> published i st' + pending i d + once i st = published i st + pending i (ds ! k) + once i st'
      \<and> (\<forall>ts raw. ds ! k = Received ts raw \<and> names_event i raw \<longrightarrow> seen i st') \<and> (\<forall>ts raw. d \<noteq> Received ts raw)"
    using deliver_exact [OF piece(2), of i] piece by (auto simp: exact_inv_def)
  have mono: "seen i st \<Longrightarrow> seen i st'" using deliver_effect [OF piece(2) \<open>sound (ds ! k)\<close> piece(5)] by auto
  have paid: "published i st' + pendings i (ds[k := d]) = n + once i st'"
    using eff piece pendings_update [OF piece(1), of i d] unfolding exact_inv_def prod.case by linarith
  have "started i st' d (rs ! k)" using eff k(1) rk mono by (auto simp: started_def)
  moreover have "started i st' (ds ! m) (rs ! m)" if "m < length ds" for m
    by (rule started_mono [of i st]) (use all that mono in \<open>auto simp: list_all2_conv_all_nth\<close>)
  ultimately have "list_all2 (started i st') (ds[k := d]) rs"
    using all piece(1) by (auto simp: list_all2_conv_all_nth nth_list_update)
  then show ?case using eff paid by (simp add: exact_inv_def)
next
  case (others st st' ds)
  have inv: "once_inv t0 n i (st, ds)" "exact_inv n i rs (st, ds)" "rs_now st' \<le> t0 + 3600000" using others by simp_all
  have same: "seen i st' \<longleftrightarrow> seen i st"
  proof (cases "seen i st")
    case True
    then obtain v t where "rs_find st (DEDUP_PREFIX @ i) = Some (v, Some t)" "t0 + 3600000 \<le> t" using inv(1) by (auto simp: once_inv_def)
    then show ?thesis using elsewhere_find(2) [OF others(1), of i v t] inv(3) by auto
  next
    case False
    then have "rs_find st (DEDUP_PREFIX @ i) = None" by blast
    then show ?thesis using elsewhere_find(1) [OF others(1), of i] by simp
  qed
  then have "list_all2 (started i st') ds rs" using inv(2) by (auto simp: exact_inv_def started_def elim!: list_all2_mono)
  then show ?case using inv(2) same elsewhere_published(2) [OF others(1), of i] event_log_kept(3) [OF _ others(1)]
    by (auto simp: exact_inv_def)
qed simp_all

lemma deliver_time: "deliver spec_redis d st = (d', st') \<Longrightarrow> rs_now st' = rs_now st"
proof (cases d)
  case (Publishing fs)
  then show "deliver spec_redis d st = (d', st') \<Longrightarrow> rs_now st' = rs_now st"
    using now_xadd [of fs st] by (auto split: prod.splits sum.splits)
qed (auto simp: receive_def rs_set_new Let_def split: sum.splits json.splits if_splits)

lemma pool_step_time: "pool_step faults x y \<Longrightarrow> rs_now (fst x) \<le> rs_now (fst y)"
  by (induction rule: pool_step.induct) (auto simp: deliver_time elsewhere_def)

lemma once_inv_steps:
  assumes "(pool_step faults)\<^sup>*\<^sup>* x y" "once_inv t0 n i x" "i \<noteq> []" "rs_now (fst y) \<le> t0 + 3600000"
  shows "once_inv t0 n i y"
  using assms(1,4)
proof (induction rule: rtranclp_induct)
  case (step y z)
  then show ?case using pool_step_time [OF step(2)] once_inv_step [OF step(2) _ assms(3)] by simp
qed (rule assms(2))

lemma exact_inv_steps:
  assumes "(pool_step False)\<^sup>*\<^sup>* x y" "once_inv t0 n i x" "exact_inv n i rs x" "i \<noteq> []" "rs_now (fst y) \<le> t0 + 3600000"
    and "\<And>ts raw. (ts, raw) \<in> set rs \<Longrightarrow> mentions i raw \<Longrightarrow> names_event i raw"
  shows "exact_inv n i rs y"
  using assms(1,5)
proof (induction rule: rtranclp_induct)
  case (step y z)
  then have "rs_now (fst y) \<le> t0 + 3600000" using pool_step_time [OF step(2)] by simp
  then have "once_inv t0 n i y" "exact_inv n i rs y" using step once_inv_steps [OF step(1) assms(2,4)] by simp_all
  then show ?case by (rule exact_inv_step [OF step(2) _ _ assms(4) step(4)]) (rule assms(6))
qed (rule assms(3))

section \<open>Property\<close>

text \<open>
  C13: overlapping deliveries publish an event once. Any number of deliveries of any events, their commands interleaved
  in any order with each other and with whatever else the server does, within an hour of a moment at which
  event \<open>i\<close> had not been seen: the event is published at most once more, also when commands fail before or after
  they take effect. Without such faults, once all deliveries have answered and at least one of them was
  for event \<open>i\<close>, it was published exactly once. One delivery on its own is the handler.
\<close>

theorem webhook_once_under_interleaving:
  assumes "(pool_step faults)\<^sup>*\<^sup>* (st, map (\<lambda>(ts, raw). Received ts raw) rs) (st', ds)"
    and "\<And>ts raw. (ts, raw) \<in> set rs \<Longrightarrow> string_event raw"
    and "i \<noteq> []" "rs_find st (''webhook:slack:'' @ i) = None" "rs_now st' \<le> rs_now st + 3600000"
  shows "published i st' \<le> published i st + 1
    \<and> (\<not> faults \<and> event_log st \<and> (\<forall>(ts, raw)\<in>set rs. mentions i raw \<longrightarrow> names_event i raw) \<and> (\<exists>(ts, raw)\<in>set rs. names_event i raw)
        \<and> (\<forall>d\<in>set ds. \<exists>r. d = Answered r) \<longrightarrow> published i st' = published i st + 1)
    \<and> (case deliver R (Received ts raw) s of (d, s1) \<Rightarrow> deliver R d s1) = (case accept_event R ts raw s of (r, s') \<Rightarrow> (Answered r, s'))"
proof (intro conjI impI)
  let ?start = "map (\<lambda>(ts, raw). Received ts raw) rs"
  have new: "\<not> seen i st" using assms(4) by (simp add: DEDUP_PREFIX_def)
  have idle: "pendings i ?start = 0" by (auto simp: pendings_def about_to_publish_def filter_empty_conv)
  have inv: "once_inv (rs_now st) (published i st) i (st, ?start)"
    using new idle assms(2) by (auto simp: once_inv_def sound_def)
  have final: "once_inv (rs_now st) (published i st) i (st', ds)"
    by (rule once_inv_steps [OF assms(1) inv assms(3)]) (simp add: assms(5))
  then show "published i st' \<le> published i st + 1" by (auto simp: once_inv_def split: if_splits)
  show "(case deliver R (Received ts raw) s of (d, s1) \<Rightarrow> deliver R d s1) = (case accept_event R ts raw s of (r, s') \<Rightarrow> (Answered r, s'))"
    by (rule deliver_alone)
  assume *: "\<not> faults \<and> event_log st \<and> (\<forall>(ts, raw)\<in>set rs. mentions i raw \<longrightarrow> names_event i raw) \<and> (\<exists>(ts, raw)\<in>set rs. names_event i raw)
        \<and> (\<forall>d\<in>set ds. \<exists>r. d = Answered r)"
  have "exact_inv (published i st) i rs (st, ?start)"
    using * new idle by (auto simp: exact_inv_def started_def list_all2_conv_all_nth split: prod.splits)
  then have exact: "exact_inv (published i st) i rs (st', ds)"
    using exact_inv_steps [of "(st, ?start)" "(st', ds)" "rs_now st" "published i st" i rs] assms(1,3,5) inv * by auto
  have idle_end: "pendings i ds = 0" using * by (auto simp: pendings_def about_to_publish_def filter_empty_conv)
  obtain k ts0 raw0 where k: "k < length rs" "rs ! k = (ts0, raw0)" "names_event i raw0" using * by (auto simp: in_set_conv_nth)
  have "length ds = length rs" "started i st' (ds ! k) (rs ! k)" using exact k(1) by (auto simp: exact_inv_def list_all2_conv_all_nth)
  moreover from this have "\<exists>r. ds ! k = Answered r" using * k(1) by auto
  ultimately have "seen i st'" using k(2,3) by (auto simp: started_def)
  then show "published i st' = published i st + 1" using exact idle_end by (simp add: exact_inv_def)
qed

text \<open>Two deliveries of one event: both are received before the first publishes, and the second is answered as a duplicate.\<close>

theorem webhook_once_under_interleaving_witness:
  "\<exists>st'. (pool_step False)\<^sup>*\<^sup>* (\<lparr>rs_now = 0, rs_db = []\<rparr>, [Received ''1000'' sample_event_body, Received ''1001'' sample_event_body])
      (st', [Answered (Inr (JObj [(''ok'', JBool True)])), Answered (Inr (JObj [(''ok'', JBool True), (''duplicate'', JBool True)]))])
    \<and> published ''Ev1'' st' = 1"
proof -
  let ?raw = "sample_event_body" and ?st = "\<lparr>rs_now = 0, rs_db = []\<rparr>"
  let ?rs = "[(''1000'', ?raw), (''1001'', ?raw)]"
  let ?dup = "Answered (Inr (JObj [(''ok'', JBool True), (''duplicate'', JBool True)]))" and ?ok = "Answered (Inr (JObj [(''ok'', JBool True)]))"
  let ?st1 = "rs_put (DEDUP_PREFIX @ ''Ev1'') (RStr ''1'') (Some 3600000) ?st"
  let ?pub = "publishing (JStr ''Ev1'') (JStr ''event_callback'') ''1000'' ?raw"
  have body: "loads ?raw = Inr (JObj [(''type'', JStr ''event_callback''), (''event_id'', JStr ''Ev1'')])"
    using sample_event_facts(2) by (simp add: sample_webhook_def del: dumps.simps)
  have free: "rs_find ?st (DEDUP_PREFIX @ ''Ev1'') = None" by (simp add: rs_find_def)
  have first: "deliver spec_redis (Received ''1000'' ?raw) ?st = (?pub, ?st1)"
    using free by (simp add: receive_def body rs_set_new dict_get_default_def Let_def del: dumps.simps)
  have "rs_find ?st1 (DEDUP_PREFIX @ ''Ev1'') \<noteq> None" by (simp add: alive_def)
  then have second: "deliver spec_redis (Received ts ?raw) ?st1 = (?dup, ?st1)" for ts
    by (simp add: receive_def body rs_set_new dict_get_default_def Let_def del: dumps.simps)
  obtain fs where fs: "?pub = Publishing fs"
    by (simp add: publishing_def slack_event_fields_def del: dumps.simps)
  have live: "event_log ?st" by (simp add: event_log_def)
  define st2 where "st2 = snd (rs_xadd EVENTS_STREAM fs ?st1)"
  have third: "deliver spec_redis (Publishing fs) ?st1 = (?ok, st2)"
    using event_log_stream [OF event_log_kept(1) [OF live]] by (simp add: st2_def rs_xadd_def Let_def)
  have run: "(pool_step False)\<^sup>*\<^sup>* (?st, map (\<lambda>(ts, raw). Received ts raw) ?rs) (st2, [?ok, ?dup])"
  proof -
    have "pool_step False (?st, [Received ''1000'' ?raw, Received ''1001'' ?raw]) (?st1, [Publishing fs, Received ''1001'' ?raw])"
      using pool_step.piece [of 0 "[Received ''1000'' ?raw, Received ''1001'' ?raw]" ?st "Publishing fs" ?st1 False] first fs
      by (simp del: dumps.simps deliver.simps)
    moreover have "pool_step False (?st1, [Publishing fs, Received ''1001'' ?raw]) (?st1, [Publishing fs, ?dup])"
      using pool_step.piece [of 1 "[Publishing fs, Received ''1001'' ?raw]" ?st1 ?dup ?st1 False] second by (simp del: dumps.simps deliver.simps)
    moreover have "pool_step False (?st1, [Publishing fs, ?dup]) (st2, [?ok, ?dup])"
      using pool_step.piece [of 0 "[Publishing fs, ?dup]" ?st1 ?ok st2 False] third by (simp del: deliver.simps)
    ultimately show ?thesis by (simp del: dumps.simps deliver.simps)
  qed
  have named: "mentions ''Ev1'' ?raw" "names_event ''Ev1'' ?raw" "string_event ?raw"
    by (auto simp: mentions_def names_event_def string_event_def body simp del: dumps.simps split: if_splits)
  have "rs_now st2 = 0" by (simp add: st2_def now_xadd)
  then have "published ''Ev1'' st2 = published ''Ev1'' ?st + 1"
    using named live free
    by (intro webhook_once_under_interleaving [OF run, THEN conjunct2, THEN conjunct1, THEN mp])
      (auto simp: DEDUP_PREFIX_def simp del: dumps.simps)
  moreover have "published ''Ev1'' ?st = 0" by (simp add: published_def rs_stream_def rs_find_def empty_stream_def)
  ultimately show ?thesis using run by (intro exI [of _ st2]) (simp del: dumps.simps)
qed

end
