(* ===== verification/Spec2Isabelle.thy ===== *)
theory Spec2Isabelle
  imports Gateway Log_Redaction Seed_Rbac Worker_Loop Webhook_Interleaving
begin

text \<open>
  A verification development for the MCP agent gateway: a web service that lets AI agents use Google Drive and Slack
  through the Model Context Protocol. Callers authenticate with OAuth tokens of an identity provider; the gateway
  itself holds one shared Google and one shared Slack credential. All paths below are relative to \<open>src/\<close>.

  \<^bold>\<open>The program and its model.\<close> A Python function that may raise and change the world is a program
  \<open>('s, 'a) prog = 's \<Rightarrow> (exn + 'a) \<times> 's\<close>: it returns a result or an exception, and a new state. The
  state \<open>'s\<close> is left open; what a function uses of the outside (the Redis server, HTTP, clocks, random identifiers, the
  file system, the cipher, the token library, pydantic, the web framework) is a record of such programs that it is
  given. Exceptions are the datatype \<open>exn\<close>, a dictionary is an association list in insertion order, a JSON document
  is the datatype \<open>json\<close>, a float is an exact decimal, text is a list of characters (code points below 256).

  \<^item> Shared: \<open>Gateway_Prelude\<close> (programs, \<open>try\<close>/\<open>finally\<close>, invariants of programs as the locale
    \<open>frame_rel\<close>, simulation of one program by another), \<open>Py_Strings\<close>, \<open>Py_Numbers\<close>, \<open>Py_Json\<close> (printing and
    reading documents, with the round trip), \<open>Json_Indent\<close> (the same for indented text), \<open>Py_Format\<close>, \<open>Py_Url\<close>, \<open>Web_Types\<close>.
  \<^item> \<open>Redis_Api\<close>: the commands the gateway sends; the locale of servers that keep their documented promises and its
    interpretation on a concrete server. \<open>Stores\<close> (\<open>app/shared/store.py\<close>) builds the key-value stores on it.
  \<^item> \<open>Http_Client\<close>: the HTTP and retry libraries as a locale; \<open>Upstream_Clients\<close> (\<open>drive_client.py\<close>,
    \<open>slack_client.py\<close>), \<open>Token_Stores\<close> (both \<open>token_store.py\<close>), \<open>Drive_Query\<close> (\<open>drive_query.py\<close>).
  \<^item> \<open>Tool_Types\<close>, \<open>Tools\<close>, \<open>Usage\<close>: the tools with their input models (\<open>tools.py\<close> of both integrations) and usage
    accounting (\<open>app/shared/usage.py\<close>, \<open>app/api/usage_router.py\<close>).
  \<^item> \<open>Jobs\<close> (\<open>jobs.py\<close>, \<open>job_tools.py\<close>), \<open>Job_Queue\<close> (an abstract queue as a step relation), \<open>Job_Worker\<close>
    (\<open>job_worker.py\<close>, and the refinement of the abstract queue by what worker, tools and other workers do),
    \<open>Worker_Loop\<close> (the endless loop of the worker as a partial function).
  \<^item> \<open>Mcp_Server\<close> (\<open>app/mcp/server.py\<close>, \<open>prompts.py\<close>), \<open>Event_Store\<close> (\<open>app/mcp/event_store.py\<close>).
  \<^item> \<open>Rate_Limiter\<close>, \<open>Access_Guard\<close> (with \<open>token_validator.py\<close>), \<open>Middleware\<close> (\<open>app/middleware\<close> and the stack of
    \<open>app/main.py\<close>), \<open>Webhooks\<close> (\<open>signature.py\<close>, \<open>webhooks_router.py\<close>), \<open>Webhook_Interleaving\<close> (the same
    handler cut at its Redis commands, and a step relation for any number of overlapping deliveries).
  \<^item> \<open>Client_Registration\<close>, \<open>Authorization\<close> (\<open>app/identity/client_registration\<close>, \<open>app/authorization\<close>,
    \<open>protected_resource.py\<close>).
  \<^item> \<open>Config\<close> (\<open>app/config.py\<close>), \<open>Lifespan\<close> (startup and shutdown in \<open>app/main.py\<close>, \<open>app/mcp/app.py\<close>), \<open>Gateway\<close>
    (routes and assembly), \<open>Log_Redaction\<close> (\<open>app/logging.py\<close>), \<open>Seed_Rbac\<close>
    (\<open>compose/local/keycloak/seed_rbac.py\<close>).

  \<^bold>\<open>What is shown.\<close>
  \<^item> Access: no request reaches a private route without a genuine token, and its identity is that of the token; which
    paths and routes are public; which scopes and which tools a role gives (below); a listed tool is exactly a
    callable one; below \<open>/admin/\<close> a caller who is no administrator cannot tell two gateways apart; the rate limiter
    allows exactly the first calls of a window and lets calls pass when Redis fails.
  \<^item> Authorization: redirects go to the identity provider only, for a client URL only with a redirect URI which that
    client registered; metadata is fetched from public addresses only; what PKCE validation accepts.
  \<^item> Upstream: Drive queries read back as the filters they were built from; every request of a tool carries the one
    shared token; retries are bounded; tokens are reused until shortly before they expire and seeding never
    overwrites a rotated one.
  \<^item> Jobs: the queue is a refinement of an abstract queue in which a job is waiting, claimed or closed; a processed job
    is closed and answered exactly once; the worker drains the queue, and its task ends only by cancellation; only the
    owner of a job reads its result.
  \<^item> Events: the event store keeps its bounds and replays exactly the later messages of a stream; a webhook without a
    valid, fresh signature changes nothing, an event delivered twice is published once, also when the deliveries
    overlap, in whatever order their commands reach the server.
  \<^item> Operations: what is opened at startup is closed whatever fails; what the log writes is masked; the seeding script
    may be run again: it then writes the text that its file already holds.
  \<^item> Behaviour that is not what the code intends is stated as it is: a malformed token raises through the guard, a job
    whose worker is cancelled is lost, a job of an ordinary user fails, an event is lost when its publication fails,
    a worker that died leaves connections open after shutdown.

  \<^bold>\<open>Bounds.\<close> Loops of the source are recursion on their data. The reader of JSON documents has fuel twice the
  length of the text, which is enough for every document that the printer writes (the round trip is proved
  with this fuel). The loop of the worker is \<open>worker_loop\<close>, a partial function whose value is \<open>None\<close> where it does not
  return; \<open>rounds W n\<close> are its first \<open>n\<close> rounds, for every \<open>n\<close>: it returns exactly if some number of rounds is
  interrupted. Draining the queue is shown for as many rounds as there are jobs. The retry loop is bounded by its number of attempts.

  \<^bold>\<open>Not modelled.\<close> Third-party code: the protocol library (sessions, transport, and with it under which
  context variables a handler runs: handlers take their context as an argument), the web framework beyond routing,
  pydantic beyond what a field declares, redis-py, httpx, tenacity, PyJWT, cryptography, tiktoken, OpenTelemetry; they are
  parameters, with what the code relies on as laws of locales or hypotheses. Handlers run one after the other; interleaving is
  modelled where the program relies on its order of commands, for the job queue shared by workers and for webhook deliveries. Code points above 255, rounding of
  binary floats and the text of log records after formatting are outside. \<open>app/integrations/base.py\<close> declares
  an interface that nothing implements.
\<close>

section \<open>Roles, tools and reports\<close>

text \<open>
  The names of scopes and roles are spread over five files; they agree: the scopes of the guard's challenge, of
  the resource metadata and of the role map, and the roles of the realm and of the role map.
\<close>

lemma scope_vocabulary:
  "set (str_split_ws SCOPES) = set scopes_supported" "set (map snd ROLE_SCOPE_MAP) = set scopes_supported"
  "set (map fst CLIENT_ROLES) = set (map fst ROLE_SCOPE_MAP)"
  "insert ADMIN_SCOPE (set (List.map_filter snd GROUPS)) = set scopes_supported"
  by code_simp+

lemma supported_scopes: "set scopes_supported = {''mcp:google:read'', ''mcp:slack:read'', ''mcp:admin:read''}"
  by (simp add: scopes_supported_def)

lemma list_prompts_google: "list_prompts ctx = (if ''mcp:google:read'' \<in> current_user_scopes ctx then DRIVE_PROMPTS else [])"
  by (simp add: list_prompts_def visible_prompts_def PROMPT_GROUPS_def scope_ok_def DRIVE_PROMPT_REQUIRED_SCOPE_def)

text \<open>
  C8: what a role is good for. Take a token whose scope claim names no scope of the gateway, so that its roles
  decide. Then the request that the access guard hands on lists exactly the tools of its roles (\<open>drive-user\<close>: Drive and export,
  \<open>slack-user\<close>: Slack), sees the Drive prompts exactly as \<open>drive-user\<close>, and passes the check of the usage reports
  exactly as \<open>admin-user\<close>; roles of other clients and unknown roles give nothing.
\<close>

theorem role_based_access:
  assumes "dict_get_default claims ''scope'' (JStr []) = JStr sc" "set (str_split_ws sc) \<inter> set scopes_supported = {}"
    and "dict_get claims ''resource_access'' = Some (JObj clients)" "dict_get clients ''mcp-gateway'' = Some (JObj own)"
    and "dict_get own ''roles'' = Some (JArr (map JStr roles))"
  shows "\<exists>scopes. granted_scopes claims = Inr scopes \<and>
    (let rq' = with_identity claims sub scopes rq in
       handle_list_tools (rq_ctx rq') = (if ''drive-user'' \<in> set roles then DRIVE_TOOLS @ JOB_TOOLS else []) @ (if ''slack-user'' \<in> set roles then SLACK_TOOLS else [])
     \<and> list_prompts (rq_ctx rq') = (if ''drive-user'' \<in> set roles then DRIVE_PROMPTS else [])
     \<and> (require_admin_scope rq' = Inr () \<longleftrightarrow> ''admin-user'' \<in> set roles))"
proof -
  let ?pairs = "{(''drive-user'', ''mcp:google:read''), (''slack-user'', ''mcp:slack:read''), (''admin-user'', ''mcp:admin:read'')}"
  obtain scopes where scopes: "granted_scopes claims = Inr scopes"
    and set_scopes: "set scopes = set (str_split_ws sc) \<union> {g. \<exists>r \<in> set roles. (r, g) \<in> ?pairs}"
    using scopes_granted [OF assms(1,3,4,5)] by blast
  have mem: "''mcp:google:read'' \<in> set scopes \<longleftrightarrow> ''drive-user'' \<in> set roles" "''mcp:slack:read'' \<in> set scopes \<longleftrightarrow> ''slack-user'' \<in> set roles"
    "''mcp:admin:read'' \<in> set scopes \<longleftrightarrow> ''admin-user'' \<in> set roles"
    using assms(2) unfolding supported_scopes set_scopes by auto
  show ?thesis
    by (intro exI [of _ scopes])
      (simp add: scopes Let_def handle_list_tools_def visible_tools_groups list_prompts_google require_admin_scope_def ADMIN_SCOPE_def mem)
qed

theorem role_based_access_witness:
  "\<exists>scopes. granted_scopes [(''scope'', JStr ''openid''), (''resource_access'', JObj [(''other'', JObj [(''roles'', JArr [JStr ''admin-user''])]),
        (''mcp-gateway'', JObj [(''roles'', JArr [JStr ''slack-user'', JStr ''guest''])])])] = Inr scopes
    \<and> handle_list_tools (rq_ctx (with_identity [(''scope'', JStr ''openid''), (''resource_access'', JObj [(''other'', JObj [(''roles'', JArr [JStr ''admin-user''])]),
        (''mcp-gateway'', JObj [(''roles'', JArr [JStr ''slack-user'', JStr ''guest''])])])] ''u1'' scopes (sample_request ''/mcp/'' [] None))) = SLACK_TOOLS"
proof -
  have words: "str_split_ws ''openid'' = [''openid'']" by code_simp
  show ?thesis
    using role_based_access [of "[(''scope'', JStr ''openid''), (''resource_access'', JObj [(''other'', JObj [(''roles'', JArr [JStr ''admin-user''])]),
        (''mcp-gateway'', JObj [(''roles'', JArr [JStr ''slack-user'', JStr ''guest''])])])]" "''openid''"
      "[(''other'', JObj [(''roles'', JArr [JStr ''admin-user''])]), (''mcp-gateway'', JObj [(''roles'', JArr [JStr ''slack-user'', JStr ''guest''])])]"
      "[(''roles'', JArr [JStr ''slack-user'', JStr ''guest''])]" "[''slack-user'', ''guest'']" "''u1''" "sample_request ''/mcp/'' [] None"]
    by (auto simp: dict_get_default_def words supported_scopes Let_def)
qed

end
